theory Spec2Isabelle
  imports Complex_Main
begin

section \<open>The Timesketch API client: retry loops and listings of client.py\<close>

text \<open>
  The development embeds the methods of class \<open>TimesketchApi\<close>
  (api_client/python/timesketch_api_client/client.py) that talk to the server through
  the HTTP session: \<open>fetch_resource_data\<close>, \<open>create_sketch\<close>, \<open>create_searchindex\<close>,
  \<open>create_user\<close>, \<open>create_sigmarule\<close>, \<open>parse_sigmarule_by_text\<close>, \<open>list_sketches\<close>,
  \<open>list_users\<close> and \<open>list_searchindices\<close>.

  Every raise of the source is a value \<open>Inl e\<close>, every call of \<open>session.get\<close>,
  \<open>session.post\<close> and \<open>time.sleep\<close> is an event appended to a history, and the server
  is a function of the history so far and of the request. Log lines and the texts of
  error messages are left out: only the class of a raised exception is kept.
\<close>

subsection \<open>Decoded JSON values and the Python operations used on them\<close>

text \<open>
  A decoded JSON value. A Python dict is an association list read with \<open>map_of\<close>; the
  Python value \<open>None\<close> is \<open>JNull\<close>. JSON numbers with a fraction are not modelled.
\<close>

datatype json =
    JNull
  | JBool bool
  | JInt int
  | JStr string
  | JList "json list"
  | JDict "(string \<times> json) list"

text \<open>
  The exception classes that occur. \<open>ConnectionError\<close> is the one of
  \<open>requests.exceptions\<close>, a subclass of \<open>RequestException\<close>; the constructor
  \<open>RequestException\<close> stands for any other instance of that class.
\<close>

datatype error =
    ConnectionError
  | RequestException
  | RuntimeError
  | ValueError
  | AttributeError
  | KeyError
  | IndexError
  | TypeError

text \<open>\<open>isinstance(e, RequestException)\<close>.\<close>

definition is_RequestException :: "error \<Rightarrow> bool" where
  "is_RequestException e = (e = ConnectionError \<or> e = RequestException)"

text \<open>Python truth value of a decoded JSON value (\<open>if x:\<close>, \<open>not x\<close>).\<close>

fun truthy :: "json \<Rightarrow> bool" where
  "truthy JNull = False"
| "truthy (JBool b) = b"
| "truthy (JInt i) = (i \<noteq> 0)"
| "truthy (JStr s) = (s \<noteq> [])"
| "truthy (JList xs) = (xs \<noteq> [])"
| "truthy (JDict d) = (d \<noteq> [])"

text \<open>
  \<open>x.get(key, default)\<close>; \<open>x.get(key)\<close> is \<open>py_get x key JNull\<close>. Only a dict has
  \<open>get\<close>: on any other value the attribute lookup raises AttributeError.
\<close>

fun py_get :: "json \<Rightarrow> string \<Rightarrow> json \<Rightarrow> error + json" where
  "py_get (JDict d) key dflt = Inr (case map_of d key of None \<Rightarrow> dflt | Some v \<Rightarrow> v)"
| "py_get _ key dflt = Inl AttributeError"

text \<open>
  \<open>x[0]\<close>. A dict decoded from JSON has string keys only, so the key \<open>0\<close> is never
  present; a string gives its first character as a string.
\<close>

fun index0 :: "json \<Rightarrow> error + json" where
  "index0 (JList []) = Inl IndexError"
| "index0 (JList (x # xs)) = Inr x"
| "index0 (JStr []) = Inl IndexError"
| "index0 (JStr (c # cs)) = Inr (JStr [c])"
| "index0 (JDict d) = Inl KeyError"
| "index0 _ = Inl TypeError"

text \<open>\<open>x[key]\<close> for a string key.\<close>

fun getitem :: "json \<Rightarrow> string \<Rightarrow> error + json" where
  "getitem (JDict d) key = (case map_of d key of None \<Rightarrow> Inl KeyError | Some v \<Rightarrow> Inr v)"
| "getitem _ key = Inl TypeError"

text \<open>
  The elements that \<open>for v in x\<close> visits: the elements of a list, the keys of a dict, the
  characters of a string; anything else is not iterable.
\<close>

fun py_iter :: "json \<Rightarrow> error + json list" where
  "py_iter (JList xs) = Inr xs"
| "py_iter (JDict d) = Inr (map (\<lambda>kv. JStr (fst kv)) d)"
| "py_iter (JStr s) = Inr (map (\<lambda>c. JStr [c]) s)"
| "py_iter _ = Inl TypeError"

text \<open>\<open>d[key] = v\<close> on a dict: the binding is replaced in place, or added at the end.\<close>

fun setitem :: "(string \<times> json) list \<Rightarrow> string \<Rightarrow> json \<Rightarrow> (string \<times> json) list" where
  "setitem [] key v = [(key, v)]"
| "setitem ((k, w) # d) key v = (if k = key then (k, v) # d else (k, w) # setitem d key v)"

subsection \<open>The session, the server and the history of a call\<close>

text \<open>
  What the client sees of an HTTP response: the status code, and the decoded body,
  \<open>None\<close> when the body is not valid JSON.
\<close>

record response =
  status_code :: nat
  body :: "json option"

datatype request =
    GET string "(string \<times> json) list option"
  | POST string json

text \<open>
  One event per call of \<open>session.get\<close>/\<open>session.post\<close> (issued, whether or not it
  completes) and per call of \<open>time.sleep\<close> (its argument, in seconds: the source computes
  \<open>0.5 * 2 ** k\<close> with \<open>0 \<le> k \<le> 3\<close>, which binary floating point represents exactly).
\<close>

datatype event =
    Call request
  | Sleep real

type_synonym history = "event list"

text \<open>
  The session with the server behind it: given the events so far and the request, the
  call either raises (\<open>Inl\<close>) or returns a response. The session object itself is
  taken as set (the property \<open>session\<close> raises ValueError otherwise).
\<close>

type_synonym session = "history \<Rightarrow> request \<Rightarrow> error + response"

text \<open>
  Modelled from the spec: \<open>error.get_response_json\<close> and the constant
  \<open>definitions.HTTP_STATUS_CODE_20X\<close> (modules \<open>error\<close> and \<open>definitions\<close> are not part
  of client.py). A status outside the 200-299 range raises RuntimeError, a success status
  whose body cannot be parsed as JSON raises ValueError, otherwise the decoded payload
  is returned. client.py says the same where it calls it: "Raises RuntimeError for
  non-20x, ValueError for JSON decode".
\<close>

definition HTTP_STATUS_CODE_20X :: "nat \<Rightarrow> bool" where
  "HTTP_STATUS_CODE_20X code = (200 \<le> code \<and> code \<le> 299)"

definition get_response_json :: "response \<Rightarrow> error + json" where
  "get_response_json r =
     (if \<not> HTTP_STATUS_CODE_20X (status_code r) then Inl RuntimeError
      else case body r of None \<Rightarrow> Inl ValueError | Some j \<Rightarrow> Inr j)"

definition DEFAULT_RETRY_COUNT :: nat where
  "DEFAULT_RETRY_COUNT = 5"

subsection \<open>fetch_resource_data\<close>

text \<open>
  The \<open>while True\<close> loop of \<open>fetch_resource_data\<close>; \<open>attempt0\<close> is the value of
  \<open>attempt\<close> on entry to the body. The three \<open>except\<close> clauses catch RuntimeError,
  ValueError and ConnectionError and re-raise the same class once
  \<open>attempt >= DEFAULT_RETRY_COUNT\<close>; any other exception leaves the method at once.
  After a caught exception, and after a falsy result, control reaches the final
  \<open>if attempt >= DEFAULT_RETRY_COUNT: raise RuntimeError\<close>. The variable \<open>result\<close> is
  kept by the source only for the text of that last error, and is not carried along.
\<close>

function fetch_loop ::
  "session \<Rightarrow> string \<Rightarrow> (string \<times> json) list option \<Rightarrow> nat \<Rightarrow> history
     \<Rightarrow> (error + json) \<times> history" where
  "fetch_loop sess resource_url params attempt0 h =
     (let attempt = attempt0 + 1;
          h1 = (if attempt > 1 then h @ [Sleep (0.5 * 2 ^ (attempt - 2))] else h);
          h2 = h1 @ [Call (GET resource_url params)]
      in case (case sess h1 (GET resource_url params) of
                 Inl e \<Rightarrow> Inl e
               | Inr response \<Rightarrow> get_response_json response) of
           Inr result \<Rightarrow>
             if truthy result then (Inr result, h2)
             else if attempt \<ge> DEFAULT_RETRY_COUNT then (Inl RuntimeError, h2)
             else fetch_loop sess resource_url params attempt h2
         | Inl e \<Rightarrow>
             if e = RuntimeError \<or> e = ValueError \<or> e = ConnectionError then
               (if attempt \<ge> DEFAULT_RETRY_COUNT then (Inl e, h2)
                else if attempt \<ge> DEFAULT_RETRY_COUNT then (Inl RuntimeError, h2)
                else fetch_loop sess resource_url params attempt h2)
             else (Inl e, h2))"
  by pat_completeness auto
termination
  by (relation "measure (\<lambda>(sess, resource_url, params, attempt0, h).
        DEFAULT_RETRY_COUNT - attempt0)") (auto simp: DEFAULT_RETRY_COUNT_def)

declare fetch_loop.simps [simp del]

definition fetch_resource_data ::
  "session \<Rightarrow> string \<Rightarrow> string \<Rightarrow> (string \<times> json) list option \<Rightarrow> history
     \<Rightarrow> (error + json) \<times> history" where
  "fetch_resource_data sess api_root resource_uri params h =
     fetch_loop sess (api_root @ ''/'' @ resource_uri) params 0 h"

subsection \<open>The objects handed back to the caller\<close>

text \<open>
  The classes \<open>sketch.Sketch\<close>, \<open>index.SearchIndex\<close>, \<open>user.User\<close>, \<open>sigma.SigmaRule\<close>
  and \<open>sigma.Sigma\<close> live in modules that are not part of client.py. A value of this
  type is the object client.py constructs, with the arguments it passes:
  \<open>Sketch sketch_id sketch_name\<close>, \<open>SearchIndex searchindex_id searchindex_name\<close>
  (the name is \<open>None\<close> where the keyword is not given), \<open>User user_id\<close>, the
  \<open>SigmaRule\<close> on which \<open>from_rule_uuid(rule_uuid)\<close> was called and the \<open>Sigma\<close> on
  which \<open>from_text(rule_text)\<close> was called. Whatever the constructors do beyond building
  the object is not in client.py and is not modelled.
\<close>

datatype resource =
    Sketch json "json option"
  | SearchIndex json "json option"
  | User json
  | SigmaRule json
  | Sigma string

text \<open>
  The methods \<open>SigmaRule.from_rule_uuid\<close> and \<open>Sigma.from_text\<close> of module \<open>sigma\<close> are
  parameters: given the argument and the history so far, such a call adds events to the
  history (the second component) and may raise (the first).
\<close>

type_synonym 'a loader = "'a \<Rightarrow> history \<Rightarrow> error option \<times> event list"

definition get_sketch :: "json \<Rightarrow> resource" where
  "get_sketch sketch_id = Sketch sketch_id None"

definition get_searchindex :: "json \<Rightarrow> resource" where
  "get_searchindex searchindex_id = SearchIndex searchindex_id None"

definition get_user :: "json \<Rightarrow> resource" where
  "get_user user_id = User user_id"

definition get_sigmarule :: "json loader \<Rightarrow> json \<Rightarrow> history \<Rightarrow> (error + resource) \<times> history" where
  "get_sigmarule from_rule_uuid rule_uuid h =
     (case from_rule_uuid rule_uuid h of
        (Some e, t) \<Rightarrow> (Inl e, h @ t)
      | (None, t) \<Rightarrow> (Inr (SigmaRule rule_uuid), h @ t))"

subsection \<open>create_sketch and create_searchindex\<close>

text \<open>
  What one pass through a \<open>try\<close> statement of the two methods gives: the method returns,
  the attempt fails and \<open>last_exception\<close> is set, or an exception no clause catches
  leaves the method.
\<close>

datatype 'a tried =
    Returned 'a
  | Failed error
  | Uncaught error

text \<open>
  The clauses \<open>except RequestException\<close>, \<open>except ValueError\<close>, \<open>except RuntimeError\<close>,
  each of which sets \<open>last_exception = e\<close>.
\<close>

definition create_except :: "error \<Rightarrow> 'a tried" where
  "create_except e =
     (if is_RequestException e \<or> e = ValueError \<or> e = RuntimeError then Failed e
      else Uncaught e)"

text \<open>
  The guard \<open>objects and isinstance(objects, list) and len(objects) > 0 and
  isinstance(objects[0], dict) and "id" in objects[0]\<close> together with the value
  \<open>objects[0]["id"]\<close> read under it.
\<close>

fun first_object_id :: "json \<Rightarrow> json option" where
  "first_object_id (JList (JDict d # rest)) = map_of d ''id''"
| "first_object_id _ = None"

text \<open>
  The \<open>try\<close> statement of \<open>create_sketch\<close>. A payload the guard rejects sets
  \<open>last_exception = RuntimeError(...)\<close> without raising.
\<close>

definition create_sketch_try :: "response \<Rightarrow> resource tried" where
  "create_sketch_try response =
     (case get_response_json response of
        Inl e \<Rightarrow> create_except e
      | Inr response_dict \<Rightarrow>
          (case py_get response_dict ''objects'' JNull of
             Inl e \<Rightarrow> create_except e
           | Inr objects \<Rightarrow>
               (case first_object_id objects of
                  Some sketch_id \<Rightarrow> Returned (get_sketch sketch_id)
                | None \<Rightarrow> Failed RuntimeError)))"

text \<open>
  The \<open>for attempt in range(DEFAULT_RETRY_COUNT)\<close> loop of \<open>create_sketch\<close>.
  \<open>session.post\<close> is called before the \<open>try\<close>, so what it raises leaves the method.
  When the range is used up the fallback after the loop raises RuntimeError.
\<close>

function create_sketch_loop ::
  "session \<Rightarrow> string \<Rightarrow> json \<Rightarrow> nat \<Rightarrow> error option \<Rightarrow> history
     \<Rightarrow> (error + resource) \<times> history" where
  "create_sketch_loop sess resource_url form_data attempt last_exception h =
     (if \<not> attempt < DEFAULT_RETRY_COUNT then (Inl RuntimeError, h)
      else
        let h1 = h @ [Call (POST resource_url form_data)]
        in case sess h (POST resource_url form_data) of
             Inl e \<Rightarrow> (Inl e, h1)
           | Inr response \<Rightarrow>
               (case create_sketch_try response of
                  Returned r \<Rightarrow> (Inr r, h1)
                | Uncaught e \<Rightarrow> (Inl e, h1)
                | Failed e \<Rightarrow>
                    if attempt < DEFAULT_RETRY_COUNT - 1 then
                      create_sketch_loop sess resource_url form_data (attempt + 1) (Some e)
                        (h1 @ [Sleep (0.5 * 2 ^ attempt)])
                    else (Inl RuntimeError, h1)))"
  by pat_completeness auto
termination
  by (relation "measure (\<lambda>(sess, resource_url, form_data, attempt, last_exception, h).
        DEFAULT_RETRY_COUNT - attempt)") (auto simp: DEFAULT_RETRY_COUNT_def)

declare create_sketch_loop.simps [simp del]

text \<open>
  \<open>create_sketch(name, description=None)\<close>. \<open>sketch_form_data\<close> is the dict
  \<open>form_data\<close>: the description defaults to the name when it is \<open>None\<close> or empty. An
  empty name raises ValueError before anything else happens.
\<close>

definition sketch_form_data :: "string \<Rightarrow> string option \<Rightarrow> json" where
  "sketch_form_data name description =
     JDict [(''name'', JStr name),
            (''description'', JStr (case description of
                                      None \<Rightarrow> name
                                    | Some d \<Rightarrow> if d = [] then name else d))]"

definition create_sketch ::
  "session \<Rightarrow> string \<Rightarrow> string \<Rightarrow> string option \<Rightarrow> history
     \<Rightarrow> (error + resource) \<times> history" where
  "create_sketch sess api_root name description h =
     (if name = [] then (Inl ValueError, h)
      else create_sketch_loop sess (api_root @ ''/sketches/'')
             (sketch_form_data name description) 0 None h)"

text \<open>
  The \<open>try\<close> statement of \<open>create_searchindex\<close>: here \<open>session.post\<close> is inside it.
\<close>

definition create_searchindex_try :: "error + response \<Rightarrow> resource tried" where
  "create_searchindex_try posted =
     (case posted of
        Inl e \<Rightarrow> create_except e
      | Inr response \<Rightarrow>
          (case get_response_json response of
             Inl e \<Rightarrow> create_except e
           | Inr response_dict \<Rightarrow>
               (case py_get response_dict ''objects'' JNull of
                  Inl e \<Rightarrow> create_except e
                | Inr objects \<Rightarrow>
                    (case first_object_id objects of
                       Some searchindex_id \<Rightarrow> Returned (SearchIndex searchindex_id None)
                     | None \<Rightarrow> Failed RuntimeError))))"

text \<open>
  The loop of \<open>create_searchindex\<close>. On the last attempt the source runs
  \<open>if last_exception: last_exception = RuntimeError(f"{0:s} Response: {1!s}".format(...))\<close>
  before \<open>raise RuntimeError(error_message_detail)\<close>. The f-string formats the integer
  \<open>0\<close> with the format code \<open>s\<close>, which raises ValueError; \<open>last_exception\<close> is an
  exception object, hence true, whenever an attempt has failed.
\<close>

function create_searchindex_loop ::
  "session \<Rightarrow> string \<Rightarrow> json \<Rightarrow> nat \<Rightarrow> error option \<Rightarrow> history
     \<Rightarrow> (error + resource) \<times> history" where
  "create_searchindex_loop sess resource_url form_data attempt last_exception h =
     (if \<not> attempt < DEFAULT_RETRY_COUNT then (Inl RuntimeError, h)
      else
        let h1 = h @ [Call (POST resource_url form_data)]
        in case create_searchindex_try (sess h (POST resource_url form_data)) of
             Returned r \<Rightarrow> (Inr r, h1)
           | Uncaught e \<Rightarrow> (Inl e, h1)
           | Failed e \<Rightarrow>
               if attempt < DEFAULT_RETRY_COUNT - 1 then
                 create_searchindex_loop sess resource_url form_data (attempt + 1) (Some e)
                   (h1 @ [Sleep (0.5 * 2 ^ attempt)])
               else if Some e \<noteq> None then (Inl ValueError, h1)
               else (Inl RuntimeError, h1))"
  by pat_completeness auto
termination
  by (relation "measure (\<lambda>(sess, resource_url, form_data, attempt, last_exception, h).
        DEFAULT_RETRY_COUNT - attempt)") (auto simp: DEFAULT_RETRY_COUNT_def)

declare create_searchindex_loop.simps [simp del]

definition searchindex_form_data :: "string \<Rightarrow> string \<Rightarrow> json" where
  "searchindex_form_data searchindex_name opensearch_index_name =
     JDict [(''searchindex_name'', JStr searchindex_name),
            (''es_index_name'', JStr opensearch_index_name)]"

definition create_searchindex ::
  "session \<Rightarrow> string \<Rightarrow> string \<Rightarrow> string \<Rightarrow> history \<Rightarrow> (error + resource) \<times> history" where
  "create_searchindex sess api_root searchindex_name opensearch_index_name h =
     create_searchindex_loop sess (api_root @ ''/searchindices/'')
       (searchindex_form_data searchindex_name opensearch_index_name) 0 None h"

subsection \<open>create_user and create_sigmarule\<close>

text \<open>
  The \<open>while True\<close> loop shared by the two methods up to \<open>break\<close>: there is no \<open>try\<close>, so
  whatever \<open>session.post\<close>, \<open>get_response_json\<close> or \<open>response_dict.get\<close> raise leaves
  the call; only a falsy \<open>objects\<close> is counted in \<open>retry_count\<close> and tried again, without
  sleeping. The result is the \<open>objects\<close> the loop was left with.
\<close>

function post_until_objects ::
  "session \<Rightarrow> string \<Rightarrow> json \<Rightarrow> nat \<Rightarrow> history \<Rightarrow> (error + json) \<times> history" where
  "post_until_objects sess resource_url form_data retry_count h =
     (let h1 = h @ [Call (POST resource_url form_data)]
      in case sess h (POST resource_url form_data) of
           Inl e \<Rightarrow> (Inl e, h1)
         | Inr response \<Rightarrow>
             (case get_response_json response of
                Inl e \<Rightarrow> (Inl e, h1)
              | Inr response_dict \<Rightarrow>
                  (case py_get response_dict ''objects'' JNull of
                     Inl e \<Rightarrow> (Inl e, h1)
                   | Inr objects \<Rightarrow>
                       if truthy objects then (Inr objects, h1)
                       else if retry_count + 1 \<ge> DEFAULT_RETRY_COUNT then (Inl RuntimeError, h1)
                       else post_until_objects sess resource_url form_data (retry_count + 1) h1)))"
  by pat_completeness auto
termination
  by (relation "measure (\<lambda>(sess, resource_url, form_data, retry_count, h).
        DEFAULT_RETRY_COUNT - retry_count)") (auto simp: DEFAULT_RETRY_COUNT_def)

declare post_until_objects.simps [simp del]

text \<open>\<open>objects[0][key]\<close>, as both methods read it after the loop.\<close>

definition first_object_field :: "json \<Rightarrow> string \<Rightarrow> error + json" where
  "first_object_field objects key =
     (case index0 objects of Inl e \<Rightarrow> Inl e | Inr obj \<Rightarrow> getitem obj key)"

definition user_form_data :: "string \<Rightarrow> string \<Rightarrow> json" where
  "user_form_data username password =
     JDict [(''username'', JStr username), (''password'', JStr password)]"

definition create_user ::
  "session \<Rightarrow> string \<Rightarrow> string \<Rightarrow> string \<Rightarrow> history \<Rightarrow> (error + resource) \<times> history" where
  "create_user sess api_root username password h =
     (case post_until_objects sess (api_root @ ''/users/'')
             (user_form_data username password) 0 h of
        (Inl e, h') \<Rightarrow> (Inl e, h')
      | (Inr objects, h') \<Rightarrow>
          (case first_object_field objects ''id'' of
             Inl e \<Rightarrow> (Inl e, h')
           | Inr user_id \<Rightarrow> (Inr (User user_id), h')))"

definition sigmarule_form_data :: "string \<Rightarrow> json" where
  "sigmarule_form_data rule_yaml = JDict [(''rule_yaml'', JStr rule_yaml)]"

definition create_sigmarule ::
  "json loader \<Rightarrow> session \<Rightarrow> string \<Rightarrow> string \<Rightarrow> history \<Rightarrow> (error + resource) \<times> history" where
  "create_sigmarule from_rule_uuid sess api_root rule_yaml h =
     (case post_until_objects sess (api_root @ ''/sigmarules/'')
             (sigmarule_form_data rule_yaml) 0 h of
        (Inl e, h') \<Rightarrow> (Inl e, h')
      | (Inr objects, h') \<Rightarrow>
          (case first_object_field objects ''rule_uuid'' of
             Inl e \<Rightarrow> (Inl e, h')
           | Inr rule_uuid \<Rightarrow> get_sigmarule from_rule_uuid rule_uuid h'))"

text \<open>
  \<open>parse_sigmarule_by_text\<close>: an empty text raises ValueError first; a ValueError of
  \<open>from_text\<close> is caught and logged, and the object is returned all the same.
\<close>

definition parse_sigmarule_by_text ::
  "string loader \<Rightarrow> string \<Rightarrow> history \<Rightarrow> (error + resource) \<times> history" where
  "parse_sigmarule_by_text from_text rule_text h =
     (if rule_text = [] then (Inl ValueError, h)
      else case from_text rule_text h of
             (Some e, t) \<Rightarrow>
               if e = ValueError then (Inr (Sigma rule_text), h @ t) else (Inl e, h @ t)
           | (None, t) \<Rightarrow> (Inr (Sigma rule_text), h @ t))"

subsection \<open>The listing generators\<close>

text \<open>
  A generator consumed to its end: the items it yields, in order, and how it ends,
  \<open>None\<close> for a normal end and \<open>Some e\<close> for a raise. The body of a generator runs only
  when it is consumed, so the events below are those of a full consumption.
\<close>

type_synonym 'a generated = "'a list \<times> error option"

text \<open>The \<open>for user_dict in ...\<close> loop of \<open>list_users\<close>.\<close>

fun yield_users :: "json list \<Rightarrow> resource generated" where
  "yield_users [] = ([], None)"
| "yield_users (user_dict # rest) =
     (case getitem user_dict ''id'' of
        Inl e \<Rightarrow> ([], Some e)
      | Inr user_id \<Rightarrow>
          (case yield_users rest of (ys, fin) \<Rightarrow> (User user_id # ys, fin)))"

definition list_users :: "session \<Rightarrow> string \<Rightarrow> history \<Rightarrow> resource generated \<times> history" where
  "list_users sess api_root h =
     (case fetch_resource_data sess api_root ''users/'' None h of
        (Inl e, h') \<Rightarrow> (([], Some e), h')
      | (Inr response, h') \<Rightarrow>
          (case py_get response ''objects'' (JList []) of
             Inl e \<Rightarrow> (([], Some e), h')
           | Inr objects \<Rightarrow>
               (case index0 objects of
                  Inl e \<Rightarrow> (([], Some e), h')
                | Inr users \<Rightarrow>
                    (case py_iter users of
                       Inl e \<Rightarrow> (([], Some e), h')
                     | Inr user_dicts \<Rightarrow> (yield_users user_dicts, h')))))"

text \<open>
  The \<open>for index_dict in response_objects[0]\<close> loop of \<open>list_searchindices\<close>. The
  generator also yields the Python value \<open>None\<close>, so its items are optional.
\<close>

fun yield_searchindices :: "json list \<Rightarrow> resource option generated" where
  "yield_searchindices [] = ([], None)"
| "yield_searchindices (index_dict # rest) =
     (case getitem index_dict ''id'' of
        Inl e \<Rightarrow> ([], Some e)
      | Inr index_id \<Rightarrow>
          (case getitem index_dict ''name'' of
             Inl e \<Rightarrow> ([], Some e)
           | Inr index_name \<Rightarrow>
               (case yield_searchindices rest of
                  (ys, fin) \<Rightarrow> (Some (SearchIndex index_id (Some index_name)) # ys, fin))))"

definition list_searchindices ::
  "session \<Rightarrow> string \<Rightarrow> history \<Rightarrow> resource option generated \<times> history" where
  "list_searchindices sess api_root h =
     (case fetch_resource_data sess api_root ''searchindices/'' None h of
        (Inl e, h') \<Rightarrow> (([], Some e), h')
      | (Inr response, h') \<Rightarrow>
          (case py_get response ''objects'' JNull of
             Inl e \<Rightarrow> (([], Some e), h')
           | Inr response_objects \<Rightarrow>
               if \<not> truthy response_objects then (([None], None), h')
               else
                 (case index0 response_objects of
                    Inl e \<Rightarrow> (([], Some e), h')
                  | Inr indices \<Rightarrow>
                      (case py_iter indices of
                         Inl e \<Rightarrow> (([], Some e), h')
                       | Inr index_dicts \<Rightarrow> (yield_searchindices index_dicts, h')))))"

text \<open>The \<open>for sketch_dict in response.get("objects", [])\<close> loop of \<open>list_sketches\<close>.\<close>

fun yield_sketches :: "json list \<Rightarrow> resource generated" where
  "yield_sketches [] = ([], None)"
| "yield_sketches (sketch_dict # rest) =
     (case getitem sketch_dict ''id'' of
        Inl e \<Rightarrow> ([], Some e)
      | Inr sketch_id \<Rightarrow>
          (case getitem sketch_dict ''name'' of
             Inl e \<Rightarrow> ([], Some e)
           | Inr sketch_name \<Rightarrow>
               (case yield_sketches rest of
                  (ys, fin) \<Rightarrow> (Sketch sketch_id (Some sketch_name) # ys, fin))))"

text \<open>
  The \<open>while has_next_page\<close> loop of \<open>list_sketches\<close>, entered with \<open>has_next_page\<close>
  true. \<open>url_params["page"] = page\<close> updates the one dict that every iteration passes to
  \<open>fetch_resource_data\<close>; \<open>page\<close> is whatever the server put in \<open>meta.next_page\<close>. The
  loop runs for as long as the server names a next page, so the result is \<open>None\<close> when
  it never ends.
\<close>

partial_function (option) list_sketches_loop ::
  "session \<Rightarrow> string \<Rightarrow> (string \<times> json) list \<Rightarrow> json \<Rightarrow> history
     \<Rightarrow> (resource generated \<times> history) option" where
  "list_sketches_loop sess api_root url_params page h =
     (case fetch_resource_data sess api_root ''sketches/''
             (Some (setitem url_params ''page'' page)) h of
        (Inl e, h') \<Rightarrow> Some (([], Some e), h')
      | (Inr response, h') \<Rightarrow>
          (case py_get response ''meta'' (JDict []) of
             Inl e \<Rightarrow> Some (([], Some e), h')
           | Inr meta \<Rightarrow>
               (case py_get meta ''next_page'' JNull of
                  Inl e \<Rightarrow> Some (([], Some e), h')
                | Inr next_page \<Rightarrow>
                    (case py_get response ''objects'' (JList []) of
                       Inl e \<Rightarrow> Some (([], Some e), h')
                     | Inr objects \<Rightarrow>
                         (case py_iter objects of
                            Inl e \<Rightarrow> Some (([], Some e), h')
                          | Inr sketch_dicts \<Rightarrow>
                              (case yield_sketches sketch_dicts of
                                 (ys, Some e) \<Rightarrow> Some ((ys, Some e), h')
                               | (ys, None) \<Rightarrow>
                                   if truthy next_page then
                                     Option.bind
                                       (list_sketches_loop sess api_root
                                          (setitem url_params ''page'' page) next_page h')
                                       (\<lambda>r. Some ((ys @ fst (fst r), snd (fst r)), snd r))
                                   else Some ((ys, None), h')))))))"

definition list_sketches ::
  "session \<Rightarrow> string \<Rightarrow> int \<Rightarrow> string \<Rightarrow> bool \<Rightarrow> history
     \<Rightarrow> (resource generated \<times> history) option" where
  "list_sketches sess api_root per_page scope include_archived h =
     list_sketches_loop sess api_root
       [(''per_page'', JInt per_page), (''scope'', JStr scope),
        (''include_archived'', JBool include_archived)]
       (JInt 1) h"

subsection \<open>The retry schedule and the kinds of failed attempt\<close>

text \<open>
  The unified backoff function the specification proposes:
  \<open>delay(attempt) = 0.5 * 2^(attempt-1)\<close> for \<open>attempt \<ge> 1\<close>, and no delay for
  \<open>attempt = 0\<close>. Its argument is the number of attempts that have failed so far.
\<close>

definition unified_delay :: "nat \<Rightarrow> real" where
  "unified_delay a = (if a = 0 then 0 else 0.5 * 2 ^ (a - 1))"

text \<open>
  The schedule written from the specification, attempts counted from 1: nothing is
  slept before attempt 1, \<open>unified_delay (m - 1)\<close> before attempt \<open>m > 1\<close>;
  \<open>schedule req k\<close> is every event of attempts \<open>1..k\<close>, and \<open>before_call req m\<close> every
  event that precedes the call of attempt \<open>m\<close>.
\<close>

definition sleeps_before :: "nat \<Rightarrow> event list" where
  "sleeps_before m = (if m \<le> 1 then [] else [Sleep (unified_delay (m - 1))])"

definition attempt_events :: "request \<Rightarrow> nat \<Rightarrow> event list" where
  "attempt_events req m = sleeps_before m @ [Call req]"

definition schedule :: "request \<Rightarrow> nat \<Rightarrow> event list" where
  "schedule req k = concat (map (attempt_events req) [1..<Suc k])"

definition before_call :: "request \<Rightarrow> nat \<Rightarrow> event list" where
  "before_call req m = schedule req (m - 1) @ sleeps_before m"

text \<open>The number of HTTP calls, and the sleeps, recorded in a history.\<close>

fun calls :: "history \<Rightarrow> nat" where
  "calls [] = 0"
| "calls (Call req # h) = Suc (calls h)"
| "calls (Sleep d # h) = calls h"

fun sleeps :: "history \<Rightarrow> real list" where
  "sleeps [] = []"
| "sleeps (Call req # h) = sleeps h"
| "sleeps (Sleep d # h) = d # sleeps h"

text \<open>
  The kinds of failed attempt the specification names, read off what the session call
  gave: a connection error, a status outside the 20x family, a 20x response whose body
  is not JSON; \<open>payload\<close> is the decoded body of a 20x response, if there is one.
\<close>

definition connection_error :: "error + response \<Rightarrow> bool" where
  "connection_error out = (out = Inl ConnectionError)"

definition non_20x_status :: "error + response \<Rightarrow> bool" where
  "non_20x_status out =
     (case out of Inl e \<Rightarrow> False | Inr r \<Rightarrow> \<not> HTTP_STATUS_CODE_20X (status_code r))"

definition decode_failure :: "error + response \<Rightarrow> bool" where
  "decode_failure out =
     (case out of Inl e \<Rightarrow> False
      | Inr r \<Rightarrow> HTTP_STATUS_CODE_20X (status_code r) \<and> body r = None)"

definition payload :: "error + response \<Rightarrow> json option" where
  "payload out =
     (case out of Inl e \<Rightarrow> None
      | Inr r \<Rightarrow> if HTTP_STATUS_CODE_20X (status_code r) then body r else None)"

text \<open>
  A payload the method's own test turns down: a falsy payload (\<open>fetch_resource_data\<close>),
  a JSON object whose \<open>objects\<close> fails the guard of \<open>create_sketch\<close> and
  \<open>create_searchindex\<close>, a JSON object whose \<open>objects\<close> is missing or falsy (\<open>create_user\<close>,
  \<open>create_sigmarule\<close>).
\<close>

definition objects_of :: "(string \<times> json) list \<Rightarrow> json" where
  "objects_of d = (case map_of d ''objects'' of None \<Rightarrow> JNull | Some v \<Rightarrow> v)"

definition falsy_payload :: "error + response \<Rightarrow> bool" where
  "falsy_payload out = (case payload out of None \<Rightarrow> False | Some j \<Rightarrow> \<not> truthy j)"

definition rejected_objects :: "error + response \<Rightarrow> bool" where
  "rejected_objects out =
     (case payload out of
        Some (JDict d) \<Rightarrow> first_object_id (objects_of d) = None
      | _ \<Rightarrow> False)"

definition falsy_objects :: "error + response \<Rightarrow> bool" where
  "falsy_objects out =
     (case payload out of
        Some (JDict d) \<Rightarrow> \<not> truthy (objects_of d)
      | _ \<Rightarrow> False)"

text \<open>
  The failed attempts each method tries again: all four kinds in \<open>fetch_resource_data\<close>
  and \<open>create_searchindex\<close>; in \<open>create_sketch\<close> the three kinds that arise inside its
  \<open>try\<close>; in \<open>create_user\<close> and \<open>create_sigmarule\<close> only \<open>falsy_objects\<close>.
\<close>

definition transient_fetch :: "error + response \<Rightarrow> bool" where
  "transient_fetch out =
     (connection_error out \<or> non_20x_status out \<or> decode_failure out \<or> falsy_payload out)"

definition transient_create :: "error + response \<Rightarrow> bool" where
  "transient_create out =
     (connection_error out \<or> non_20x_status out \<or> decode_failure out \<or> rejected_objects out)"

definition transient_sketch :: "error + response \<Rightarrow> bool" where
  "transient_sketch out = (non_20x_status out \<or> decode_failure out \<or> rejected_objects out)"

text \<open>What \<open>get_response_json\<close> gives on the outcome of a session call.\<close>

definition decoded :: "error + response \<Rightarrow> error + json" where
  "decoded out = (case out of Inl e \<Rightarrow> Inl e | Inr response \<Rightarrow> get_response_json response)"

subsection \<open>A paginated dataset, as the listing of sketches reads it\<close>

text \<open>
  The request \<open>list_sketches\<close> issues for a page: the three parameters of the call and
  the page, in the order the dict \<open>url_params\<close> holds them.
\<close>

definition sketches_request :: "string \<Rightarrow> int \<Rightarrow> string \<Rightarrow> bool \<Rightarrow> json \<Rightarrow> request" where
  "sketches_request api_root per_page scope include_archived page =
     GET (api_root @ ''/'' @ ''sketches/'')
       (Some [(''per_page'', JInt per_page), (''scope'', JStr scope),
              (''include_archived'', JBool include_archived), (''page'', page)])"

text \<open>
  What a page's response holds: \<open>meta.next_page\<close> (\<open>JNull\<close> when absent), the entries of
  \<open>objects\<close> (none when absent), and the Sketch object an entry with an \<open>id\<close> and a
  \<open>name\<close> stands for. A page is well formed when it is a non-empty JSON object whose
  \<open>meta\<close>, if present, is an object, and whose \<open>objects\<close>, if present, is a list of
  such entries.
\<close>

definition next_page_of :: "json \<Rightarrow> json option" where
  "next_page_of r =
     (case py_get r ''meta'' (JDict []) of
        Inl e \<Rightarrow> None
      | Inr meta \<Rightarrow> (case py_get meta ''next_page'' JNull of Inl e \<Rightarrow> None | Inr p \<Rightarrow> Some p))"

definition entries_of :: "json \<Rightarrow> json list option" where
  "entries_of r =
     (case py_get r ''objects'' (JList []) of Inr (JList xs) \<Rightarrow> Some xs | _ \<Rightarrow> None)"

definition sketch_of_entry :: "json \<Rightarrow> resource option" where
  "sketch_of_entry e =
     (case getitem e ''id'' of
        Inl err \<Rightarrow> None
      | Inr i \<Rightarrow> (case getitem e ''name'' of Inl err \<Rightarrow> None | Inr n \<Rightarrow> Some (Sketch i (Some n))))"

definition well_formed_page :: "json \<Rightarrow> bool" where
  "well_formed_page r =
     (truthy r \<and> next_page_of r \<noteq> None \<and>
      (case entries_of r of
         None \<Rightarrow> False
       | Some xs \<Rightarrow> list_all (\<lambda>e. sketch_of_entry e \<noteq> None) xs))"

definition page_sketches :: "json \<Rightarrow> resource list" where
  "page_sketches r =
     (case entries_of r of None \<Rightarrow> [] | Some xs \<Rightarrow> List.map_filter sketch_of_entry xs)"

text \<open>
  The pages of a dataset in the order the server links them: the response for each page
  names the next one as its truthy \<open>meta.next_page\<close>, and the response for the last page
  has a \<open>next_page\<close> that is absent or falsy. A dataset with finitely many pages is one
  with such a list of pages.
\<close>

fun page_chain :: "(json \<Rightarrow> json) \<Rightarrow> json list \<Rightarrow> bool" where
  "page_chain data [] = False"
| "page_chain data [p] =
     (case next_page_of (data p) of None \<Rightarrow> False | Some np \<Rightarrow> \<not> truthy np)"
| "page_chain data (p # q # ps) =
     (next_page_of (data p) = Some q \<and> truthy q \<and> page_chain data (q # ps))"

text \<open>The User object an entry with an \<open>id\<close> stands for, in the listing of users.\<close>

definition user_of_entry :: "json \<Rightarrow> resource option" where
  "user_of_entry e = (case getitem e ''id'' of Inl err \<Rightarrow> None | Inr i \<Rightarrow> Some (User i))"

text \<open>The identifier an object was constructed with.\<close>

fun resource_id :: "resource \<Rightarrow> json" where
  "resource_id (Sketch i n) = i"
| "resource_id (SearchIndex i n) = i"
| "resource_id (User i) = i"
| "resource_id (SigmaRule u) = u"
| "resource_id (Sigma t) = JStr t"

subsection \<open>Servers used as concrete inputs\<close>

definition server_down :: session where
  "server_down h req = Inl ConnectionError"

definition server_error :: session where
  "server_error h req = Inr \<lparr>status_code = 500, body = None\<rparr>"

definition server_garbled :: session where
  "server_garbled h req = Inr \<lparr>status_code = 200, body = None\<rparr>"

definition server_replies :: "json \<Rightarrow> session" where
  "server_replies j h req = Inr \<lparr>status_code = 200, body = Some j\<rparr>"

text \<open>The payloads \<open>{"objects": [{"id": 42}]}\<close> and \<open>{"objects": [{"rule_uuid": "5266a592"}]}\<close>.\<close>

definition created_42 :: json where
  "created_42 = JDict [(''objects'', JList [JDict [(''id'', JInt 42)]])]"

definition created_rule :: json where
  "created_rule = JDict [(''objects'', JList [JDict [(''rule_uuid'', JStr ''5266a592'')]])]"

text \<open>
  The payloads \<open>{"meta": {}}\<close>, which has no \<open>objects\<close>, and
  \<open>{"objects": [[{"id": 1}, {"id": 2}]]}\<close>, whose \<open>objects[0]\<close> is a list of two users.
\<close>

definition no_objects :: json where
  "no_objects = JDict [(''meta'', JDict [])]"

definition two_users :: json where
  "two_users = JDict [(''objects'', JList [JList [JDict [(''id'', JInt 1)], JDict [(''id'', JInt 2)]]])]"

text \<open>The payload \<open>{"objects": []}\<close>.\<close>

definition empty_objects :: json where
  "empty_objects = JDict [(''objects'', JList [])]"

text \<open>A server that behaves as \<open>bad\<close> for the first \<open>n\<close> calls and as \<open>good\<close> from then on.\<close>

definition server_after :: "nat \<Rightarrow> session \<Rightarrow> session \<Rightarrow> session" where
  "server_after n bad good h req = (if calls h < n then bad h req else good h req)"

text \<open>
  Modelled from the spec: the method \<open>SigmaRule.from_rule_uuid\<close> of module \<open>sigma\<close>, which
  is not part of client.py. \<open>get_sigmarule\<close> is documented as "Fetches a single Sigma
  rule from the database", and the spec has a create operation "fetch and return the full
  resource by that id (a second network round trip)": the load is one GET for the rule,
  and it does not raise.
\<close>

definition from_rule_uuid_fetch :: "string \<Rightarrow> json loader" where
  "from_rule_uuid_fetch api_root rule_uuid h =
     (None, [Call (GET (api_root @ ''/sigmarules/'' @ (case rule_uuid of JStr u \<Rightarrow> u | _ \<Rightarrow> []))
                    None)])"

text \<open>A method of module \<open>sigma\<close> that adds no event and does not raise.\<close>

definition loads :: "'a loader" where
  "loads x h = (None, [])"

text \<open>
  A server that answers every GET with the page of a dataset that the \<open>page\<close> parameter
  names, whatever happened before; and a dataset of two pages.
\<close>

definition paged_server :: "(json \<Rightarrow> json) \<Rightarrow> session" where
  "paged_server data h req =
     (case req of
        GET url (Some params) \<Rightarrow>
          Inr \<lparr>status_code = 200,
               body = Some (data (case map_of params ''page'' of None \<Rightarrow> JNull | Some p \<Rightarrow> p))\<rparr>
      | _ \<Rightarrow> Inr \<lparr>status_code = 404, body = None\<rparr>)"

definition two_pages :: "json \<Rightarrow> json" where
  "two_pages page =
     (if page = JInt 1 then
        JDict [(''meta'', JDict [(''next_page'', JInt 2)]),
               (''objects'', JList [JDict [(''id'', JInt 7), (''name'', JStr ''a'')],
                                    JDict [(''id'', JInt 8), (''name'', JStr ''b'')]])]
      else
        JDict [(''meta'', JDict [(''next_page'', JNull)]),
               (''objects'', JList [JDict [(''id'', JInt 9), (''name'', JStr ''c'')]])])"

section \<open>Properties\<close>

subsection \<open>The schedule, and one pass through each loop\<close>

lemma schedule_Suc: "schedule req (Suc k) = schedule req k @ attempt_events req (Suc k)"
  by (simp add: schedule_def)

lemma schedule_0: "schedule req 0 = []"
  by (simp add: schedule_def)

lemma before_call_Suc: "before_call req (Suc k) = schedule req k @ sleeps_before (Suc k)"
  by (simp add: before_call_def)

lemma sleeps_before_fetch:
  "(if Suc a > 1 then h @ [Sleep (0.5 * 2 ^ (Suc a - 2))] else h) = h @ sleeps_before (Suc a)"
  by (cases a) (simp_all add: sleeps_before_def unified_delay_def)

lemma decoded_transient_fetch:
  assumes "transient_fetch out"
  shows "decoded out = Inl ConnectionError \<or> decoded out = Inl RuntimeError
       \<or> decoded out = Inl ValueError \<or> (\<exists>j. decoded out = Inr j \<and> \<not> truthy j)"
proof (cases out)
  case (Inl e)
  with assms show ?thesis
    by (simp add: transient_fetch_def connection_error_def non_20x_status_def decode_failure_def
        falsy_payload_def payload_def decoded_def)
next
  case (Inr r)
  with assms show ?thesis
    by (cases "body r")
       (simp_all add: transient_fetch_def connection_error_def non_20x_status_def decode_failure_def
        falsy_payload_def payload_def decoded_def get_response_json_def)
qed

lemma fetch_loop_unfold:
  "fetch_loop sess url params a h =
     (case decoded (sess (h @ sleeps_before (Suc a)) (GET url params)) of
        Inr result \<Rightarrow>
          if truthy result then (Inr result, h @ attempt_events (GET url params) (Suc a))
          else if Suc a \<ge> DEFAULT_RETRY_COUNT
            then (Inl RuntimeError, h @ attempt_events (GET url params) (Suc a))
          else fetch_loop sess url params (Suc a) (h @ attempt_events (GET url params) (Suc a))
      | Inl e \<Rightarrow>
          if e = RuntimeError \<or> e = ValueError \<or> e = ConnectionError then
            (if Suc a \<ge> DEFAULT_RETRY_COUNT
               then (Inl e, h @ attempt_events (GET url params) (Suc a))
             else fetch_loop sess url params (Suc a) (h @ attempt_events (GET url params) (Suc a)))
          else (Inl e, h @ attempt_events (GET url params) (Suc a)))"
  apply (subst fetch_loop.simps)
  apply (simp only: Let_def Suc_eq_plus1[symmetric] sleeps_before_fetch decoded_def attempt_events_def append_assoc)
  apply (simp split: sum.splits)
  done


lemma fetch_loop_retry:
  assumes "transient_fetch (sess (h @ sleeps_before (Suc a)) (GET url params))"
    and "Suc a < DEFAULT_RETRY_COUNT"
  shows "fetch_loop sess url params a h =
         fetch_loop sess url params (Suc a) (h @ attempt_events (GET url params) (Suc a))"
  using decoded_transient_fetch [OF assms(1)] assms(2)
  by (subst fetch_loop_unfold) auto

lemma fetch_loop_exhausted:
  assumes "transient_fetch (sess (h @ sleeps_before (Suc a)) (GET url params))"
    and "Suc a = DEFAULT_RETRY_COUNT"
  shows "\<exists>e. fetch_loop sess url params a h =
         (Inl e, h @ attempt_events (GET url params) (Suc a))"
  using decoded_transient_fetch [OF assms(1)] assms(2)
  by (subst fetch_loop_unfold) auto

lemma decoded_payload: "payload out = Some j \<Longrightarrow> decoded out = Inr j"
  by (cases out) (auto simp: payload_def decoded_def get_response_json_def split: if_splits)

lemma fetch_loop_accept:
  assumes "payload (sess (h @ sleeps_before (Suc a)) (GET url params)) = Some j" and "truthy j"
  shows "fetch_loop sess url params a h =
         (Inr j, h @ attempt_events (GET url params) (Suc a))"
  using decoded_payload [OF assms(1)] assms(2)
  by (subst fetch_loop_unfold) simp

lemma retry_run:
  fixes loop :: "nat \<Rightarrow> history \<Rightarrow> 'r"
  assumes step: "\<And>a h'. a < n \<Longrightarrow> fails (sess (h' @ sleeps_before (Suc a)) req)
                   \<Longrightarrow> loop a h' = loop (Suc a) (h' @ attempt_events req (Suc a))"
    and fails: "\<forall>m. 1 \<le> m \<and> m \<le> k \<longrightarrow> fails (sess (h @ before_call req m) req)"
    and k: "k \<le> n"
  shows "loop 0 h = loop k (h @ schedule req k)"
  using fails k
proof (induction k)
  case 0
  show ?case by (simp add: schedule_0)
next
  case (Suc k)
  have "loop 0 h = loop k (h @ schedule req k)"
    using Suc by simp
  also have "\<dots> = loop (Suc k) ((h @ schedule req k) @ attempt_events req (Suc k))"
  proof (rule step)
    show "k < n" using Suc.prems by simp
    have "fails (sess (h @ before_call req (Suc k)) req)"
      using Suc.prems by simp
    then show "fails (sess ((h @ schedule req k) @ sleeps_before (Suc k)) req)"
      by (simp add: before_call_Suc)
  qed
  finally show ?case by (simp add: schedule_Suc)
qed

lemma fetch_run:
  assumes "\<forall>m. 1 \<le> m \<and> m \<le> k \<longrightarrow> transient_fetch (sess (h @ before_call (GET url params) m) (GET url params))"
    and "k < DEFAULT_RETRY_COUNT"
  shows "fetch_loop sess url params 0 h = fetch_loop sess url params k (h @ schedule (GET url params) k)"
proof (rule retry_run [where n = "DEFAULT_RETRY_COUNT - 1" and fails = transient_fetch and sess = sess])
  show "\<forall>m. 1 \<le> m \<and> m \<le> k \<longrightarrow> transient_fetch (sess (h @ before_call (GET url params) m) (GET url params))"
    by (rule assms(1))
  show "k \<le> DEFAULT_RETRY_COUNT - 1" using assms(2) by simp
next
  fix a h'
  assume "a < DEFAULT_RETRY_COUNT - 1" "transient_fetch (sess (h' @ sleeps_before (Suc a)) (GET url params))"
  then show "fetch_loop sess url params a h' =
         fetch_loop sess url params (Suc a) (h' @ attempt_events (GET url params) (Suc a))"
    by (intro fetch_loop_retry) auto
qed


lemma payload_Some:
  "payload out = Some j \<longleftrightarrow> (\<exists>r. out = Inr r \<and> HTTP_STATUS_CODE_20X (status_code r) \<and> body r = Some j)"
  by (cases out) (auto simp: payload_def)

lemma py_get_objects: "py_get (JDict d) ''objects'' JNull = Inr (objects_of d)"
  by (simp add: objects_of_def)

lemma rejected_objects_try:
  assumes "rejected_objects (Inr r)"
  shows "create_sketch_try r = Failed RuntimeError"
proof -
  from assms obtain d where "payload (Inr r) = Some (JDict d)" and "first_object_id (objects_of d) = None"
    by (auto simp: rejected_objects_def split: option.splits json.splits)
  then show ?thesis
    by (simp add: payload_Some create_sketch_try_def get_response_json_def py_get_objects
        del: py_get.simps)
qed

lemma transient_sketch_try:
  assumes "transient_sketch out"
  shows "\<exists>r e. out = Inr r \<and> create_sketch_try r = Failed e"
proof (cases out)
  case (Inl e)
  with assms show ?thesis
    by (simp add: transient_sketch_def non_20x_status_def decode_failure_def rejected_objects_def payload_def)
next
  case (Inr r)
  consider "non_20x_status (Inr r)" | "decode_failure (Inr r)" | "rejected_objects (Inr r)"
    using assms Inr by (auto simp: transient_sketch_def)
  then show ?thesis
  proof cases
    case 1
    then show ?thesis using Inr
      by (simp add: non_20x_status_def create_sketch_try_def get_response_json_def create_except_def)
  next
    case 2
    then show ?thesis using Inr
      by (simp add: decode_failure_def create_sketch_try_def get_response_json_def create_except_def)
  next
    case 3
    then show ?thesis using Inr rejected_objects_try by simp
  qed
qed

lemma accepted_sketch_try:
  assumes "payload out = Some (JDict d)" and "first_object_id (objects_of d) = Some i"
  shows "\<exists>r. out = Inr r \<and> create_sketch_try r = Returned (get_sketch i)"
proof -
  from assms(1) obtain r where r: "out = Inr r" "HTTP_STATUS_CODE_20X (status_code r)"
      "body r = Some (JDict d)"
    by (auto simp: payload_Some)
  then have "create_sketch_try r = Returned (get_sketch i)"
    using assms(2)
    by (simp add: create_sketch_try_def get_response_json_def py_get_objects del: py_get.simps)
  with r show ?thesis by simp
qed

lemma create_sketch_loop_last_exception:
  "create_sketch_loop sess url fd a le h = create_sketch_loop sess url fd a None h"
  by (simp add: create_sketch_loop.simps [of _ _ _ _ le] create_sketch_loop.simps [of _ _ _ _ None])

lemma sleeps_before_create: "[Sleep (0.5 * 2 ^ a)] = sleeps_before (Suc (Suc a))"
  by (simp add: sleeps_before_def unified_delay_def)

lemma create_sketch_loop_retry:
  assumes "transient_sketch (sess h (POST url fd))" and "Suc a < DEFAULT_RETRY_COUNT"
  shows "create_sketch_loop sess url fd a le h =
         create_sketch_loop sess url fd (Suc a) None
           (h @ [Call (POST url fd)] @ sleeps_before (Suc (Suc a)))"
proof -
  from transient_sketch_try [OF assms(1)] obtain r e
    where r: "sess h (POST url fd) = Inr r" "create_sketch_try r = Failed e" by blast
  have "a < DEFAULT_RETRY_COUNT" "a < DEFAULT_RETRY_COUNT - 1" using assms(2) by simp_all
  then have "create_sketch_loop sess url fd a le h =
      create_sketch_loop sess url fd (a + 1) (Some e) ((h @ [Call (POST url fd)]) @ [Sleep (0.5 * 2 ^ a)])"
    using r by (subst create_sketch_loop.simps) (simp add: Let_def)
  then show ?thesis
    by (simp add: sleeps_before_def unified_delay_def
        create_sketch_loop_last_exception [of _ _ _ _ "Some e"])
qed

lemma create_sketch_loop_exhausted:
  assumes "transient_sketch (sess h (POST url fd))" and "Suc a = DEFAULT_RETRY_COUNT"
  shows "create_sketch_loop sess url fd a le h = (Inl RuntimeError, h @ [Call (POST url fd)])"
proof -
  from transient_sketch_try [OF assms(1)] obtain r e
    where r: "sess h (POST url fd) = Inr r" "create_sketch_try r = Failed e" by blast
  have "a < DEFAULT_RETRY_COUNT" "\<not> a < DEFAULT_RETRY_COUNT - 1" using assms(2) by simp_all
  then show ?thesis
    using r by (subst create_sketch_loop.simps) (simp add: Let_def)
qed

lemma create_sketch_loop_accept:
  assumes "payload (sess h (POST url fd)) = Some (JDict d)"
    and "first_object_id (objects_of d) = Some i" and "a < DEFAULT_RETRY_COUNT"
  shows "create_sketch_loop sess url fd a le h = (Inr (get_sketch i), h @ [Call (POST url fd)])"
proof -
  from accepted_sketch_try [OF assms(1,2)] obtain r
    where r: "sess h (POST url fd) = Inr r" "create_sketch_try r = Returned (get_sketch i)" by blast
  then show ?thesis
    using assms(3) by (subst create_sketch_loop.simps) (simp add: Let_def)
qed

lemma create_sketch_run:
  assumes "\<forall>m. 1 \<le> m \<and> m \<le> k \<longrightarrow> transient_sketch (sess (h @ before_call (POST url fd) m) (POST url fd))"
    and "k < DEFAULT_RETRY_COUNT"
  shows "create_sketch_loop sess url fd 0 None h =
         create_sketch_loop sess url fd k None (h @ before_call (POST url fd) (Suc k))"
proof -
  let ?loop = "\<lambda>a h'. create_sketch_loop sess url fd a None (h' @ sleeps_before (Suc a))"
  have "?loop 0 h = ?loop k (h @ schedule (POST url fd) k)"
  proof (rule retry_run [where n = "DEFAULT_RETRY_COUNT - 1" and fails = transient_sketch and sess = sess])
    show "\<forall>m. 1 \<le> m \<and> m \<le> k \<longrightarrow> transient_sketch (sess (h @ before_call (POST url fd) m) (POST url fd))"
      by (rule assms(1))
    show "k \<le> DEFAULT_RETRY_COUNT - 1" using assms(2) by simp
  next
    fix a h'
    assume a: "a < DEFAULT_RETRY_COUNT - 1"
      and f: "transient_sketch (sess (h' @ sleeps_before (Suc a)) (POST url fd))"
    from a have "Suc a < DEFAULT_RETRY_COUNT" by simp
    from create_sketch_loop_retry [of sess "h' @ sleeps_before (Suc a)" url fd a None, OF f this]
    show "?loop a h' = ?loop (Suc a) (h' @ attempt_events (POST url fd) (Suc a))"
      by (simp add: attempt_events_def)
  qed
  then show ?thesis
    by (simp add: sleeps_before_def before_call_Suc)
qed


lemma transient_create_try:
  assumes "transient_create out"
  shows "\<exists>e. create_searchindex_try out = Failed e"
proof (cases out)
  case (Inl e)
  with assms have "e = ConnectionError"
    by (simp add: transient_create_def connection_error_def non_20x_status_def decode_failure_def
        rejected_objects_def payload_def)
  with Inl show ?thesis
    by (simp add: create_searchindex_try_def create_except_def is_RequestException_def)
next
  case (Inr r)
  consider "non_20x_status (Inr r)" | "decode_failure (Inr r)" | "rejected_objects (Inr r)"
    using assms Inr by (auto simp: transient_create_def connection_error_def)
  then show ?thesis
  proof cases
    case 1
    then show ?thesis using Inr
      by (simp add: non_20x_status_def create_searchindex_try_def get_response_json_def
          create_except_def)
  next
    case 2
    then show ?thesis using Inr
      by (simp add: decode_failure_def create_searchindex_try_def get_response_json_def
          create_except_def)
  next
    case 3
    then obtain d where "payload (Inr r) = Some (JDict d)"
        and "first_object_id (objects_of d) = None"
      by (auto simp: rejected_objects_def split: option.splits json.splits)
    then show ?thesis using Inr
      by (simp add: payload_Some create_searchindex_try_def get_response_json_def py_get_objects
          del: py_get.simps)
  qed
qed

lemma accepted_searchindex_try:
  assumes "payload out = Some (JDict d)" and "first_object_id (objects_of d) = Some i"
  shows "create_searchindex_try out = Returned (SearchIndex i None)"
proof -
  from assms(1) obtain r where r: "out = Inr r" "HTTP_STATUS_CODE_20X (status_code r)"
      "body r = Some (JDict d)"
    by (auto simp: payload_Some)
  then show ?thesis
    using assms(2)
    by (simp add: create_searchindex_try_def get_response_json_def py_get_objects
        del: py_get.simps)
qed

lemma create_searchindex_loop_last_exception:
  "create_searchindex_loop sess url fd a le h = create_searchindex_loop sess url fd a None h"
  by (simp add: create_searchindex_loop.simps [of _ _ _ _ le]
      create_searchindex_loop.simps [of _ _ _ _ None])

lemma create_searchindex_loop_retry:
  assumes "transient_create (sess h (POST url fd))" and "Suc a < DEFAULT_RETRY_COUNT"
  shows "create_searchindex_loop sess url fd a le h =
         create_searchindex_loop sess url fd (Suc a) None
           (h @ [Call (POST url fd)] @ sleeps_before (Suc (Suc a)))"
proof -
  from transient_create_try [OF assms(1)] obtain e
    where r: "create_searchindex_try (sess h (POST url fd)) = Failed e" by blast
  have "a < DEFAULT_RETRY_COUNT" "a < DEFAULT_RETRY_COUNT - 1" using assms(2) by simp_all
  then have "create_searchindex_loop sess url fd a le h =
      create_searchindex_loop sess url fd (a + 1) (Some e)
        ((h @ [Call (POST url fd)]) @ [Sleep (0.5 * 2 ^ a)])"
    using r by (subst create_searchindex_loop.simps) (simp add: Let_def)
  then show ?thesis
    by (simp add: sleeps_before_def unified_delay_def
        create_searchindex_loop_last_exception [of _ _ _ _ "Some e"])
qed

lemma create_searchindex_loop_exhausted:
  assumes "transient_create (sess h (POST url fd))" and "Suc a = DEFAULT_RETRY_COUNT"
  shows "create_searchindex_loop sess url fd a le h = (Inl ValueError, h @ [Call (POST url fd)])"
proof -
  from transient_create_try [OF assms(1)] obtain e
    where r: "create_searchindex_try (sess h (POST url fd)) = Failed e" by blast
  have "a < DEFAULT_RETRY_COUNT" "\<not> a < DEFAULT_RETRY_COUNT - 1" using assms(2) by simp_all
  then show ?thesis
    using r by (subst create_searchindex_loop.simps) (simp add: Let_def)
qed

lemma create_searchindex_loop_accept:
  assumes "payload (sess h (POST url fd)) = Some (JDict d)"
    and "first_object_id (objects_of d) = Some i" and "a < DEFAULT_RETRY_COUNT"
  shows "create_searchindex_loop sess url fd a le h =
         (Inr (SearchIndex i None), h @ [Call (POST url fd)])"
  using accepted_searchindex_try [OF assms(1,2)] assms(3)
  by (subst create_searchindex_loop.simps) (simp add: Let_def)

lemma create_searchindex_run:
  assumes "\<forall>m. 1 \<le> m \<and> m \<le> k \<longrightarrow> transient_create (sess (h @ before_call (POST url fd) m) (POST url fd))"
    and "k < DEFAULT_RETRY_COUNT"
  shows "create_searchindex_loop sess url fd 0 None h =
         create_searchindex_loop sess url fd k None (h @ before_call (POST url fd) (Suc k))"
proof -
  let ?loop = "\<lambda>a h'. create_searchindex_loop sess url fd a None (h' @ sleeps_before (Suc a))"
  have "?loop 0 h = ?loop k (h @ schedule (POST url fd) k)"
  proof (rule retry_run [where n = "DEFAULT_RETRY_COUNT - 1" and fails = transient_create and sess = sess])
    show "\<forall>m. 1 \<le> m \<and> m \<le> k \<longrightarrow> transient_create (sess (h @ before_call (POST url fd) m) (POST url fd))"
      by (rule assms(1))
    show "k \<le> DEFAULT_RETRY_COUNT - 1" using assms(2) by simp
  next
    fix a h'
    assume a: "a < DEFAULT_RETRY_COUNT - 1"
      and f: "transient_create (sess (h' @ sleeps_before (Suc a)) (POST url fd))"
    from a have "Suc a < DEFAULT_RETRY_COUNT" by simp
    from create_searchindex_loop_retry [of sess "h' @ sleeps_before (Suc a)" url fd a None, OF f this]
    show "?loop a h' = ?loop (Suc a) (h' @ attempt_events (POST url fd) (Suc a))"
      by (simp add: attempt_events_def)
  qed
  then show ?thesis
    by (simp add: sleeps_before_def before_call_Suc)
qed

lemma falsy_objects_get:
  assumes "falsy_objects out"
  shows "\<exists>r d. out = Inr r \<and> get_response_json r = Inr (JDict d) \<and> \<not> truthy (objects_of d)"
proof -
  from assms obtain d where "payload out = Some (JDict d)" and "\<not> truthy (objects_of d)"
    by (auto simp: falsy_objects_def split: option.splits json.splits)
  then show ?thesis
    by (auto simp: payload_Some get_response_json_def)
qed

lemma post_until_objects_retry:
  assumes "falsy_objects (sess h (POST url fd))" and "Suc a < DEFAULT_RETRY_COUNT"
  shows "post_until_objects sess url fd a h =
         post_until_objects sess url fd (Suc a) (h @ [Call (POST url fd)])"
proof -
  from falsy_objects_get [OF assms(1)] obtain r d
    where "sess h (POST url fd) = Inr r" "get_response_json r = Inr (JDict d)"
      "\<not> truthy (objects_of d)" by blast
  then show ?thesis
    using assms(2)
    by (subst post_until_objects.simps) (simp add: Let_def py_get_objects del: py_get.simps)
qed

lemma post_until_objects_exhausted:
  assumes "falsy_objects (sess h (POST url fd))" and "Suc a = DEFAULT_RETRY_COUNT"
  shows "post_until_objects sess url fd a h = (Inl RuntimeError, h @ [Call (POST url fd)])"
proof -
  from falsy_objects_get [OF assms(1)] obtain r d
    where "sess h (POST url fd) = Inr r" "get_response_json r = Inr (JDict d)"
      "\<not> truthy (objects_of d)" by blast
  then show ?thesis
    using assms(2)
    by (subst post_until_objects.simps) (simp add: Let_def py_get_objects del: py_get.simps)
qed

lemma post_until_objects_accept:
  assumes "payload (sess h (POST url fd)) = Some (JDict d)" and "truthy (objects_of d)"
  shows "post_until_objects sess url fd a h = (Inr (objects_of d), h @ [Call (POST url fd)])"
proof -
  from assms(1) obtain r where "sess h (POST url fd) = Inr r" "get_response_json r = Inr (JDict d)"
    by (auto simp: payload_Some get_response_json_def)
  then show ?thesis
    using assms(2)
    by (subst post_until_objects.simps) (simp add: Let_def py_get_objects del: py_get.simps)
qed

lemma post_until_objects_run:
  assumes "\<forall>m<k. falsy_objects (sess (h @ replicate m (Call (POST url fd))) (POST url fd))"
    and "k < DEFAULT_RETRY_COUNT"
  shows "post_until_objects sess url fd 0 h =
         post_until_objects sess url fd k (h @ replicate k (Call (POST url fd)))"
  using assms
proof (induction k)
  case 0
  show ?case by simp
next
  case (Suc k)
  have "post_until_objects sess url fd 0 h =
        post_until_objects sess url fd k (h @ replicate k (Call (POST url fd)))"
    using Suc by simp
  also have "\<dots> = post_until_objects sess url fd (Suc k)
                    ((h @ replicate k (Call (POST url fd))) @ [Call (POST url fd)])"
    using Suc.prems by (intro post_until_objects_retry) simp_all
  finally show ?case by (simp add: replicate_append_same)
qed

lemma loop_history:
  fixes loop :: "nat \<Rightarrow> history \<Rightarrow> 'r \<times> history"
  assumes step: "\<And>a h. a < n \<Longrightarrow>
      (\<exists>res. loop a h = (res, h @ ev (Suc a)))
      \<or> (Suc a < n \<and> loop a h = loop (Suc a) (h @ ev (Suc a)))"
  shows "a < n \<Longrightarrow>
         \<exists>k. a < k \<and> k \<le> n \<and> snd (loop a h) = h @ concat (map ev [Suc a..<Suc k])"
proof (induction "n - a" arbitrary: a h)
  case 0
  then show ?case by simp
next
  case (Suc d)
  from step [OF Suc.prems, of h] show ?case
  proof
    assume "\<exists>res. loop a h = (res, h @ ev (Suc a))"
    then have "snd (loop a h) = h @ concat (map ev [Suc a..<Suc (Suc a)])" by auto
    with Suc.prems show ?thesis by (intro exI [of _ "Suc a"]) simp
  next
    assume rec: "Suc a < n \<and> loop a h = loop (Suc a) (h @ ev (Suc a))"
    then have "d = n - Suc a" using Suc.hyps(2) by simp
    from Suc.hyps(1) [OF this, of "h @ ev (Suc a)"] rec obtain k
      where k: "Suc a < k" "k \<le> n"
        "snd (loop (Suc a) (h @ ev (Suc a))) = (h @ ev (Suc a)) @ concat (map ev [Suc (Suc a)..<Suc k])"
      by blast
    have "[Suc a..<Suc k] = Suc a # [Suc (Suc a)..<Suc k]"
      using k(1) by (simp add: upt_conv_Cons)
    with k rec have "snd (loop a h) = h @ concat (map ev [Suc a..<Suc k])" by simp
    with k show ?thesis by (intro exI [of _ k]) simp
  qed
qed

lemma schedule_from_0: "concat (map (attempt_events req) [Suc 0..<Suc k]) = schedule req k"
  by (simp add: schedule_def)

lemma schedule_split:
  assumes "k < k'"
  shows "schedule req k @ concat (map (attempt_events req) [Suc k..<Suc k']) = schedule req k'"
proof -
  have "[1..<Suc k'] = [1..<Suc k] @ [Suc k..<Suc k']"
    using assms by (metis Suc_le_mono le_add1 less_imp_le_nat plus_1_eq_Suc upt_add_eq_append
        le_Suc_ex)
  then show ?thesis by (simp add: schedule_def)
qed

lemma calls_append: "calls (xs @ ys) = calls xs + calls ys"
  by (induction xs rule: calls.induct) simp_all

lemma sleeps_append: "sleeps (xs @ ys) = sleeps xs @ sleeps ys"
  by (induction xs rule: sleeps.induct) simp_all

lemma calls_replicate: "calls (replicate n (Call req)) = n"
  by (induction n) simp_all

lemma sleeps_replicate: "sleeps (replicate n (Call req)) = []"
  by (induction n) simp_all

lemma calls_schedule: "calls (schedule req k) = k"
  by (induction k)
     (simp_all add: schedule_0 schedule_Suc calls_append attempt_events_def sleeps_before_def)

lemma sleeps_schedule: "sleeps (schedule req k) = map (\<lambda>m. unified_delay (m - 1)) [2..<Suc k]"
proof (induction k)
  case 0
  show ?case by (simp add: schedule_0)
next
  case (Suc k)
  show ?case
  proof (cases k)
    case 0
    then show ?thesis
      by (simp add: schedule_Suc schedule_0 attempt_events_def sleeps_before_def)
  next
    case (Suc j)
    then have "[2..<Suc (Suc k)] = [2..<Suc k] @ [Suc k]" by simp
    then show ?thesis
      using Suc.IH Suc
      by (simp add: schedule_Suc sleeps_append attempt_events_def sleeps_before_def)
  qed
qed

lemma fetch_loop_cases:
  "(\<exists>res. fetch_loop sess url params a h = (res, h @ attempt_events (GET url params) (Suc a)))
   \<or> (Suc a < DEFAULT_RETRY_COUNT
      \<and> fetch_loop sess url params a h =
        fetch_loop sess url params (Suc a) (h @ attempt_events (GET url params) (Suc a)))"
  using fetch_loop_unfold [of sess url params a h]
  by (cases "decoded (sess (h @ sleeps_before (Suc a)) (GET url params))")
     (simp_all add: not_le split: if_splits)

lemma fetch_loop_history:
  assumes "a < DEFAULT_RETRY_COUNT"
  shows "\<exists>k. a < k \<and> k \<le> DEFAULT_RETRY_COUNT \<and>
           snd (fetch_loop sess url params a h) =
           h @ concat (map (attempt_events (GET url params)) [Suc a..<Suc k])"
  using assms
  by (rule loop_history [where loop = "fetch_loop sess url params", rotated]) (rule fetch_loop_cases)

lemma fetch_history:
  "\<exists>k. 1 \<le> k \<and> k \<le> DEFAULT_RETRY_COUNT \<and>
       snd (fetch_resource_data sess api_root uri params h) =
       h @ schedule (GET (api_root @ ''/'' @ uri) params) k"
proof -
  have "0 < DEFAULT_RETRY_COUNT" by (simp add: DEFAULT_RETRY_COUNT_def)
  from fetch_loop_history [OF this, of sess "api_root @ ''/'' @ uri" params h]
  obtain k where "0 < k" "k \<le> DEFAULT_RETRY_COUNT"
    "snd (fetch_loop sess (api_root @ ''/'' @ uri) params 0 h) =
     h @ concat (map (attempt_events (GET (api_root @ ''/'' @ uri) params)) [Suc 0..<Suc k])"
    by blast
  then show ?thesis
    by (intro exI [of _ k]) (simp add: fetch_resource_data_def schedule_from_0 del: upt_Suc)
qed

lemma fetch_continues:
  assumes "\<forall>m. 1 \<le> m \<and> m \<le> k \<longrightarrow>
             transient_fetch (sess (h @ before_call (GET (api_root @ ''/'' @ uri) params) m)
                                (GET (api_root @ ''/'' @ uri) params))"
    and "k < DEFAULT_RETRY_COUNT"
  shows "\<exists>t. snd (fetch_resource_data sess api_root uri params h) =
             h @ schedule (GET (api_root @ ''/'' @ uri) params) (Suc k) @ t"
proof -
  let ?req = "GET (api_root @ ''/'' @ uri) params"
  from fetch_loop_history [OF assms(2), of sess "api_root @ ''/'' @ uri" params
      "h @ schedule ?req k"]
  obtain k' where k': "k < k'"
    "snd (fetch_loop sess (api_root @ ''/'' @ uri) params k (h @ schedule ?req k)) =
     (h @ schedule ?req k) @ concat (map (attempt_events ?req) [Suc k..<Suc k'])"
    by blast
  have "[Suc k..<Suc k'] = Suc k # [Suc (Suc k)..<Suc k']"
    using k'(1) by (simp add: upt_conv_Cons)
  then have "snd (fetch_loop sess (api_root @ ''/'' @ uri) params k (h @ schedule ?req k)) =
     h @ schedule ?req (Suc k) @ concat (map (attempt_events ?req) [Suc (Suc k)..<Suc k'])"
    using k'(2) by (simp add: schedule_Suc)
  then show ?thesis
    using fetch_run [where sess = sess and h = h and k = k, OF assms]
    by (auto simp: fetch_resource_data_def)
qed

lemma fetch_exhausts:
  assumes "\<forall>m. 1 \<le> m \<and> m \<le> DEFAULT_RETRY_COUNT \<longrightarrow>
             transient_fetch (sess (h @ before_call (GET (api_root @ ''/'' @ uri) params) m)
                                (GET (api_root @ ''/'' @ uri) params))"
  shows "\<exists>e. fetch_resource_data sess api_root uri params h =
             (Inl e, h @ schedule (GET (api_root @ ''/'' @ uri) params) DEFAULT_RETRY_COUNT)"
proof -
  let ?req = "GET (api_root @ ''/'' @ uri) params"
  obtain k where k: "DEFAULT_RETRY_COUNT = Suc k" by (simp add: DEFAULT_RETRY_COUNT_def)
  have run: "fetch_loop sess (api_root @ ''/'' @ uri) params 0 h =
        fetch_loop sess (api_root @ ''/'' @ uri) params k (h @ schedule ?req k)"
    using assms k by (intro fetch_run) simp_all
  have "transient_fetch (sess (h @ before_call ?req (Suc k)) ?req)"
    using assms k by simp
  then have "transient_fetch (sess ((h @ schedule ?req k) @ sleeps_before (Suc k)) ?req)"
    by (simp add: before_call_Suc)
  from fetch_loop_exhausted [where sess = sess and h = "h @ schedule ?req k", OF this k [symmetric]]
    run show ?thesis
    by (auto simp: fetch_resource_data_def k schedule_Suc)
qed

lemma fetch_accepts:
  assumes "\<forall>m. 1 \<le> m \<and> m \<le> k \<longrightarrow>
             transient_fetch (sess (h @ before_call (GET (api_root @ ''/'' @ uri) params) m)
                                (GET (api_root @ ''/'' @ uri) params))"
    and "k < DEFAULT_RETRY_COUNT"
    and "payload (sess (h @ before_call (GET (api_root @ ''/'' @ uri) params) (Suc k))
                    (GET (api_root @ ''/'' @ uri) params)) = Some j"
    and "truthy j"
  shows "fetch_resource_data sess api_root uri params h =
           (Inr j, h @ schedule (GET (api_root @ ''/'' @ uri) params) (Suc k))"
proof -
  let ?req = "GET (api_root @ ''/'' @ uri) params"
  have "payload (sess ((h @ schedule ?req k) @ sleeps_before (Suc k)) ?req) = Some j"
    using assms(3) by (simp add: before_call_Suc)
  from fetch_loop_accept [where sess = sess and h = "h @ schedule ?req k", OF this assms(4)]
    fetch_run [where sess = sess and h = h and k = k, OF assms(1,2)] show ?thesis
    by (simp add: fetch_resource_data_def schedule_Suc)
qed

lemma create_sketch_loop_cases:
  assumes "a < DEFAULT_RETRY_COUNT"
  shows "(\<exists>res. create_sketch_loop sess url fd a le h = (res, h @ [Call (POST url fd)]))
   \<or> (Suc a < DEFAULT_RETRY_COUNT
      \<and> create_sketch_loop sess url fd a le h =
        create_sketch_loop sess url fd (Suc a) None
          (h @ [Call (POST url fd)] @ sleeps_before (Suc (Suc a))))"
proof (cases "sess h (POST url fd)")
  case (Inl e)
  then show ?thesis
    using assms by (subst create_sketch_loop.simps) (simp add: Let_def)
next
  case (Inr r)
  show ?thesis
  proof (cases "create_sketch_try r")
    case (Returned x)
    then show ?thesis
      using assms Inr by (subst create_sketch_loop.simps) (simp add: Let_def)
  next
    case (Uncaught e)
    then show ?thesis
      using assms Inr by (subst create_sketch_loop.simps) (simp add: Let_def)
  next
    case (Failed e)
    show ?thesis
    proof (cases "Suc a < DEFAULT_RETRY_COUNT")
      case True
      then have "create_sketch_loop sess url fd a le h =
          create_sketch_loop sess url fd (Suc a) (Some e)
            (h @ [Call (POST url fd)] @ sleeps_before (Suc (Suc a)))"
        using assms Inr Failed
        by (subst create_sketch_loop.simps)
           (simp add: Let_def sleeps_before_def unified_delay_def less_diff_conv)
      with True show ?thesis
        by (simp add: create_sketch_loop_last_exception [of _ _ _ _ "Some e"])
    next
      case False
      then show ?thesis
        using assms Inr Failed
        by (subst create_sketch_loop.simps) (simp add: Let_def less_diff_conv)
    qed
  qed
qed

lemma create_sketch_history:
  assumes "name \<noteq> []"
  shows "\<exists>k. 1 \<le> k \<and> k \<le> DEFAULT_RETRY_COUNT \<and>
       snd (create_sketch sess api_root name description h) =
       h @ schedule (POST (api_root @ ''/sketches/'') (sketch_form_data name description)) k"
proof -
  let ?url = "api_root @ ''/sketches/''" and ?fd = "sketch_form_data name description"
  let ?loop = "\<lambda>a h'. create_sketch_loop sess ?url ?fd a None (h' @ sleeps_before (Suc a))"
  have "0 < DEFAULT_RETRY_COUNT" by (simp add: DEFAULT_RETRY_COUNT_def)
  then have "\<exists>k. 0 < k \<and> k \<le> DEFAULT_RETRY_COUNT \<and>
      snd (?loop 0 h) = h @ concat (map (attempt_events (POST ?url ?fd)) [Suc 0..<Suc k])"
  proof (rule loop_history [where loop = ?loop, rotated])
    fix a h'
    assume "a < DEFAULT_RETRY_COUNT"
    from create_sketch_loop_cases [OF this, of sess ?url ?fd None "h' @ sleeps_before (Suc a)"]
    show "(\<exists>res. ?loop a h' = (res, h' @ attempt_events (POST ?url ?fd) (Suc a)))
      \<or> (Suc a < DEFAULT_RETRY_COUNT
         \<and> ?loop a h' = ?loop (Suc a) (h' @ attempt_events (POST ?url ?fd) (Suc a)))"
      by (simp add: attempt_events_def)
  qed
  then obtain k where "0 < k" "k \<le> DEFAULT_RETRY_COUNT"
    "snd (?loop 0 h) = h @ concat (map (attempt_events (POST ?url ?fd)) [Suc 0..<Suc k])"
    by blast
  then show ?thesis
    using assms
    by (intro exI [of _ k])
       (simp add: create_sketch_def schedule_from_0 sleeps_before_def del: upt_Suc)
qed

lemma before_call_then_call: "before_call req (Suc k) @ [Call req] = schedule req (Suc k)"
  by (simp add: before_call_Suc schedule_Suc attempt_events_def)

lemma create_sketch_continues:
  assumes "\<forall>m. 1 \<le> m \<and> m \<le> k \<longrightarrow>
             transient_sketch
               (sess (h @ before_call (POST (api_root @ ''/sketches/'') (sketch_form_data name description)) m)
                  (POST (api_root @ ''/sketches/'') (sketch_form_data name description)))"
    and "k < DEFAULT_RETRY_COUNT" and "name \<noteq> []"
  shows "\<exists>t. snd (create_sketch sess api_root name description h) =
             h @ schedule (POST (api_root @ ''/sketches/'') (sketch_form_data name description)) (Suc k) @ t"
proof -
  let ?url = "api_root @ ''/sketches/''" and ?fd = "sketch_form_data name description"
  let ?req = "POST ?url ?fd"
  let ?loop = "\<lambda>a h'. create_sketch_loop sess ?url ?fd a None (h' @ sleeps_before (Suc a))"
  have "\<exists>k'. k < k' \<and> k' \<le> DEFAULT_RETRY_COUNT \<and>
      snd (?loop k (h @ schedule ?req k)) =
      (h @ schedule ?req k) @ concat (map (attempt_events ?req) [Suc k..<Suc k'])"
    using assms(2)
  proof (rule loop_history [where loop = ?loop, rotated])
    fix a h'
    assume "a < DEFAULT_RETRY_COUNT"
    from create_sketch_loop_cases [OF this, of sess ?url ?fd None "h' @ sleeps_before (Suc a)"]
    show "(\<exists>res. ?loop a h' = (res, h' @ attempt_events ?req (Suc a)))
      \<or> (Suc a < DEFAULT_RETRY_COUNT
         \<and> ?loop a h' = ?loop (Suc a) (h' @ attempt_events ?req (Suc a)))"
      by (simp add: attempt_events_def)
  qed
  then obtain k' where k': "k < k'"
    "snd (?loop k (h @ schedule ?req k)) =
      (h @ schedule ?req k) @ concat (map (attempt_events ?req) [Suc k..<Suc k'])"
    by blast
  have "[Suc k..<Suc k'] = Suc k # [Suc (Suc k)..<Suc k']"
    using k'(1) by (simp add: upt_conv_Cons)
  then have "snd (?loop k (h @ schedule ?req k)) =
     h @ schedule ?req (Suc k) @ concat (map (attempt_events ?req) [Suc (Suc k)..<Suc k'])"
    using k'(2) by (simp add: schedule_Suc)
  then show ?thesis
    using create_sketch_run [where sess = sess and h = h and k = k and url = ?url and fd = ?fd,
        OF assms(1,2)] assms(3)
    by (auto simp: create_sketch_def before_call_Suc)
qed

lemma create_sketch_exhausts:
  assumes "\<forall>m. 1 \<le> m \<and> m \<le> DEFAULT_RETRY_COUNT \<longrightarrow>
             transient_sketch
               (sess (h @ before_call (POST (api_root @ ''/sketches/'') (sketch_form_data name description)) m)
                  (POST (api_root @ ''/sketches/'') (sketch_form_data name description)))"
    and "name \<noteq> []"
  shows "create_sketch sess api_root name description h =
           (Inl RuntimeError,
            h @ schedule (POST (api_root @ ''/sketches/'') (sketch_form_data name description))
                  DEFAULT_RETRY_COUNT)"
proof -
  let ?url = "api_root @ ''/sketches/''" and ?fd = "sketch_form_data name description"
  let ?req = "POST ?url ?fd"
  obtain k where k: "DEFAULT_RETRY_COUNT = Suc k" by (simp add: DEFAULT_RETRY_COUNT_def)
  have run: "create_sketch_loop sess ?url ?fd 0 None h =
        create_sketch_loop sess ?url ?fd k None (h @ before_call ?req (Suc k))"
    using assms(1) k by (intro create_sketch_run) simp_all
  have "transient_sketch (sess (h @ before_call ?req (Suc k)) ?req)"
    using assms(1) k by simp
  from create_sketch_loop_exhausted [where sess = sess and h = "h @ before_call ?req (Suc k)"
      and le = None, OF this k [symmetric]] run assms(2)
  show ?thesis
    using before_call_then_call [of ?req k] by (simp add: create_sketch_def k)
qed

lemma create_sketch_accepts:
  assumes "\<forall>m. 1 \<le> m \<and> m \<le> k \<longrightarrow>
             transient_sketch
               (sess (h @ before_call (POST (api_root @ ''/sketches/'') (sketch_form_data name description)) m)
                  (POST (api_root @ ''/sketches/'') (sketch_form_data name description)))"
    and "k < DEFAULT_RETRY_COUNT" and "name \<noteq> []"
    and "payload (sess (h @ before_call (POST (api_root @ ''/sketches/'') (sketch_form_data name description)) (Suc k))
                    (POST (api_root @ ''/sketches/'') (sketch_form_data name description)))
         = Some (JDict d)"
    and "first_object_id (objects_of d) = Some i"
  shows "create_sketch sess api_root name description h =
           (Inr (get_sketch i),
            h @ schedule (POST (api_root @ ''/sketches/'') (sketch_form_data name description)) (Suc k))"
proof -
  let ?url = "api_root @ ''/sketches/''" and ?fd = "sketch_form_data name description"
  let ?req = "POST ?url ?fd"
  from create_sketch_loop_accept [where sess = sess and h = "h @ before_call ?req (Suc k)"
      and le = None, OF assms(4,5,2)]
    create_sketch_run [where sess = sess and h = h and k = k and url = ?url and fd = ?fd,
      OF assms(1,2)] assms(3)
  show ?thesis
    using before_call_then_call [of ?req k] by (simp add: create_sketch_def)
qed

lemma create_searchindex_loop_cases:
  assumes "a < DEFAULT_RETRY_COUNT"
  shows "(\<exists>res. create_searchindex_loop sess url fd a le h = (res, h @ [Call (POST url fd)]))
   \<or> (Suc a < DEFAULT_RETRY_COUNT
      \<and> create_searchindex_loop sess url fd a le h =
        create_searchindex_loop sess url fd (Suc a) None
          (h @ [Call (POST url fd)] @ sleeps_before (Suc (Suc a))))"
proof (cases "create_searchindex_try (sess h (POST url fd))")
  case (Returned x)
  then show ?thesis
    using assms by (subst create_searchindex_loop.simps) (simp add: Let_def)
next
  case (Uncaught e)
  then show ?thesis
    using assms by (subst create_searchindex_loop.simps) (simp add: Let_def)
next
  case (Failed e)
  show ?thesis
  proof (cases "Suc a < DEFAULT_RETRY_COUNT")
    case True
    then have "create_searchindex_loop sess url fd a le h =
        create_searchindex_loop sess url fd (Suc a) (Some e)
          (h @ [Call (POST url fd)] @ sleeps_before (Suc (Suc a)))"
      using assms Failed
      by (subst create_searchindex_loop.simps)
         (simp add: Let_def sleeps_before_def unified_delay_def less_diff_conv)
    with True show ?thesis
      by (simp add: create_searchindex_loop_last_exception [of _ _ _ _ "Some e"])
  next
    case False
    then show ?thesis
      using assms Failed
      by (subst create_searchindex_loop.simps) (simp add: Let_def less_diff_conv)
  qed
qed

lemma create_searchindex_history:
  "\<exists>k. 1 \<le> k \<and> k \<le> DEFAULT_RETRY_COUNT \<and>
       snd (create_searchindex sess api_root sname oname h) =
       h @ schedule (POST (api_root @ ''/searchindices/'') (searchindex_form_data sname oname)) k"
proof -
  let ?url = "api_root @ ''/searchindices/''" and ?fd = "searchindex_form_data sname oname"
  let ?loop = "\<lambda>a h'. create_searchindex_loop sess ?url ?fd a None (h' @ sleeps_before (Suc a))"
  have "0 < DEFAULT_RETRY_COUNT" by (simp add: DEFAULT_RETRY_COUNT_def)
  then have "\<exists>k. 0 < k \<and> k \<le> DEFAULT_RETRY_COUNT \<and>
      snd (?loop 0 h) = h @ concat (map (attempt_events (POST ?url ?fd)) [Suc 0..<Suc k])"
  proof (rule loop_history [where loop = ?loop, rotated])
    fix a h'
    assume "a < DEFAULT_RETRY_COUNT"
    from create_searchindex_loop_cases [OF this, of sess ?url ?fd None "h' @ sleeps_before (Suc a)"]
    show "(\<exists>res. ?loop a h' = (res, h' @ attempt_events (POST ?url ?fd) (Suc a)))
      \<or> (Suc a < DEFAULT_RETRY_COUNT
         \<and> ?loop a h' = ?loop (Suc a) (h' @ attempt_events (POST ?url ?fd) (Suc a)))"
      by (simp add: attempt_events_def)
  qed
  then obtain k where "0 < k" "k \<le> DEFAULT_RETRY_COUNT"
    "snd (?loop 0 h) = h @ concat (map (attempt_events (POST ?url ?fd)) [Suc 0..<Suc k])"
    by blast
  then show ?thesis
    by (intro exI [of _ k])
       (simp add: create_searchindex_def schedule_from_0 sleeps_before_def del: upt_Suc)
qed

lemma create_searchindex_continues:
  assumes "\<forall>m. 1 \<le> m \<and> m \<le> k \<longrightarrow>
             transient_create
               (sess (h @ before_call (POST (api_root @ ''/searchindices/'') (searchindex_form_data sname oname)) m)
                  (POST (api_root @ ''/searchindices/'') (searchindex_form_data sname oname)))"
    and "k < DEFAULT_RETRY_COUNT"
  shows "\<exists>t. snd (create_searchindex sess api_root sname oname h) =
             h @ schedule (POST (api_root @ ''/searchindices/'') (searchindex_form_data sname oname)) (Suc k) @ t"
proof -
  let ?url = "api_root @ ''/searchindices/''" and ?fd = "searchindex_form_data sname oname"
  let ?req = "POST ?url ?fd"
  let ?loop = "\<lambda>a h'. create_searchindex_loop sess ?url ?fd a None (h' @ sleeps_before (Suc a))"
  have "\<exists>k'. k < k' \<and> k' \<le> DEFAULT_RETRY_COUNT \<and>
      snd (?loop k (h @ schedule ?req k)) =
      (h @ schedule ?req k) @ concat (map (attempt_events ?req) [Suc k..<Suc k'])"
    using assms(2)
  proof (rule loop_history [where loop = ?loop, rotated])
    fix a h'
    assume "a < DEFAULT_RETRY_COUNT"
    from create_searchindex_loop_cases [OF this, of sess ?url ?fd None "h' @ sleeps_before (Suc a)"]
    show "(\<exists>res. ?loop a h' = (res, h' @ attempt_events ?req (Suc a)))
      \<or> (Suc a < DEFAULT_RETRY_COUNT
         \<and> ?loop a h' = ?loop (Suc a) (h' @ attempt_events ?req (Suc a)))"
      by (simp add: attempt_events_def)
  qed
  then obtain k' where k': "k < k'"
    "snd (?loop k (h @ schedule ?req k)) =
      (h @ schedule ?req k) @ concat (map (attempt_events ?req) [Suc k..<Suc k'])"
    by blast
  have "[Suc k..<Suc k'] = Suc k # [Suc (Suc k)..<Suc k']"
    using k'(1) by (simp add: upt_conv_Cons)
  then have "snd (?loop k (h @ schedule ?req k)) =
     h @ schedule ?req (Suc k) @ concat (map (attempt_events ?req) [Suc (Suc k)..<Suc k'])"
    using k'(2) by (simp add: schedule_Suc)
  then show ?thesis
    using create_searchindex_run [where sess = sess and h = h and k = k and url = ?url
        and fd = ?fd, OF assms(1,2)]
    by (auto simp: create_searchindex_def before_call_Suc)
qed

lemma create_searchindex_exhausts:
  assumes "\<forall>m. 1 \<le> m \<and> m \<le> DEFAULT_RETRY_COUNT \<longrightarrow>
             transient_create
               (sess (h @ before_call (POST (api_root @ ''/searchindices/'') (searchindex_form_data sname oname)) m)
                  (POST (api_root @ ''/searchindices/'') (searchindex_form_data sname oname)))"
  shows "create_searchindex sess api_root sname oname h =
           (Inl ValueError,
            h @ schedule (POST (api_root @ ''/searchindices/'') (searchindex_form_data sname oname))
                  DEFAULT_RETRY_COUNT)"
proof -
  let ?url = "api_root @ ''/searchindices/''" and ?fd = "searchindex_form_data sname oname"
  let ?req = "POST ?url ?fd"
  obtain k where k: "DEFAULT_RETRY_COUNT = Suc k" by (simp add: DEFAULT_RETRY_COUNT_def)
  have run: "create_searchindex_loop sess ?url ?fd 0 None h =
        create_searchindex_loop sess ?url ?fd k None (h @ before_call ?req (Suc k))"
    using assms(1) k by (intro create_searchindex_run) simp_all
  have "transient_create (sess (h @ before_call ?req (Suc k)) ?req)"
    using assms(1) k by simp
  from create_searchindex_loop_exhausted [where sess = sess and h = "h @ before_call ?req (Suc k)"
      and le = None, OF this k [symmetric]] run
  show ?thesis
    using before_call_then_call [of ?req k] by (simp add: create_searchindex_def k)
qed

lemma create_searchindex_accepts:
  assumes "\<forall>m. 1 \<le> m \<and> m \<le> k \<longrightarrow>
             transient_create
               (sess (h @ before_call (POST (api_root @ ''/searchindices/'') (searchindex_form_data sname oname)) m)
                  (POST (api_root @ ''/searchindices/'') (searchindex_form_data sname oname)))"
    and "k < DEFAULT_RETRY_COUNT"
    and "payload (sess (h @ before_call (POST (api_root @ ''/searchindices/'') (searchindex_form_data sname oname)) (Suc k))
                    (POST (api_root @ ''/searchindices/'') (searchindex_form_data sname oname)))
         = Some (JDict d)"
    and "first_object_id (objects_of d) = Some i"
  shows "create_searchindex sess api_root sname oname h =
           (Inr (SearchIndex i None),
            h @ schedule (POST (api_root @ ''/searchindices/'') (searchindex_form_data sname oname)) (Suc k))"
proof -
  let ?url = "api_root @ ''/searchindices/''" and ?fd = "searchindex_form_data sname oname"
  let ?req = "POST ?url ?fd"
  from create_searchindex_loop_accept [where sess = sess and h = "h @ before_call ?req (Suc k)"
      and le = None, OF assms(3,4,2)]
    create_searchindex_run [where sess = sess and h = h and k = k and url = ?url and fd = ?fd,
      OF assms(1,2)]
  show ?thesis
    using before_call_then_call [of ?req k] by (simp add: create_searchindex_def)
qed

lemma concat_singletons: "concat (map (\<lambda>m. [x]) ms) = replicate (length ms) x"
  by (induction ms) simp_all

lemma post_until_objects_cases:
  "(\<exists>res. post_until_objects sess url fd a h = (res, h @ [Call (POST url fd)]))
   \<or> (Suc a < DEFAULT_RETRY_COUNT
      \<and> post_until_objects sess url fd a h =
        post_until_objects sess url fd (Suc a) (h @ [Call (POST url fd)]))"
proof (cases "sess h (POST url fd)")
  case (Inl e)
  then show ?thesis
    using post_until_objects.simps [of sess url fd a h] by (simp add: Let_def)
next
  case (Inr r)
  show ?thesis
  proof (cases "get_response_json r")
    case (Inl e)
    then show ?thesis
      using Inr post_until_objects.simps [of sess url fd a h] by (simp add: Let_def)
  next
    case rd: (Inr response_dict)
    show ?thesis
    proof (cases "py_get response_dict ''objects'' JNull")
      case (Inl e)
      then show ?thesis
        using Inr rd post_until_objects.simps [of sess url fd a h] by (simp add: Let_def)
    next
      case ob: (Inr objects)
      then show ?thesis
        using Inr rd post_until_objects.simps [of sess url fd a h]
        by (cases "truthy objects"; cases "Suc a < DEFAULT_RETRY_COUNT")
           (simp_all add: Let_def not_less)
    qed
  qed
qed

lemma shift_attempts:
  fixes k :: nat
  assumes "\<forall>m. 1 \<le> m \<and> m \<le> k \<longrightarrow> P (m - 1)"
  shows "\<forall>m<k. P m"
proof (intro allI impI)
  fix m :: nat
  assume "m < k"
  then have "1 \<le> Suc m \<and> Suc m \<le> k" by simp
  with assms have "P (Suc m - 1)" by blast
  then show "P m" by simp
qed

lemma post_until_objects_history:
  assumes "a < DEFAULT_RETRY_COUNT"
  shows "\<exists>k. a < k \<and> k \<le> DEFAULT_RETRY_COUNT \<and>
       snd (post_until_objects sess url fd a h) = h @ replicate (k - a) (Call (POST url fd))"
proof -
  from assms have "\<exists>k. a < k \<and> k \<le> DEFAULT_RETRY_COUNT \<and>
      snd (post_until_objects sess url fd a h) =
      h @ concat (map (\<lambda>m. [Call (POST url fd)]) [Suc a..<Suc k])"
    by (rule loop_history [where loop = "post_until_objects sess url fd", rotated])
       (rule post_until_objects_cases)
  then obtain k where k: "a < k" "k \<le> DEFAULT_RETRY_COUNT"
    "snd (post_until_objects sess url fd a h) =
      h @ concat (map (\<lambda>m. [Call (POST url fd)]) [Suc a..<Suc k])"
    by blast
  have "concat (map (\<lambda>m. [Call (POST url fd)]) [Suc a..<Suc k]) =
        replicate (k - a) (Call (POST url fd))"
    by (simp only: concat_singletons length_upt diff_Suc_Suc)
  with k show ?thesis by (intro exI [of _ k]) simp
qed

lemma post_until_objects_continues:
  assumes "\<forall>m. 1 \<le> m \<and> m \<le> k \<longrightarrow>
      falsy_objects (sess (h @ replicate (m - 1) (Call (POST url fd))) (POST url fd))"
    and "k < DEFAULT_RETRY_COUNT"
  shows "\<exists>t. snd (post_until_objects sess url fd 0 h) =
             h @ replicate (Suc k) (Call (POST url fd)) @ t"
proof -
  have run: "post_until_objects sess url fd 0 h =
      post_until_objects sess url fd k (h @ replicate k (Call (POST url fd)))"
    using shift_attempts [OF assms(1)] assms(2) by (intro post_until_objects_run)
  from post_until_objects_history [OF assms(2), of sess url fd "h @ replicate k (Call (POST url fd))"]
  obtain k' where k': "k < k'"
    "snd (post_until_objects sess url fd k (h @ replicate k (Call (POST url fd)))) =
     (h @ replicate k (Call (POST url fd))) @ replicate (k' - k) (Call (POST url fd))"
    by blast
  from k'(1) obtain j where "k' - k = Suc j" by (cases "k' - k") simp_all
  with k'(2) run show ?thesis
    by (simp add: replicate_app_Cons_same)
qed

lemma post_until_objects_exhausts:
  assumes "\<forall>m. 1 \<le> m \<and> m \<le> DEFAULT_RETRY_COUNT \<longrightarrow>
      falsy_objects (sess (h @ replicate (m - 1) (Call (POST url fd))) (POST url fd))"
  shows "post_until_objects sess url fd 0 h =
           (Inl RuntimeError, h @ replicate DEFAULT_RETRY_COUNT (Call (POST url fd)))"
proof -
  obtain k where k: "DEFAULT_RETRY_COUNT = Suc k" by (simp add: DEFAULT_RETRY_COUNT_def)
  have run: "post_until_objects sess url fd 0 h =
      post_until_objects sess url fd k (h @ replicate k (Call (POST url fd)))"
    using shift_attempts [OF assms] k
    by (intro post_until_objects_run) simp_all
  have "falsy_objects (sess (h @ replicate k (Call (POST url fd))) (POST url fd))"
    using shift_attempts [OF assms] k by simp
  from post_until_objects_exhausted [where sess = sess and h = "h @ replicate k (Call (POST url fd))",
      OF this k [symmetric]] run
  show ?thesis by (simp add: k replicate_append_same)
qed

lemma post_until_objects_accepts:
  assumes "\<forall>m. 1 \<le> m \<and> m \<le> k \<longrightarrow>
      falsy_objects (sess (h @ replicate (m - 1) (Call (POST url fd))) (POST url fd))"
    and "k < DEFAULT_RETRY_COUNT"
    and "payload (sess (h @ replicate k (Call (POST url fd))) (POST url fd)) = Some (JDict d)"
    and "truthy (objects_of d)"
  shows "post_until_objects sess url fd 0 h =
           (Inr (objects_of d), h @ replicate (Suc k) (Call (POST url fd)))"
proof -
  have run: "post_until_objects sess url fd 0 h =
      post_until_objects sess url fd k (h @ replicate k (Call (POST url fd)))"
    using shift_attempts [OF assms(1)] assms(2) by (intro post_until_objects_run)
  from post_until_objects_accept [where sess = sess and h = "h @ replicate k (Call (POST url fd))",
      OF assms(3,4)] run
  show ?thesis by (simp add: replicate_append_same)
qed

lemma post_until_objects_raise:
  assumes "decoded (sess h (POST url fd)) = Inl e"
  shows "post_until_objects sess url fd a h = (Inl e, h @ [Call (POST url fd)])"
proof (cases "sess h (POST url fd)")
  case (Inl e')
  then show ?thesis
    using assms post_until_objects.simps [of sess url fd a h] by (simp add: Let_def decoded_def)
next
  case (Inr r)
  then show ?thesis
    using assms post_until_objects.simps [of sess url fd a h] by (simp add: Let_def decoded_def)
qed

lemma post_until_objects_raises:
  assumes "\<forall>m. 1 \<le> m \<and> m \<le> k \<longrightarrow>
      falsy_objects (sess (h @ replicate (m - 1) (Call (POST url fd))) (POST url fd))"
    and "k < DEFAULT_RETRY_COUNT"
    and "decoded (sess (h @ replicate k (Call (POST url fd))) (POST url fd)) = Inl e"
  shows "post_until_objects sess url fd 0 h =
           (Inl e, h @ replicate (Suc k) (Call (POST url fd)))"
proof -
  have run: "post_until_objects sess url fd 0 h =
      post_until_objects sess url fd k (h @ replicate k (Call (POST url fd)))"
    using shift_attempts [OF assms(1)] assms(2) by (intro post_until_objects_run)
  from post_until_objects_raise [where sess = sess and h = "h @ replicate k (Call (POST url fd))",
      OF assms(3)] run
  show ?thesis by (simp add: replicate_append_same)
qed

lemma decoded_failures:
  "connection_error out \<Longrightarrow> decoded out = Inl ConnectionError"
  "non_20x_status out \<Longrightarrow> decoded out = Inl RuntimeError"
  "decode_failure out \<Longrightarrow> decoded out = Inl ValueError"
  by (cases out; simp add: connection_error_def non_20x_status_def decode_failure_def decoded_def
      get_response_json_def)+

subsection \<open>Exhausting the retry budget\<close>

text \<open>
  C1, as the code has it. When every one of the \<open>DEFAULT_RETRY_COUNT = 5\<close> attempts
  fails in a way the method tries again, the method raises after exactly five calls, on
  the schedule above: in \<open>fetch_resource_data\<close> and \<open>create_searchindex\<close> for a
  connection error, a non-20x status, a JSON-decode failure or a rejected payload; in
  \<open>create_sketch\<close> for a non-20x status, a JSON-decode failure or a rejected payload; in
  \<open>create_user\<close> and \<open>create_sigmarule\<close>, which do not sleep, for a JSON object whose
  \<open>objects\<close> is missing or falsy.
\<close>

theorem retry_budget_exhausted:
  "((\<forall>m. 1 \<le> m \<and> m \<le> DEFAULT_RETRY_COUNT \<longrightarrow>
        transient_fetch (sess (h @ before_call (GET (api_root @ ''/'' @ uri) params) m)
                           (GET (api_root @ ''/'' @ uri) params)))
     \<longrightarrow> (\<exists>e. fetch_resource_data sess api_root uri params h =
               (Inl e, h @ schedule (GET (api_root @ ''/'' @ uri) params) DEFAULT_RETRY_COUNT)))
   \<and> ((\<forall>m. 1 \<le> m \<and> m \<le> DEFAULT_RETRY_COUNT \<longrightarrow>
        transient_create
          (sess (h @ before_call (POST (api_root @ ''/searchindices/'') (searchindex_form_data sname oname)) m)
             (POST (api_root @ ''/searchindices/'') (searchindex_form_data sname oname))))
     \<longrightarrow> (\<exists>e. create_searchindex sess api_root sname oname h =
               (Inl e, h @ schedule (POST (api_root @ ''/searchindices/'') (searchindex_form_data sname oname))
                             DEFAULT_RETRY_COUNT)))
   \<and> (name \<noteq> [] \<and>
       (\<forall>m. 1 \<le> m \<and> m \<le> DEFAULT_RETRY_COUNT \<longrightarrow>
        transient_sketch
          (sess (h @ before_call (POST (api_root @ ''/sketches/'') (sketch_form_data name description)) m)
             (POST (api_root @ ''/sketches/'') (sketch_form_data name description))))
     \<longrightarrow> (\<exists>e. create_sketch sess api_root name description h =
               (Inl e, h @ schedule (POST (api_root @ ''/sketches/'') (sketch_form_data name description))
                             DEFAULT_RETRY_COUNT)))
   \<and> ((\<forall>m. 1 \<le> m \<and> m \<le> DEFAULT_RETRY_COUNT \<longrightarrow>
        falsy_objects
          (sess (h @ replicate (m - 1) (Call (POST (api_root @ ''/users/'') (user_form_data username password))))
             (POST (api_root @ ''/users/'') (user_form_data username password))))
     \<longrightarrow> (\<exists>e. create_user sess api_root username password h =
               (Inl e, h @ replicate DEFAULT_RETRY_COUNT
                             (Call (POST (api_root @ ''/users/'') (user_form_data username password))))))
   \<and> ((\<forall>m. 1 \<le> m \<and> m \<le> DEFAULT_RETRY_COUNT \<longrightarrow>
        falsy_objects
          (sess (h @ replicate (m - 1) (Call (POST (api_root @ ''/sigmarules/'') (sigmarule_form_data rule_yaml))))
             (POST (api_root @ ''/sigmarules/'') (sigmarule_form_data rule_yaml))))
     \<longrightarrow> (\<exists>e. create_sigmarule from_rule_uuid sess api_root rule_yaml h =
               (Inl e, h @ replicate DEFAULT_RETRY_COUNT
                             (Call (POST (api_root @ ''/sigmarules/'') (sigmarule_form_data rule_yaml))))))
   \<and> calls (schedule req DEFAULT_RETRY_COUNT) = 5
   \<and> calls (replicate DEFAULT_RETRY_COUNT (Call req)) = 5"
proof (intro conjI impI)
  assume "\<forall>m. 1 \<le> m \<and> m \<le> DEFAULT_RETRY_COUNT \<longrightarrow>
        transient_fetch (sess (h @ before_call (GET (api_root @ ''/'' @ uri) params) m)
                           (GET (api_root @ ''/'' @ uri) params))"
  then show "\<exists>e. fetch_resource_data sess api_root uri params h =
               (Inl e, h @ schedule (GET (api_root @ ''/'' @ uri) params) DEFAULT_RETRY_COUNT)"
    by (rule fetch_exhausts)
next
  assume "\<forall>m. 1 \<le> m \<and> m \<le> DEFAULT_RETRY_COUNT \<longrightarrow>
        transient_create
          (sess (h @ before_call (POST (api_root @ ''/searchindices/'') (searchindex_form_data sname oname)) m)
             (POST (api_root @ ''/searchindices/'') (searchindex_form_data sname oname)))"
  from create_searchindex_exhausts [where sess = sess and h = h, OF this]
  show "\<exists>e. create_searchindex sess api_root sname oname h =
               (Inl e, h @ schedule (POST (api_root @ ''/searchindices/'') (searchindex_form_data sname oname))
                             DEFAULT_RETRY_COUNT)"
    by blast
next
  assume a: "name \<noteq> [] \<and>
       (\<forall>m. 1 \<le> m \<and> m \<le> DEFAULT_RETRY_COUNT \<longrightarrow>
        transient_sketch
          (sess (h @ before_call (POST (api_root @ ''/sketches/'') (sketch_form_data name description)) m)
             (POST (api_root @ ''/sketches/'') (sketch_form_data name description))))"
  from create_sketch_exhausts [where sess = sess and h = h, OF conjunct2 [OF a] conjunct1 [OF a]]
  show "\<exists>e. create_sketch sess api_root name description h =
               (Inl e, h @ schedule (POST (api_root @ ''/sketches/'') (sketch_form_data name description))
                             DEFAULT_RETRY_COUNT)"
    by blast
next
  assume "\<forall>m. 1 \<le> m \<and> m \<le> DEFAULT_RETRY_COUNT \<longrightarrow>
        falsy_objects
          (sess (h @ replicate (m - 1) (Call (POST (api_root @ ''/users/'') (user_form_data username password))))
             (POST (api_root @ ''/users/'') (user_form_data username password)))"
  from post_until_objects_exhausts [where sess = sess and h = h, OF this]
  show "\<exists>e. create_user sess api_root username password h =
               (Inl e, h @ replicate DEFAULT_RETRY_COUNT
                             (Call (POST (api_root @ ''/users/'') (user_form_data username password))))"
    by (simp add: create_user_def)
next
  assume "\<forall>m. 1 \<le> m \<and> m \<le> DEFAULT_RETRY_COUNT \<longrightarrow>
        falsy_objects
          (sess (h @ replicate (m - 1) (Call (POST (api_root @ ''/sigmarules/'') (sigmarule_form_data rule_yaml))))
             (POST (api_root @ ''/sigmarules/'') (sigmarule_form_data rule_yaml)))"
  from post_until_objects_exhausts [where sess = sess and h = h, OF this]
  show "\<exists>e. create_sigmarule from_rule_uuid sess api_root rule_yaml h =
               (Inl e, h @ replicate DEFAULT_RETRY_COUNT
                             (Call (POST (api_root @ ''/sigmarules/'') (sigmarule_form_data rule_yaml))))"
    by (simp add: create_sigmarule_def)
next
  show "calls (schedule req DEFAULT_RETRY_COUNT) = 5"
    by (simp add: calls_schedule DEFAULT_RETRY_COUNT_def)
  show "calls (replicate DEFAULT_RETRY_COUNT (Call req)) = 5"
    by (simp add: DEFAULT_RETRY_COUNT_def eval_nat_numeral)
qed

theorem retry_budget_exhausted_witness:
  "list_all (\<lambda>m.
        transient_fetch (server_down (before_call (GET ''http://ts/api/v1/sketches/'' None) m)
                           (GET ''http://ts/api/v1/sketches/'' None))) [1..<6]
   \<and> (\<exists>e. fetch_resource_data server_down ''http://ts/api/v1'' ''sketches/'' None [] =
               (Inl e, schedule (GET ''http://ts/api/v1/sketches/'' None) DEFAULT_RETRY_COUNT))
   \<and> list_all (\<lambda>m.
        transient_create
          (server_down (before_call (POST ''http://ts/api/v1/searchindices/'' (searchindex_form_data ''s'' ''o'')) m)
             (POST ''http://ts/api/v1/searchindices/'' (searchindex_form_data ''s'' ''o'')))) [1..<6]
   \<and> (\<exists>e. create_searchindex server_down ''http://ts/api/v1'' ''s'' ''o'' [] =
               (Inl e, schedule (POST ''http://ts/api/v1/searchindices/'' (searchindex_form_data ''s'' ''o''))
                          DEFAULT_RETRY_COUNT))
   \<and> ''n'' \<noteq> []
   \<and> list_all (\<lambda>m.
        transient_sketch
          (server_error (before_call (POST ''http://ts/api/v1/sketches/'' (sketch_form_data ''n'' None)) m)
             (POST ''http://ts/api/v1/sketches/'' (sketch_form_data ''n'' None)))) [1..<6]
   \<and> (\<exists>e. create_sketch server_error ''http://ts/api/v1'' ''n'' None [] =
               (Inl e, schedule (POST ''http://ts/api/v1/sketches/'' (sketch_form_data ''n'' None))
                          DEFAULT_RETRY_COUNT))
   \<and> list_all (\<lambda>m.
        falsy_objects
          (server_replies (JDict [(''objects'', JList [])])
             (replicate (m - 1) (Call (POST ''http://ts/api/v1/users/'' (user_form_data ''u'' ''p''))))
             (POST ''http://ts/api/v1/users/'' (user_form_data ''u'' ''p'')))) [1..<6]
   \<and> (\<exists>e. create_user (server_replies (JDict [(''objects'', JList [])])) ''http://ts/api/v1'' ''u'' ''p'' [] =
               (Inl e, replicate DEFAULT_RETRY_COUNT
                          (Call (POST ''http://ts/api/v1/users/'' (user_form_data ''u'' ''p'')))))
   \<and> list_all (\<lambda>m.
        falsy_objects
          (server_replies (JDict [(''objects'', JList [])])
             (replicate (m - 1) (Call (POST ''http://ts/api/v1/sigmarules/'' (sigmarule_form_data ''y''))))
             (POST ''http://ts/api/v1/sigmarules/'' (sigmarule_form_data ''y'')))) [1..<6]
   \<and> (\<exists>e. create_sigmarule loads (server_replies (JDict [(''objects'', JList [])])) ''http://ts/api/v1'' ''y'' [] =
               (Inl e, replicate DEFAULT_RETRY_COUNT
                          (Call (POST ''http://ts/api/v1/sigmarules/'' (sigmarule_form_data ''y'')))))"
proof -
  have down: "\<And>h req. transient_fetch (server_down h req)" "\<And>h req. transient_create (server_down h req)"
    by (simp_all add: transient_fetch_def transient_create_def connection_error_def server_down_def)
  have err: "\<And>h req. transient_sketch (server_error h req)"
    by (simp add: transient_sketch_def non_20x_status_def server_error_def HTTP_STATUS_CODE_20X_def)
  have empty: "\<And>h req. falsy_objects (server_replies (JDict [(''objects'', JList [])]) h req)"
    by (simp add: falsy_objects_def payload_def server_replies_def HTTP_STATUS_CODE_20X_def
        objects_of_def)
  show ?thesis
    using retry_budget_exhausted [of server_down "[]" "''http://ts/api/v1''" "''sketches/''" None
        "''s''" "''o''" "''n''" None "''u''" "''p''" "''y''" loads]
      retry_budget_exhausted [of server_error "[]" "''http://ts/api/v1''" "''sketches/''" None
        "''s''" "''o''" "''n''" None "''u''" "''p''" "''y''" loads]
      retry_budget_exhausted [of "server_replies (JDict [(''objects'', JList [])])" "[]"
        "''http://ts/api/v1''" "''sketches/''" None "''s''" "''o''" "''n''" None "''u''" "''p''" "''y''"
        loads]
    by (simp add: down err empty list_all_iff)
qed

text \<open>
  C1 as stated fails: \<open>create_user\<close> has no \<open>try\<close> around the request, so against a
  server that answers every request with status 500 the very first attempt, a non-20x
  status, raises RuntimeError after one call.
\<close>

theorem retry_budget_counterexample:
  "non_20x_status (server_error [] (POST ''http://ts/api/v1/users/'' (user_form_data ''u'' ''p'')))
   \<and> create_user server_error ''http://ts/api/v1'' ''u'' ''p'' [] =
       (Inl RuntimeError, [Call (POST ''http://ts/api/v1/users/'' (user_form_data ''u'' ''p''))])
   \<and> calls (snd (create_user server_error ''http://ts/api/v1'' ''u'' ''p'' [])) = 1"
proof -
  have "decoded (server_error [] (POST ''http://ts/api/v1/users/'' (user_form_data ''u'' ''p'')))
        = Inl RuntimeError"
    by (simp add: decoded_def server_error_def get_response_json_def HTTP_STATUS_CODE_20X_def)
  from post_until_objects_raise [where sess = server_error and h = "[]" and a = 0, OF this]
  show ?thesis
    by (simp add: create_user_def non_20x_status_def server_error_def HTTP_STATUS_CODE_20X_def)
qed

subsection \<open>Which failures are tried again\<close>

text \<open>
  C2, as the code has it. While fewer than \<open>DEFAULT_RETRY_COUNT\<close> attempts have been
  made and all of them failed in a way the method tries again, whatever the kinds, the
  next attempt is issued on the schedule: nothing is raised before the budget is used
  up. The kinds tried again are all four in \<open>fetch_resource_data\<close> and
  \<open>create_searchindex\<close>; a non-20x status, a JSON-decode failure and a rejected payload
  in \<open>create_sketch\<close>; a missing or falsy \<open>objects\<close> in \<open>create_user\<close> and
  \<open>create_sigmarule\<close>. In these last two a connection error, a non-20x status or a
  JSON-decode failure is raised by the attempt in which it occurs.
\<close>

theorem failures_retried_alike:
  "((\<forall>m. 1 \<le> m \<and> m \<le> k \<longrightarrow>
        transient_fetch (sess (h @ before_call (GET (api_root @ ''/'' @ uri) params) m)
                           (GET (api_root @ ''/'' @ uri) params)))
      \<and> k < DEFAULT_RETRY_COUNT
     \<longrightarrow> (\<exists>t. snd (fetch_resource_data sess api_root uri params h) =
               h @ schedule (GET (api_root @ ''/'' @ uri) params) (Suc k) @ t))
   \<and> ((\<forall>m. 1 \<le> m \<and> m \<le> k \<longrightarrow>
        transient_create
          (sess (h @ before_call (POST (api_root @ ''/searchindices/'') (searchindex_form_data sname oname)) m)
             (POST (api_root @ ''/searchindices/'') (searchindex_form_data sname oname))))
      \<and> k < DEFAULT_RETRY_COUNT
     \<longrightarrow> (\<exists>t. snd (create_searchindex sess api_root sname oname h) =
               h @ schedule (POST (api_root @ ''/searchindices/'') (searchindex_form_data sname oname))
                     (Suc k) @ t))
   \<and> ((\<forall>m. 1 \<le> m \<and> m \<le> k \<longrightarrow>
        transient_sketch
          (sess (h @ before_call (POST (api_root @ ''/sketches/'') (sketch_form_data name description)) m)
             (POST (api_root @ ''/sketches/'') (sketch_form_data name description))))
      \<and> k < DEFAULT_RETRY_COUNT \<and> name \<noteq> []
     \<longrightarrow> (\<exists>t. snd (create_sketch sess api_root name description h) =
               h @ schedule (POST (api_root @ ''/sketches/'') (sketch_form_data name description))
                     (Suc k) @ t))
   \<and> ((\<forall>m. 1 \<le> m \<and> m \<le> k \<longrightarrow>
        falsy_objects
          (sess (h @ replicate (m - 1) (Call (POST (api_root @ ''/users/'') (user_form_data username password))))
             (POST (api_root @ ''/users/'') (user_form_data username password))))
      \<and> k < DEFAULT_RETRY_COUNT
     \<longrightarrow> (\<exists>t. snd (create_user sess api_root username password h) =
               h @ replicate (Suc k) (Call (POST (api_root @ ''/users/'') (user_form_data username password)))
                 @ t)
         \<and> (connection_error
                (sess (h @ replicate k (Call (POST (api_root @ ''/users/'') (user_form_data username password))))
                   (POST (api_root @ ''/users/'') (user_form_data username password)))
              \<or> non_20x_status
                (sess (h @ replicate k (Call (POST (api_root @ ''/users/'') (user_form_data username password))))
                   (POST (api_root @ ''/users/'') (user_form_data username password)))
              \<or> decode_failure
                (sess (h @ replicate k (Call (POST (api_root @ ''/users/'') (user_form_data username password))))
                   (POST (api_root @ ''/users/'') (user_form_data username password)))
            \<longrightarrow> (\<exists>e. create_user sess api_root username password h =
                   (Inl e, h @ replicate (Suc k)
                      (Call (POST (api_root @ ''/users/'') (user_form_data username password)))))))
   \<and> ((\<forall>m. 1 \<le> m \<and> m \<le> k \<longrightarrow>
        falsy_objects
          (sess (h @ replicate (m - 1) (Call (POST (api_root @ ''/sigmarules/'') (sigmarule_form_data rule_yaml))))
             (POST (api_root @ ''/sigmarules/'') (sigmarule_form_data rule_yaml))))
      \<and> k < DEFAULT_RETRY_COUNT
     \<longrightarrow> (\<exists>t. snd (create_sigmarule from_rule_uuid sess api_root rule_yaml h) =
               h @ replicate (Suc k) (Call (POST (api_root @ ''/sigmarules/'') (sigmarule_form_data rule_yaml)))
                 @ t)
         \<and> (connection_error
                (sess (h @ replicate k (Call (POST (api_root @ ''/sigmarules/'') (sigmarule_form_data rule_yaml))))
                   (POST (api_root @ ''/sigmarules/'') (sigmarule_form_data rule_yaml)))
              \<or> non_20x_status
                (sess (h @ replicate k (Call (POST (api_root @ ''/sigmarules/'') (sigmarule_form_data rule_yaml))))
                   (POST (api_root @ ''/sigmarules/'') (sigmarule_form_data rule_yaml)))
              \<or> decode_failure
                (sess (h @ replicate k (Call (POST (api_root @ ''/sigmarules/'') (sigmarule_form_data rule_yaml))))
                   (POST (api_root @ ''/sigmarules/'') (sigmarule_form_data rule_yaml)))
            \<longrightarrow> (\<exists>e. create_sigmarule from_rule_uuid sess api_root rule_yaml h =
                   (Inl e, h @ replicate (Suc k)
                      (Call (POST (api_root @ ''/sigmarules/'') (sigmarule_form_data rule_yaml)))))))"
proof (intro conjI impI)
  assume a: "(\<forall>m. 1 \<le> m \<and> m \<le> k \<longrightarrow>
        transient_fetch (sess (h @ before_call (GET (api_root @ ''/'' @ uri) params) m)
                           (GET (api_root @ ''/'' @ uri) params)))
      \<and> k < DEFAULT_RETRY_COUNT"
  from fetch_continues [where sess = sess and h = h, OF conjunct1 [OF a] conjunct2 [OF a]]
  show "\<exists>t. snd (fetch_resource_data sess api_root uri params h) =
               h @ schedule (GET (api_root @ ''/'' @ uri) params) (Suc k) @ t" .
next
  assume a: "(\<forall>m. 1 \<le> m \<and> m \<le> k \<longrightarrow>
        transient_create
          (sess (h @ before_call (POST (api_root @ ''/searchindices/'') (searchindex_form_data sname oname)) m)
             (POST (api_root @ ''/searchindices/'') (searchindex_form_data sname oname))))
      \<and> k < DEFAULT_RETRY_COUNT"
  from create_searchindex_continues [where sess = sess and h = h, OF conjunct1 [OF a] conjunct2 [OF a]]
  show "\<exists>t. snd (create_searchindex sess api_root sname oname h) =
               h @ schedule (POST (api_root @ ''/searchindices/'') (searchindex_form_data sname oname))
                     (Suc k) @ t" .
next
  assume a: "(\<forall>m. 1 \<le> m \<and> m \<le> k \<longrightarrow>
        transient_sketch
          (sess (h @ before_call (POST (api_root @ ''/sketches/'') (sketch_form_data name description)) m)
             (POST (api_root @ ''/sketches/'') (sketch_form_data name description))))
      \<and> k < DEFAULT_RETRY_COUNT \<and> name \<noteq> []"
  from create_sketch_continues [where sess = sess and h = h, OF conjunct1 [OF a]
      conjunct1 [OF conjunct2 [OF a]] conjunct2 [OF conjunct2 [OF a]]]
  show "\<exists>t. snd (create_sketch sess api_root name description h) =
               h @ schedule (POST (api_root @ ''/sketches/'') (sketch_form_data name description))
                     (Suc k) @ t" .
next
  let ?req = "POST (api_root @ ''/users/'') (user_form_data username password)"
  assume a: "(\<forall>m. 1 \<le> m \<and> m \<le> k \<longrightarrow>
        falsy_objects (sess (h @ replicate (m - 1) (Call ?req)) ?req))
      \<and> k < DEFAULT_RETRY_COUNT"
  from post_until_objects_continues [where sess = sess and h = h, OF conjunct1 [OF a] conjunct2 [OF a]]
  obtain t where t: "snd (post_until_objects sess (api_root @ ''/users/'')
        (user_form_data username password) 0 h) = h @ replicate (Suc k) (Call ?req) @ t"
    by blast
  show "\<exists>t. snd (create_user sess api_root username password h) =
               h @ replicate (Suc k) (Call ?req) @ t"
    using t by (auto simp: create_user_def split: prod.splits sum.splits)
  assume "connection_error (sess (h @ replicate k (Call ?req)) ?req)
      \<or> non_20x_status (sess (h @ replicate k (Call ?req)) ?req)
      \<or> decode_failure (sess (h @ replicate k (Call ?req)) ?req)"
  then obtain e where "decoded (sess (h @ replicate k (Call ?req)) ?req) = Inl e"
    using decoded_failures by blast
  from post_until_objects_raises [where sess = sess and h = h, OF conjunct1 [OF a] conjunct2 [OF a] this]
  show "\<exists>e. create_user sess api_root username password h =
                   (Inl e, h @ replicate (Suc k) (Call ?req))"
    by (simp add: create_user_def)
next
  let ?req = "POST (api_root @ ''/sigmarules/'') (sigmarule_form_data rule_yaml)"
  assume a: "(\<forall>m. 1 \<le> m \<and> m \<le> k \<longrightarrow>
        falsy_objects (sess (h @ replicate (m - 1) (Call ?req)) ?req))
      \<and> k < DEFAULT_RETRY_COUNT"
  assume "connection_error (sess (h @ replicate k (Call ?req)) ?req)
      \<or> non_20x_status (sess (h @ replicate k (Call ?req)) ?req)
      \<or> decode_failure (sess (h @ replicate k (Call ?req)) ?req)"
  then obtain e where "decoded (sess (h @ replicate k (Call ?req)) ?req) = Inl e"
    using decoded_failures by blast
  from post_until_objects_raises [where sess = sess and h = h, OF conjunct1 [OF a] conjunct2 [OF a] this]
  show "\<exists>e. create_sigmarule from_rule_uuid sess api_root rule_yaml h =
                   (Inl e, h @ replicate (Suc k) (Call ?req))"
    by (simp add: create_sigmarule_def)
next
  let ?req = "POST (api_root @ ''/sigmarules/'') (sigmarule_form_data rule_yaml)"
  assume a: "(\<forall>m. 1 \<le> m \<and> m \<le> k \<longrightarrow>
        falsy_objects (sess (h @ replicate (m - 1) (Call ?req)) ?req))
      \<and> k < DEFAULT_RETRY_COUNT"
  from post_until_objects_continues [where sess = sess and h = h, OF conjunct1 [OF a] conjunct2 [OF a]]
  obtain t where t: "snd (post_until_objects sess (api_root @ ''/sigmarules/'')
        (sigmarule_form_data rule_yaml) 0 h) = h @ replicate (Suc k) (Call ?req) @ t"
    by blast
  show "\<exists>t. snd (create_sigmarule from_rule_uuid sess api_root rule_yaml h) =
               h @ replicate (Suc k) (Call ?req) @ t"
    using t
    by (auto simp: create_sigmarule_def get_sigmarule_def split: prod.splits sum.splits option.splits)
qed

theorem failures_retried_alike_witness:
  "list_all (\<lambda>m.
        transient_fetch (server_down (before_call (GET ''http://ts/api/v1/sketches/'' None) m)
                           (GET ''http://ts/api/v1/sketches/'' None))) [1..<3]
   \<and> (2::nat) < DEFAULT_RETRY_COUNT
   \<and> (\<exists>t. snd (fetch_resource_data server_down ''http://ts/api/v1'' ''sketches/'' None []) =
               schedule (GET ''http://ts/api/v1/sketches/'' None) (Suc 2) @ t)
   \<and> list_all (\<lambda>m.
        transient_create
          (server_down (before_call (POST ''http://ts/api/v1/searchindices/'' (searchindex_form_data ''s'' ''o'')) m)
             (POST ''http://ts/api/v1/searchindices/'' (searchindex_form_data ''s'' ''o'')))) [1..<3]
   \<and> (\<exists>t. snd (create_searchindex server_down ''http://ts/api/v1'' ''s'' ''o'' []) =
               schedule (POST ''http://ts/api/v1/searchindices/'' (searchindex_form_data ''s'' ''o'')) (Suc 2) @ t)
   \<and> list_all (\<lambda>m.
        transient_sketch
          (server_garbled (before_call (POST ''http://ts/api/v1/sketches/'' (sketch_form_data ''n'' None)) m)
             (POST ''http://ts/api/v1/sketches/'' (sketch_form_data ''n'' None)))) [1..<3]
   \<and> ''n'' \<noteq> []
   \<and> (\<exists>t. snd (create_sketch server_garbled ''http://ts/api/v1'' ''n'' None []) =
               schedule (POST ''http://ts/api/v1/sketches/'' (sketch_form_data ''n'' None)) (Suc 2) @ t)
   \<and> list_all (\<lambda>m.
        falsy_objects
          (server_after 2 (server_replies (JDict [(''objects'', JList [])])) server_down
             (replicate (m - 1) (Call (POST ''http://ts/api/v1/users/'' (user_form_data ''u'' ''p''))))
             (POST ''http://ts/api/v1/users/'' (user_form_data ''u'' ''p'')))) [1..<3]
   \<and> connection_error
         (server_after 2 (server_replies (JDict [(''objects'', JList [])])) server_down
            (replicate 2 (Call (POST ''http://ts/api/v1/users/'' (user_form_data ''u'' ''p''))))
            (POST ''http://ts/api/v1/users/'' (user_form_data ''u'' ''p'')))
   \<and> (\<exists>e. create_user (server_after 2 (server_replies (JDict [(''objects'', JList [])])) server_down)
             ''http://ts/api/v1'' ''u'' ''p'' [] =
           (Inl e, replicate (Suc 2) (Call (POST ''http://ts/api/v1/users/'' (user_form_data ''u'' ''p'')))))
   \<and> list_all (\<lambda>m.
        falsy_objects
          (server_after 2 (server_replies (JDict [(''objects'', JList [])])) server_error
             (replicate (m - 1) (Call (POST ''http://ts/api/v1/sigmarules/'' (sigmarule_form_data ''y''))))
             (POST ''http://ts/api/v1/sigmarules/'' (sigmarule_form_data ''y'')))) [1..<3]
   \<and> non_20x_status
         (server_after 2 (server_replies (JDict [(''objects'', JList [])])) server_error
            (replicate 2 (Call (POST ''http://ts/api/v1/sigmarules/'' (sigmarule_form_data ''y''))))
            (POST ''http://ts/api/v1/sigmarules/'' (sigmarule_form_data ''y'')))
   \<and> (\<exists>e. create_sigmarule loads
             (server_after 2 (server_replies (JDict [(''objects'', JList [])])) server_error)
             ''http://ts/api/v1'' ''y'' [] =
           (Inl e, replicate (Suc 2) (Call (POST ''http://ts/api/v1/sigmarules/'' (sigmarule_form_data ''y'')))))"
proof -
  let ?get = "GET ''http://ts/api/v1/sketches/'' None"
  let ?idx = "POST ''http://ts/api/v1/searchindices/'' (searchindex_form_data ''s'' ''o'')"
  let ?sk = "POST ''http://ts/api/v1/sketches/'' (sketch_form_data ''n'' None)"
  let ?us = "POST ''http://ts/api/v1/users/'' (user_form_data ''u'' ''p'')"
  let ?sg = "POST ''http://ts/api/v1/sigmarules/'' (sigmarule_form_data ''y'')"
  let ?empty = "server_replies (JDict [(''objects'', JList [])])"
  have empty: "\<And>h req. falsy_objects (?empty h req)"
    by (simp add: falsy_objects_def payload_def server_replies_def HTTP_STATUS_CODE_20X_def
        objects_of_def)
  have calls_replicate: "\<And>n req. calls (replicate n (Call req)) = n"
  proof -
    fix n req show "calls (replicate n (Call req)) = n" by (induction n) simp_all
  qed
  have k: "(2::nat) < DEFAULT_RETRY_COUNT" by (simp add: DEFAULT_RETRY_COUNT_def)
  have n: "''n'' \<noteq> []" by simp
  have f1: "\<forall>m. 1 \<le> m \<and> m \<le> 2 \<longrightarrow> transient_fetch (server_down (before_call ?get m) ?get)"
    by (simp add: transient_fetch_def connection_error_def server_down_def)
  have f2: "\<forall>m. 1 \<le> m \<and> m \<le> 2 \<longrightarrow> transient_create (server_down (before_call ?idx m) ?idx)"
    by (simp add: transient_create_def connection_error_def server_down_def)
  have f3: "\<forall>m. 1 \<le> m \<and> m \<le> 2 \<longrightarrow> transient_sketch (server_garbled (before_call ?sk m) ?sk)"
    by (simp add: transient_sketch_def decode_failure_def server_garbled_def HTTP_STATUS_CODE_20X_def)
  have f4: "\<forall>m. 1 \<le> m \<and> m \<le> 2 \<longrightarrow>
      falsy_objects (server_after 2 ?empty server_down (replicate (m - 1) (Call ?us)) ?us)"
    by (auto simp: server_after_def calls_replicate empty)
  have g4: "connection_error (server_after 2 ?empty server_down (replicate 2 (Call ?us)) ?us)"
    by (simp add: server_after_def calls_replicate connection_error_def server_down_def)
  have f5: "\<forall>m. 1 \<le> m \<and> m \<le> 2 \<longrightarrow>
      falsy_objects (server_after 2 ?empty server_error (replicate (m - 1) (Call ?sg)) ?sg)"
    by (auto simp: server_after_def calls_replicate empty)
  have g5: "non_20x_status (server_after 2 ?empty server_error (replicate 2 (Call ?sg)) ?sg)"
    by (simp add: server_after_def calls_replicate non_20x_status_def server_error_def
        HTTP_STATUS_CODE_20X_def)
  have c1: "\<exists>t. snd (fetch_resource_data server_down ''http://ts/api/v1'' ''sketches/'' None []) =
               schedule ?get (Suc 2) @ t"
    and c2: "\<exists>t. snd (create_searchindex server_down ''http://ts/api/v1'' ''s'' ''o'' []) =
               schedule ?idx (Suc 2) @ t"
    using failures_retried_alike [of 2 server_down "[]" "''http://ts/api/v1''" "''sketches/''" None
        "''s''" "''o''" "''n''" None "''u''" "''p''" "''y''" loads] f1 f2 k
    by simp_all
  have c3: "\<exists>t. snd (create_sketch server_garbled ''http://ts/api/v1'' ''n'' None []) =
               schedule ?sk (Suc 2) @ t"
    using failures_retried_alike [of 2 server_garbled "[]" "''http://ts/api/v1''" "''sketches/''" None
        "''s''" "''o''" "''n''" None "''u''" "''p''" "''y''" loads] f3 k
    by simp
  have c4: "\<exists>e. create_user (server_after 2 ?empty server_down) ''http://ts/api/v1'' ''u'' ''p'' [] =
           (Inl e, replicate (Suc 2) (Call ?us))"
    using failures_retried_alike [of 2 "server_after 2 ?empty server_down" "[]"
        "''http://ts/api/v1''" "''sketches/''" None "''s''" "''o''" "''n''" None "''u''" "''p''" "''y''"
        loads] f4 g4 k
    by simp
  have c5: "\<exists>e. create_sigmarule loads (server_after 2 ?empty server_error)
             ''http://ts/api/v1'' ''y'' [] = (Inl e, replicate (Suc 2) (Call ?sg))"
    using failures_retried_alike [of 2 "server_after 2 ?empty server_error" "[]"
        "''http://ts/api/v1''" "''sketches/''" None "''s''" "''o''" "''n''" None "''u''" "''p''" "''y''"
        loads] f5 g5 k
    by simp
  have f1_all: "list_all (\<lambda>m. transient_fetch (server_down (before_call ?get m) ?get)) [1..<3]"
    using f1 by (auto simp: list_all_iff)
  have f2_all: "list_all (\<lambda>m. transient_create (server_down (before_call ?idx m) ?idx)) [1..<3]"
    using f2 by (auto simp: list_all_iff)
  have f3_all: "list_all (\<lambda>m. transient_sketch (server_garbled (before_call ?sk m) ?sk)) [1..<3]"
    using f3 by (auto simp: list_all_iff)
  have f4_all: "list_all (\<lambda>m.
      falsy_objects (server_after 2 ?empty server_down (replicate (m - 1) (Call ?us)) ?us)) [1..<3]"
    using f4 by (auto simp: list_all_iff)
  have f5_all: "list_all (\<lambda>m.
      falsy_objects (server_after 2 ?empty server_error (replicate (m - 1) (Call ?sg)) ?sg)) [1..<3]"
    using f5 by (auto simp: list_all_iff)
  from f1_all k c1 f2_all c2 f3_all n c3 f4_all g4 c4 f5_all g5 c5 show ?thesis
    by (intro conjI)
qed

text \<open>
  C2 as stated fails: in \<open>create_sigmarule\<close> a JSON-decode failure is not tried again.
  Against a server whose 200 responses carry no JSON the first attempt raises ValueError
  after one call, with four attempts of the budget unused.
\<close>

theorem failures_retried_alike_counterexample:
  "decode_failure (server_garbled [] (POST ''http://ts/api/v1/sigmarules/'' (sigmarule_form_data ''title: x'')))
   \<and> create_sigmarule loads server_garbled ''http://ts/api/v1'' ''title: x'' [] =
       (Inl ValueError, [Call (POST ''http://ts/api/v1/sigmarules/'' (sigmarule_form_data ''title: x''))])
   \<and> calls (snd (create_sigmarule loads server_garbled ''http://ts/api/v1'' ''title: x'' []))
       < DEFAULT_RETRY_COUNT"
proof -
  have "decoded (server_garbled [] (POST ''http://ts/api/v1/sigmarules/'' (sigmarule_form_data ''title: x'')))
        = Inl ValueError"
    by (simp add: decoded_def server_garbled_def get_response_json_def HTTP_STATUS_CODE_20X_def)
  from post_until_objects_raise [where sess = server_garbled and h = "[]" and a = 0, OF this]
  show ?thesis
    by (simp add: create_sigmarule_def decode_failure_def server_garbled_def
        HTTP_STATUS_CODE_20X_def DEFAULT_RETRY_COUNT_def)
qed

subsection \<open>A successful attempt ends the call\<close>

lemma calls_before_call: "calls (before_call req m) = m - 1"
  by (simp add: before_call_def calls_append calls_schedule sleeps_before_def)

text \<open>
  C5, as the code has it. Let the attempts before attempt \<open>k\<close>, \<open>1 \<le> k \<le> 5\<close>, have
  failed in a way the method tries again, and let attempt \<open>k\<close> bring a 20x response
  whose JSON the method accepts. In \<open>fetch_resource_data\<close>, \<open>create_sketch\<close>,
  \<open>create_searchindex\<close> and \<open>create_user\<close> the method then returns what it extracts from
  that payload, and the history ends with the call of attempt \<open>k\<close>: no sleep and no
  call follows it. \<open>fetch_resource_data\<close> accepts a truthy payload and returns it;
  \<open>create_sketch\<close> and \<open>create_searchindex\<close> accept an \<open>objects\<close> list whose first
  element is a dict with an \<open>id\<close>, and return the Sketch or SearchIndex of that id;
  \<open>create_user\<close> accepts a truthy \<open>objects\<close> from which \<open>objects[0]["id"]\<close> can be read,
  and returns the User of that id. \<open>create_sigmarule\<close> accepts a truthy \<open>objects\<close> from
  which \<open>objects[0]["rule_uuid"]\<close> can be read; its retry loop ends there as well, with
  no sleep and no further POST, but the method goes on to \<open>get_sigmarule\<close>: its result
  is what \<open>get_sigmarule\<close> gives for that uuid, and after the call of attempt \<open>k\<close> the
  history holds exactly the events that \<open>from_rule_uuid\<close> adds while loading the rule.
\<close>

theorem accepted_attempt_ends_retries:
  "(1 \<le> k \<and> k \<le> DEFAULT_RETRY_COUNT
      \<and> (\<forall>m. 1 \<le> m \<and> m < k \<longrightarrow>
            transient_fetch (sess (h @ before_call (GET (api_root @ ''/'' @ uri) params) m)
                               (GET (api_root @ ''/'' @ uri) params)))
      \<and> payload (sess (h @ before_call (GET (api_root @ ''/'' @ uri) params) k)
                    (GET (api_root @ ''/'' @ uri) params)) = Some j
      \<and> truthy j
     \<longrightarrow> fetch_resource_data sess api_root uri params h =
           (Inr j, h @ schedule (GET (api_root @ ''/'' @ uri) params) k))
   \<and> (1 \<le> k \<and> k \<le> DEFAULT_RETRY_COUNT \<and> name \<noteq> []
      \<and> (\<forall>m. 1 \<le> m \<and> m < k \<longrightarrow>
            transient_sketch
              (sess (h @ before_call (POST (api_root @ ''/sketches/'') (sketch_form_data name description)) m)
                 (POST (api_root @ ''/sketches/'') (sketch_form_data name description))))
      \<and> payload (sess (h @ before_call (POST (api_root @ ''/sketches/'') (sketch_form_data name description)) k)
                    (POST (api_root @ ''/sketches/'') (sketch_form_data name description)))
          = Some (JDict d)
      \<and> first_object_id (objects_of d) = Some i
     \<longrightarrow> create_sketch sess api_root name description h =
           (Inr (Sketch i None),
            h @ schedule (POST (api_root @ ''/sketches/'') (sketch_form_data name description)) k))
   \<and> (1 \<le> k \<and> k \<le> DEFAULT_RETRY_COUNT
      \<and> (\<forall>m. 1 \<le> m \<and> m < k \<longrightarrow>
            transient_create
              (sess (h @ before_call (POST (api_root @ ''/searchindices/'') (searchindex_form_data sname oname)) m)
                 (POST (api_root @ ''/searchindices/'') (searchindex_form_data sname oname))))
      \<and> payload (sess (h @ before_call (POST (api_root @ ''/searchindices/'') (searchindex_form_data sname oname)) k)
                    (POST (api_root @ ''/searchindices/'') (searchindex_form_data sname oname)))
          = Some (JDict d)
      \<and> first_object_id (objects_of d) = Some i
     \<longrightarrow> create_searchindex sess api_root sname oname h =
           (Inr (SearchIndex i None),
            h @ schedule (POST (api_root @ ''/searchindices/'') (searchindex_form_data sname oname)) k))
   \<and> (1 \<le> k \<and> k \<le> DEFAULT_RETRY_COUNT
      \<and> (\<forall>m. 1 \<le> m \<and> m < k \<longrightarrow>
            falsy_objects
              (sess (h @ replicate (m - 1) (Call (POST (api_root @ ''/users/'') (user_form_data username password))))
                 (POST (api_root @ ''/users/'') (user_form_data username password))))
      \<and> payload (sess (h @ replicate (k - 1) (Call (POST (api_root @ ''/users/'') (user_form_data username password))))
                    (POST (api_root @ ''/users/'') (user_form_data username password)))
          = Some (JDict d)
      \<and> truthy (objects_of d) \<and> first_object_field (objects_of d) ''id'' = Inr i
     \<longrightarrow> create_user sess api_root username password h =
           (Inr (User i),
            h @ replicate k (Call (POST (api_root @ ''/users/'') (user_form_data username password)))))
   \<and> (1 \<le> k \<and> k \<le> DEFAULT_RETRY_COUNT
      \<and> (\<forall>m. 1 \<le> m \<and> m < k \<longrightarrow>
            falsy_objects
              (sess (h @ replicate (m - 1) (Call (POST (api_root @ ''/sigmarules/'') (sigmarule_form_data rule_yaml))))
                 (POST (api_root @ ''/sigmarules/'') (sigmarule_form_data rule_yaml))))
      \<and> payload (sess (h @ replicate (k - 1) (Call (POST (api_root @ ''/sigmarules/'') (sigmarule_form_data rule_yaml))))
                    (POST (api_root @ ''/sigmarules/'') (sigmarule_form_data rule_yaml)))
          = Some (JDict d)
      \<and> truthy (objects_of d) \<and> first_object_field (objects_of d) ''rule_uuid'' = Inr u
     \<longrightarrow> create_sigmarule from_rule_uuid sess api_root rule_yaml h =
           get_sigmarule from_rule_uuid u
             (h @ replicate k (Call (POST (api_root @ ''/sigmarules/'') (sigmarule_form_data rule_yaml))))
         \<and> snd (create_sigmarule from_rule_uuid sess api_root rule_yaml h) =
           (h @ replicate k (Call (POST (api_root @ ''/sigmarules/'') (sigmarule_form_data rule_yaml))))
           @ snd (from_rule_uuid u
                   (h @ replicate k (Call (POST (api_root @ ''/sigmarules/'') (sigmarule_form_data rule_yaml))))))"
proof (intro conjI impI)
  let ?req = "GET (api_root @ ''/'' @ uri) params"
  assume a: "1 \<le> k \<and> k \<le> DEFAULT_RETRY_COUNT
      \<and> (\<forall>m. 1 \<le> m \<and> m < k \<longrightarrow> transient_fetch (sess (h @ before_call ?req m) ?req))
      \<and> payload (sess (h @ before_call ?req k) ?req) = Some j \<and> truthy j"
  then obtain k' where k': "k = Suc k'" by (cases k) auto
  from a have f: "\<forall>m. 1 \<le> m \<and> m \<le> k' \<longrightarrow> transient_fetch (sess (h @ before_call ?req m) ?req)"
    by (simp add: k' less_Suc_eq_le)
  from a k' have "k' < DEFAULT_RETRY_COUNT"
    "payload (sess (h @ before_call ?req (Suc k')) ?req) = Some j" "truthy j" by simp_all
  from fetch_accepts [where sess = sess and h = h, OF f this]
  show "fetch_resource_data sess api_root uri params h = (Inr j, h @ schedule ?req k)"
    by (simp add: k')
next
  let ?req = "POST (api_root @ ''/sketches/'') (sketch_form_data name description)"
  assume a: "1 \<le> k \<and> k \<le> DEFAULT_RETRY_COUNT \<and> name \<noteq> []
      \<and> (\<forall>m. 1 \<le> m \<and> m < k \<longrightarrow> transient_sketch (sess (h @ before_call ?req m) ?req))
      \<and> payload (sess (h @ before_call ?req k) ?req) = Some (JDict d)
      \<and> first_object_id (objects_of d) = Some i"
  then obtain k' where k': "k = Suc k'" by (cases k) auto
  from a have f: "\<forall>m. 1 \<le> m \<and> m \<le> k' \<longrightarrow> transient_sketch (sess (h @ before_call ?req m) ?req)"
    by (simp add: k' less_Suc_eq_le)
  from a k' have "k' < DEFAULT_RETRY_COUNT" "name \<noteq> []"
    "payload (sess (h @ before_call ?req (Suc k')) ?req) = Some (JDict d)"
    "first_object_id (objects_of d) = Some i" by simp_all
  from create_sketch_accepts [where sess = sess and h = h, OF f this]
  show "create_sketch sess api_root name description h = (Inr (Sketch i None), h @ schedule ?req k)"
    by (simp add: k' get_sketch_def)
next
  let ?req = "POST (api_root @ ''/searchindices/'') (searchindex_form_data sname oname)"
  assume a: "1 \<le> k \<and> k \<le> DEFAULT_RETRY_COUNT
      \<and> (\<forall>m. 1 \<le> m \<and> m < k \<longrightarrow> transient_create (sess (h @ before_call ?req m) ?req))
      \<and> payload (sess (h @ before_call ?req k) ?req) = Some (JDict d)
      \<and> first_object_id (objects_of d) = Some i"
  then obtain k' where k': "k = Suc k'" by (cases k) auto
  from a have f: "\<forall>m. 1 \<le> m \<and> m \<le> k' \<longrightarrow> transient_create (sess (h @ before_call ?req m) ?req)"
    by (simp add: k' less_Suc_eq_le)
  from a k' have "k' < DEFAULT_RETRY_COUNT"
    "payload (sess (h @ before_call ?req (Suc k')) ?req) = Some (JDict d)"
    "first_object_id (objects_of d) = Some i" by simp_all
  from create_searchindex_accepts [where sess = sess and h = h, OF f this]
  show "create_searchindex sess api_root sname oname h =
          (Inr (SearchIndex i None), h @ schedule ?req k)"
    by (simp add: k')
next
  let ?req = "POST (api_root @ ''/users/'') (user_form_data username password)"
  assume a: "1 \<le> k \<and> k \<le> DEFAULT_RETRY_COUNT
      \<and> (\<forall>m. 1 \<le> m \<and> m < k \<longrightarrow> falsy_objects (sess (h @ replicate (m - 1) (Call ?req)) ?req))
      \<and> payload (sess (h @ replicate (k - 1) (Call ?req)) ?req) = Some (JDict d)
      \<and> truthy (objects_of d) \<and> first_object_field (objects_of d) ''id'' = Inr i"
  then obtain k' where k': "k = Suc k'" by (cases k) auto
  from a have f: "\<forall>m. 1 \<le> m \<and> m \<le> k' \<longrightarrow> falsy_objects (sess (h @ replicate (m - 1) (Call ?req)) ?req)"
    by (simp add: k' less_Suc_eq_le)
  from a k' have "k' < DEFAULT_RETRY_COUNT"
    "payload (sess (h @ replicate k' (Call ?req)) ?req) = Some (JDict d)"
    "truthy (objects_of d)" by simp_all
  from post_until_objects_accepts [where sess = sess and h = h, OF f this] a
  show "create_user sess api_root username password h = (Inr (User i), h @ replicate k (Call ?req))"
    by (simp add: k' create_user_def)
next
  let ?req = "POST (api_root @ ''/sigmarules/'') (sigmarule_form_data rule_yaml)"
  assume a: "1 \<le> k \<and> k \<le> DEFAULT_RETRY_COUNT
      \<and> (\<forall>m. 1 \<le> m \<and> m < k \<longrightarrow> falsy_objects (sess (h @ replicate (m - 1) (Call ?req)) ?req))
      \<and> payload (sess (h @ replicate (k - 1) (Call ?req)) ?req) = Some (JDict d)
      \<and> truthy (objects_of d) \<and> first_object_field (objects_of d) ''rule_uuid'' = Inr u"
  then obtain k' where k': "k = Suc k'" by (cases k) auto
  from a have f: "\<forall>m. 1 \<le> m \<and> m \<le> k' \<longrightarrow> falsy_objects (sess (h @ replicate (m - 1) (Call ?req)) ?req)"
    by (simp add: k' less_Suc_eq_le)
  from a k' have "k' < DEFAULT_RETRY_COUNT"
    "payload (sess (h @ replicate k' (Call ?req)) ?req) = Some (JDict d)"
    "truthy (objects_of d)" by simp_all
  from post_until_objects_accepts [where sess = sess and h = h, OF f this] a
  show r: "create_sigmarule from_rule_uuid sess api_root rule_yaml h =
          get_sigmarule from_rule_uuid u (h @ replicate k (Call ?req))"
    by (simp add: k' create_sigmarule_def)
  show "snd (create_sigmarule from_rule_uuid sess api_root rule_yaml h) =
          (h @ replicate k (Call ?req)) @ snd (from_rule_uuid u (h @ replicate k (Call ?req)))"
    unfolding r by (simp add: get_sigmarule_def split: prod.splits option.splits)
qed

theorem accepted_attempt_ends_retries_witness:
  "(1::nat) \<le> 3 \<and> 3 \<le> DEFAULT_RETRY_COUNT \<and> ''n'' \<noteq> []
   \<and> list_all (\<lambda>m.
         transient_fetch
           (server_after 2 server_down (server_replies created_42)
              (before_call (GET ''http://ts/api/v1/version/'' None) m)
              (GET ''http://ts/api/v1/version/'' None))) [1..<3]
   \<and> payload (server_after 2 server_down (server_replies created_42)
                 (before_call (GET ''http://ts/api/v1/version/'' None) 3)
                 (GET ''http://ts/api/v1/version/'' None)) = Some created_42
   \<and> truthy created_42
   \<and> fetch_resource_data (server_after 2 server_down (server_replies created_42))
         ''http://ts/api/v1'' ''version/'' None [] =
       (Inr created_42, schedule (GET ''http://ts/api/v1/version/'' None) 3)
   \<and> list_all (\<lambda>m.
         transient_sketch
           (server_after 2 server_error (server_replies created_42)
              (before_call (POST ''http://ts/api/v1/sketches/'' (sketch_form_data ''n'' None)) m)
              (POST ''http://ts/api/v1/sketches/'' (sketch_form_data ''n'' None)))) [1..<3]
   \<and> payload (server_after 2 server_error (server_replies created_42)
                 (before_call (POST ''http://ts/api/v1/sketches/'' (sketch_form_data ''n'' None)) 3)
                 (POST ''http://ts/api/v1/sketches/'' (sketch_form_data ''n'' None)))
       = Some (JDict [(''objects'', JList [JDict [(''id'', JInt 42)]])])
   \<and> first_object_id (objects_of [(''objects'', JList [JDict [(''id'', JInt 42)]])]) = Some (JInt 42)
   \<and> create_sketch (server_after 2 server_error (server_replies created_42))
         ''http://ts/api/v1'' ''n'' None [] =
       (Inr (Sketch (JInt 42) None),
        schedule (POST ''http://ts/api/v1/sketches/'' (sketch_form_data ''n'' None)) 3)
   \<and> list_all (\<lambda>m.
         transient_create
           (server_after 2 server_down (server_replies created_42)
              (before_call (POST ''http://ts/api/v1/searchindices/'' (searchindex_form_data ''s'' ''o'')) m)
              (POST ''http://ts/api/v1/searchindices/'' (searchindex_form_data ''s'' ''o'')))) [1..<3]
   \<and> create_searchindex (server_after 2 server_down (server_replies created_42))
         ''http://ts/api/v1'' ''s'' ''o'' [] =
       (Inr (SearchIndex (JInt 42) None),
        schedule (POST ''http://ts/api/v1/searchindices/'' (searchindex_form_data ''s'' ''o'')) 3)
   \<and> list_all (\<lambda>m.
         falsy_objects
           (server_after 2 (server_replies (JDict [(''objects'', JList [])])) (server_replies created_42)
              (replicate (m - 1) (Call (POST ''http://ts/api/v1/users/'' (user_form_data ''u'' ''p''))))
              (POST ''http://ts/api/v1/users/'' (user_form_data ''u'' ''p'')))) [1..<3]
   \<and> truthy (objects_of [(''objects'', JList [JDict [(''id'', JInt 42)]])])
   \<and> first_object_field (objects_of [(''objects'', JList [JDict [(''id'', JInt 42)]])]) ''id''
       = Inr (JInt 42)
   \<and> create_user
         (server_after 2 (server_replies (JDict [(''objects'', JList [])])) (server_replies created_42))
         ''http://ts/api/v1'' ''u'' ''p'' [] =
       (Inr (User (JInt 42)),
        replicate 3 (Call (POST ''http://ts/api/v1/users/'' (user_form_data ''u'' ''p''))))
   \<and> list_all (\<lambda>m.
         falsy_objects
           (server_after 2 (server_replies (JDict [(''objects'', JList [])])) (server_replies created_rule)
              (replicate (m - 1) (Call (POST ''http://ts/api/v1/sigmarules/'' (sigmarule_form_data ''y''))))
              (POST ''http://ts/api/v1/sigmarules/'' (sigmarule_form_data ''y'')))) [1..<3]
   \<and> first_object_field (objects_of [(''objects'', JList [JDict [(''rule_uuid'', JStr ''5266a592'')]])])
         ''rule_uuid'' = Inr (JStr ''5266a592'')
   \<and> create_sigmarule (from_rule_uuid_fetch ''http://ts/api/v1'')
         (server_after 2 (server_replies (JDict [(''objects'', JList [])])) (server_replies created_rule))
         ''http://ts/api/v1'' ''y'' [] =
       (Inr (SigmaRule (JStr ''5266a592'')),
        replicate 3 (Call (POST ''http://ts/api/v1/sigmarules/'' (sigmarule_form_data ''y'')))
        @ [Call (GET ''http://ts/api/v1/sigmarules/5266a592'' None)])"
proof -
  let ?get = "GET ''http://ts/api/v1/version/'' None"
  let ?idx = "POST ''http://ts/api/v1/searchindices/'' (searchindex_form_data ''s'' ''o'')"
  let ?sk = "POST ''http://ts/api/v1/sketches/'' (sketch_form_data ''n'' None)"
  let ?us = "POST ''http://ts/api/v1/users/'' (user_form_data ''u'' ''p'')"
  let ?sg = "POST ''http://ts/api/v1/sigmarules/'' (sigmarule_form_data ''y'')"
  let ?empty = "server_replies (JDict [(''objects'', JList [])])"
  let ?d = "[(''objects'', JList [JDict [(''id'', JInt 42)]])]"
  let ?r = "[(''objects'', JList [JDict [(''rule_uuid'', JStr ''5266a592'')]])]"
  have empty: "\<And>h req. falsy_objects (?empty h req)"
    by (simp add: falsy_objects_def payload_def server_replies_def HTTP_STATUS_CODE_20X_def
        objects_of_def)
  have good: "\<And>j h req. payload (server_replies j h req) = Some j"
    by (simp add: payload_def server_replies_def HTTP_STATUS_CODE_20X_def)
  have k: "(1::nat) \<le> 3" "(3::nat) \<le> DEFAULT_RETRY_COUNT" by (simp_all add: DEFAULT_RETRY_COUNT_def)
  have n: "''n'' \<noteq> []" by simp
  have f1: "\<forall>m. 1 \<le> m \<and> m < 3 \<longrightarrow>
      transient_fetch (server_after 2 server_down (server_replies created_42) (before_call ?get m) ?get)"
    by (auto simp: server_after_def calls_before_call transient_fetch_def connection_error_def
        server_down_def)
  have p1: "payload (server_after 2 server_down (server_replies created_42) (before_call ?get 3) ?get)
      = Some created_42"
    by (simp add: server_after_def calls_before_call good)
  have t1: "truthy created_42" by (simp add: created_42_def)
  have f2: "\<forall>m. 1 \<le> m \<and> m < 3 \<longrightarrow>
      transient_sketch (server_after 2 server_error (server_replies created_42) (before_call ?sk m) ?sk)"
    by (auto simp: server_after_def calls_before_call transient_sketch_def non_20x_status_def
        server_error_def HTTP_STATUS_CODE_20X_def)
  have p2: "payload (server_after 2 server_error (server_replies created_42) (before_call ?sk 3) ?sk)
      = Some (JDict ?d)"
    by (simp add: server_after_def calls_before_call good created_42_def)
  have i2: "first_object_id (objects_of ?d) = Some (JInt 42)" by (simp add: objects_of_def)
  have f3: "\<forall>m. 1 \<le> m \<and> m < 3 \<longrightarrow>
      transient_create (server_after 2 server_down (server_replies created_42) (before_call ?idx m) ?idx)"
    by (auto simp: server_after_def calls_before_call transient_create_def connection_error_def
        server_down_def)
  have p3: "payload (server_after 2 server_down (server_replies created_42) (before_call ?idx 3) ?idx)
      = Some (JDict ?d)"
    by (simp add: server_after_def calls_before_call good created_42_def)
  have f4: "\<forall>m. 1 \<le> m \<and> m < 3 \<longrightarrow>
      falsy_objects (server_after 2 ?empty (server_replies created_42) (replicate (m - 1) (Call ?us)) ?us)"
    by (auto simp: server_after_def calls_replicate empty)
  have p4: "payload (server_after 2 ?empty (server_replies created_42) (replicate (3 - 1) (Call ?us)) ?us)
      = Some (JDict ?d)"
    by (simp add: server_after_def calls_replicate good created_42_def del: replicate.simps)
  have t4: "truthy (objects_of ?d)" by (simp add: objects_of_def)
  have i4: "first_object_field (objects_of ?d) ''id'' = Inr (JInt 42)"
    by (simp add: objects_of_def first_object_field_def)
  have f5: "\<forall>m. 1 \<le> m \<and> m < 3 \<longrightarrow>
      falsy_objects (server_after 2 ?empty (server_replies created_rule) (replicate (m - 1) (Call ?sg)) ?sg)"
    by (auto simp: server_after_def calls_replicate empty)
  have p5: "payload (server_after 2 ?empty (server_replies created_rule) (replicate (3 - 1) (Call ?sg)) ?sg)
      = Some (JDict ?r)"
    by (simp add: server_after_def calls_replicate good created_rule_def del: replicate.simps)
  have t5: "truthy (objects_of ?r)" by (simp add: objects_of_def)
  have i5: "first_object_field (objects_of ?r) ''rule_uuid'' = Inr (JStr ''5266a592'')"
    by (simp add: objects_of_def first_object_field_def)
  have c1: "fetch_resource_data (server_after 2 server_down (server_replies created_42))
         ''http://ts/api/v1'' ''version/'' None [] = (Inr created_42, schedule ?get 3)"
    using accepted_attempt_ends_retries [where k = 3 and h = "[]" and api_root = "''http://ts/api/v1''"
        and sess = "server_after 2 server_down (server_replies created_42)"
        and uri = "''version/''" and params = None and j = created_42] k f1 p1 t1
    by simp
  have c2: "create_sketch (server_after 2 server_error (server_replies created_42))
         ''http://ts/api/v1'' ''n'' None [] = (Inr (Sketch (JInt 42) None), schedule ?sk 3)"
    using accepted_attempt_ends_retries [where k = 3 and h = "[]" and api_root = "''http://ts/api/v1''"
        and sess = "server_after 2 server_error (server_replies created_42)"
        and name = "''n''" and description = None and d = ?d and i = "JInt 42"] k n f2 p2 i2
    by simp
  have c3: "create_searchindex (server_after 2 server_down (server_replies created_42))
         ''http://ts/api/v1'' ''s'' ''o'' [] = (Inr (SearchIndex (JInt 42) None), schedule ?idx 3)"
    using accepted_attempt_ends_retries [where k = 3 and h = "[]" and api_root = "''http://ts/api/v1''"
        and sess = "server_after 2 server_down (server_replies created_42)"
        and sname = "''s''" and oname = "''o''" and d = ?d and i = "JInt 42"] k f3 p3 i2
    by simp
  have c4: "create_user (server_after 2 ?empty (server_replies created_42))
         ''http://ts/api/v1'' ''u'' ''p'' [] = (Inr (User (JInt 42)), replicate 3 (Call ?us))"
    using accepted_attempt_ends_retries [where k = 3 and h = "[]" and api_root = "''http://ts/api/v1''"
        and sess = "server_after 2 ?empty (server_replies created_42)"
        and username = "''u''" and password = "''p''" and d = ?d and i = "JInt 42"] k f4 p4 t4 i4
    by (simp del: replicate.simps)
  have "create_sigmarule (from_rule_uuid_fetch ''http://ts/api/v1'')
          (server_after 2 ?empty (server_replies created_rule)) ''http://ts/api/v1'' ''y'' [] =
        get_sigmarule (from_rule_uuid_fetch ''http://ts/api/v1'') (JStr ''5266a592'')
          (replicate 3 (Call ?sg))"
    using accepted_attempt_ends_retries [where k = 3 and h = "[]" and api_root = "''http://ts/api/v1''"
        and sess = "server_after 2 ?empty (server_replies created_rule)"
        and rule_yaml = "''y''" and d = ?r and u = "JStr ''5266a592''"
        and from_rule_uuid = "from_rule_uuid_fetch ''http://ts/api/v1''"]
      k f5 p5 t5 i5
    by (simp del: replicate.simps)
  then have c5: "create_sigmarule (from_rule_uuid_fetch ''http://ts/api/v1'')
          (server_after 2 ?empty (server_replies created_rule)) ''http://ts/api/v1'' ''y'' [] =
        (Inr (SigmaRule (JStr ''5266a592'')),
         replicate 3 (Call ?sg) @ [Call (GET ''http://ts/api/v1/sigmarules/5266a592'' None)])"
    by (simp add: get_sigmarule_def from_rule_uuid_fetch_def del: replicate.simps)
  have f1_all: "list_all (\<lambda>m.
      transient_fetch (server_after 2 server_down (server_replies created_42) (before_call ?get m) ?get)) [1..<3]"
    using f1 by (auto simp: list_all_iff)
  have f2_all: "list_all (\<lambda>m.
      transient_sketch (server_after 2 server_error (server_replies created_42) (before_call ?sk m) ?sk)) [1..<3]"
    using f2 by (auto simp: list_all_iff)
  have f3_all: "list_all (\<lambda>m.
      transient_create (server_after 2 server_down (server_replies created_42) (before_call ?idx m) ?idx)) [1..<3]"
    using f3 by (auto simp: list_all_iff)
  have f4_all: "list_all (\<lambda>m.
      falsy_objects (server_after 2 ?empty (server_replies created_42) (replicate (m - 1) (Call ?us)) ?us)) [1..<3]"
    using f4 by (auto simp: list_all_iff)
  have f5_all: "list_all (\<lambda>m.
      falsy_objects (server_after 2 ?empty (server_replies created_rule) (replicate (m - 1) (Call ?sg)) ?sg)) [1..<3]"
    using f5 by (auto simp: list_all_iff)
  from k n f1_all p1 t1 c1 f2_all p2 i2 c2 f3_all c3 f4_all t4 i4 c4 f5_all i5 c5 show ?thesis
    by (intro conjI)
qed

text \<open>
  C5 as stated fails for \<open>create_sigmarule\<close>: when its first attempt is accepted and the
  rule is loaded by a GET, that GET follows the successful POST, so the history of the
  call holds two requests.
\<close>

theorem accepted_attempt_ends_retries_counterexample:
  "payload (server_replies created_rule []
       (POST ''http://ts/api/v1/sigmarules/'' (sigmarule_form_data ''y''))) = Some created_rule
   \<and> truthy (objects_of [(''objects'', JList [JDict [(''rule_uuid'', JStr ''5266a592'')]])])
   \<and> create_sigmarule (from_rule_uuid_fetch ''http://ts/api/v1'') (server_replies created_rule)
         ''http://ts/api/v1'' ''y'' [] =
       (Inr (SigmaRule (JStr ''5266a592'')),
        [Call (POST ''http://ts/api/v1/sigmarules/'' (sigmarule_form_data ''y'')),
         Call (GET ''http://ts/api/v1/sigmarules/5266a592'' None)])
   \<and> calls (snd (create_sigmarule (from_rule_uuid_fetch ''http://ts/api/v1'')
                     (server_replies created_rule) ''http://ts/api/v1'' ''y'' [])) = 2"
proof -
  let ?req = "POST ''http://ts/api/v1/sigmarules/'' (sigmarule_form_data ''y'')"
  let ?d = "[(''objects'', JList [JDict [(''rule_uuid'', JStr ''5266a592'')]])]"
  have p: "payload (server_replies created_rule [] ?req) = Some (JDict ?d)"
    by (simp add: payload_def server_replies_def HTTP_STATUS_CODE_20X_def created_rule_def)
  have t: "truthy (objects_of ?d)" by (simp add: objects_of_def)
  from post_until_objects_accept [where sess = "server_replies created_rule" and h = "[]" and a = 0,
      OF p t] p t
  show ?thesis
    by (simp add: create_sigmarule_def first_object_field_def objects_of_def created_rule_def
        get_sigmarule_def from_rule_uuid_fetch_def)
qed

subsection \<open>A falsy payload is tried again\<close>

lemma falsy_no_id: "\<not> truthy j \<Longrightarrow> first_object_id j = None"
  by (cases j rule: first_object_id.cases) simp_all

lemma falsy_objects_rejected: "falsy_objects out \<Longrightarrow> rejected_objects out"
  by (auto simp: falsy_objects_def rejected_objects_def falsy_no_id
      split: option.splits json.splits)

lemma attempts_upto:
  fixes k :: nat
  assumes "\<forall>m. 1 \<le> m \<and> m < k \<longrightarrow> P m" and "P k"
  shows "\<forall>m. 1 \<le> m \<and> m \<le> k \<longrightarrow> P m"
  using assms by (auto simp: le_less)

text \<open>
  C7. Let the attempts before attempt \<open>k\<close>, \<open>1 \<le> k \<le> 5\<close>, have failed in a way the
  method tries again, and let attempt \<open>k\<close> bring a 20x response whose JSON is an object
  with a missing or falsy \<open>objects\<close>, such as \<open>{"objects": []}\<close>. Then
  \<open>create_sketch\<close>, \<open>create_searchindex\<close>, \<open>create_user\<close> and \<open>create_sigmarule\<close> do not
  return at attempt \<open>k\<close>: for \<open>k < 5\<close> attempt \<open>k + 1\<close> is issued, and for \<open>k = 5\<close> the
  method raises. \<open>fetch_resource_data\<close>, whose test is on the whole payload, does the
  same for a falsy payload.
\<close>

theorem falsy_payload_retried:
  "(1 \<le> k \<and> k \<le> DEFAULT_RETRY_COUNT \<and> name \<noteq> []
      \<and> (\<forall>m. 1 \<le> m \<and> m < k \<longrightarrow>
            transient_sketch
              (sess (h @ before_call (POST (api_root @ ''/sketches/'') (sketch_form_data name description)) m)
                 (POST (api_root @ ''/sketches/'') (sketch_form_data name description))))
      \<and> falsy_objects
            (sess (h @ before_call (POST (api_root @ ''/sketches/'') (sketch_form_data name description)) k)
               (POST (api_root @ ''/sketches/'') (sketch_form_data name description)))
     \<longrightarrow> (k < DEFAULT_RETRY_COUNT \<longrightarrow>
            (\<exists>t. snd (create_sketch sess api_root name description h) =
               h @ schedule (POST (api_root @ ''/sketches/'') (sketch_form_data name description)) (Suc k) @ t))
         \<and> (k = DEFAULT_RETRY_COUNT \<longrightarrow>
            (\<exists>e. create_sketch sess api_root name description h =
               (Inl e, h @ schedule (POST (api_root @ ''/sketches/'') (sketch_form_data name description)) k))))
   \<and> (1 \<le> k \<and> k \<le> DEFAULT_RETRY_COUNT
      \<and> (\<forall>m. 1 \<le> m \<and> m < k \<longrightarrow>
            transient_create
              (sess (h @ before_call (POST (api_root @ ''/searchindices/'') (searchindex_form_data sname oname)) m)
                 (POST (api_root @ ''/searchindices/'') (searchindex_form_data sname oname))))
      \<and> falsy_objects
            (sess (h @ before_call (POST (api_root @ ''/searchindices/'') (searchindex_form_data sname oname)) k)
               (POST (api_root @ ''/searchindices/'') (searchindex_form_data sname oname)))
     \<longrightarrow> (k < DEFAULT_RETRY_COUNT \<longrightarrow>
            (\<exists>t. snd (create_searchindex sess api_root sname oname h) =
               h @ schedule (POST (api_root @ ''/searchindices/'') (searchindex_form_data sname oname)) (Suc k) @ t))
         \<and> (k = DEFAULT_RETRY_COUNT \<longrightarrow>
            (\<exists>e. create_searchindex sess api_root sname oname h =
               (Inl e, h @ schedule (POST (api_root @ ''/searchindices/'') (searchindex_form_data sname oname)) k))))
   \<and> (1 \<le> k \<and> k \<le> DEFAULT_RETRY_COUNT
      \<and> (\<forall>m. 1 \<le> m \<and> m \<le> k \<longrightarrow>
            falsy_objects
              (sess (h @ replicate (m - 1) (Call (POST (api_root @ ''/users/'') (user_form_data username password))))
                 (POST (api_root @ ''/users/'') (user_form_data username password))))
     \<longrightarrow> (k < DEFAULT_RETRY_COUNT \<longrightarrow>
            (\<exists>t. snd (create_user sess api_root username password h) =
               h @ replicate (Suc k) (Call (POST (api_root @ ''/users/'') (user_form_data username password))) @ t))
         \<and> (k = DEFAULT_RETRY_COUNT \<longrightarrow>
            (\<exists>e. create_user sess api_root username password h =
               (Inl e, h @ replicate k (Call (POST (api_root @ ''/users/'') (user_form_data username password)))))))
   \<and> (1 \<le> k \<and> k \<le> DEFAULT_RETRY_COUNT
      \<and> (\<forall>m. 1 \<le> m \<and> m \<le> k \<longrightarrow>
            falsy_objects
              (sess (h @ replicate (m - 1) (Call (POST (api_root @ ''/sigmarules/'') (sigmarule_form_data rule_yaml))))
                 (POST (api_root @ ''/sigmarules/'') (sigmarule_form_data rule_yaml))))
     \<longrightarrow> (k < DEFAULT_RETRY_COUNT \<longrightarrow>
            (\<exists>t. snd (create_sigmarule from_rule_uuid sess api_root rule_yaml h) =
               h @ replicate (Suc k) (Call (POST (api_root @ ''/sigmarules/'') (sigmarule_form_data rule_yaml))) @ t))
         \<and> (k = DEFAULT_RETRY_COUNT \<longrightarrow>
            (\<exists>e. create_sigmarule from_rule_uuid sess api_root rule_yaml h =
               (Inl e, h @ replicate k (Call (POST (api_root @ ''/sigmarules/'') (sigmarule_form_data rule_yaml)))))))
   \<and> (1 \<le> k \<and> k \<le> DEFAULT_RETRY_COUNT
      \<and> (\<forall>m. 1 \<le> m \<and> m < k \<longrightarrow>
            transient_fetch (sess (h @ before_call (GET (api_root @ ''/'' @ uri) params) m)
                               (GET (api_root @ ''/'' @ uri) params)))
      \<and> falsy_payload (sess (h @ before_call (GET (api_root @ ''/'' @ uri) params) k)
                          (GET (api_root @ ''/'' @ uri) params))
     \<longrightarrow> (k < DEFAULT_RETRY_COUNT \<longrightarrow>
            (\<exists>t. snd (fetch_resource_data sess api_root uri params h) =
               h @ schedule (GET (api_root @ ''/'' @ uri) params) (Suc k) @ t))
         \<and> (k = DEFAULT_RETRY_COUNT \<longrightarrow>
            (\<exists>e. fetch_resource_data sess api_root uri params h =
               (Inl e, h @ schedule (GET (api_root @ ''/'' @ uri) params) k))))"
proof (intro conjI impI)
  let ?req = "POST (api_root @ ''/sketches/'') (sketch_form_data name description)"
  assume a: "1 \<le> k \<and> k \<le> DEFAULT_RETRY_COUNT \<and> name \<noteq> []
      \<and> (\<forall>m. 1 \<le> m \<and> m < k \<longrightarrow> transient_sketch (sess (h @ before_call ?req m) ?req))
      \<and> falsy_objects (sess (h @ before_call ?req k) ?req)"
  then have "transient_sketch (sess (h @ before_call ?req k) ?req)"
    by (simp add: transient_sketch_def falsy_objects_rejected)
  with a have f: "\<forall>m. 1 \<le> m \<and> m \<le> k \<longrightarrow> transient_sketch (sess (h @ before_call ?req m) ?req)"
    by (intro attempts_upto) simp_all
  from a have n: "name \<noteq> []" by simp
  { assume "k < DEFAULT_RETRY_COUNT"
    from create_sketch_continues [where sess = sess and h = h, OF f this n]
    show "\<exists>t. snd (create_sketch sess api_root name description h) = h @ schedule ?req (Suc k) @ t" . }
  { assume k: "k = DEFAULT_RETRY_COUNT"
    from create_sketch_exhausts [where sess = sess and h = h, OF f [unfolded k] n]
    show "\<exists>e. create_sketch sess api_root name description h = (Inl e, h @ schedule ?req k)"
      by (simp add: k) }
next
  let ?req = "POST (api_root @ ''/searchindices/'') (searchindex_form_data sname oname)"
  assume a: "1 \<le> k \<and> k \<le> DEFAULT_RETRY_COUNT
      \<and> (\<forall>m. 1 \<le> m \<and> m < k \<longrightarrow> transient_create (sess (h @ before_call ?req m) ?req))
      \<and> falsy_objects (sess (h @ before_call ?req k) ?req)"
  then have "transient_create (sess (h @ before_call ?req k) ?req)"
    by (simp add: transient_create_def falsy_objects_rejected)
  with a have f: "\<forall>m. 1 \<le> m \<and> m \<le> k \<longrightarrow> transient_create (sess (h @ before_call ?req m) ?req)"
    by (intro attempts_upto) simp_all
  { assume "k < DEFAULT_RETRY_COUNT"
    from create_searchindex_continues [where sess = sess and h = h, OF f this]
    show "\<exists>t. snd (create_searchindex sess api_root sname oname h) = h @ schedule ?req (Suc k) @ t" . }
  { assume k: "k = DEFAULT_RETRY_COUNT"
    from create_searchindex_exhausts [where sess = sess and h = h, OF f [unfolded k]]
    show "\<exists>e. create_searchindex sess api_root sname oname h = (Inl e, h @ schedule ?req k)"
      by (simp add: k) }
next
  let ?req = "POST (api_root @ ''/users/'') (user_form_data username password)"
  assume a: "1 \<le> k \<and> k \<le> DEFAULT_RETRY_COUNT
      \<and> (\<forall>m. 1 \<le> m \<and> m \<le> k \<longrightarrow> falsy_objects (sess (h @ replicate (m - 1) (Call ?req)) ?req))"
  then have f: "\<forall>m. 1 \<le> m \<and> m \<le> k \<longrightarrow> falsy_objects (sess (h @ replicate (m - 1) (Call ?req)) ?req)"
    by simp
  { assume "k < DEFAULT_RETRY_COUNT"
    from post_until_objects_continues [where sess = sess and h = h, OF f this]
    show "\<exists>t. snd (create_user sess api_root username password h) =
            h @ replicate (Suc k) (Call ?req) @ t"
      by (auto simp: create_user_def split: prod.splits sum.splits) }
  { assume k: "k = DEFAULT_RETRY_COUNT"
    from post_until_objects_exhausts [where sess = sess and h = h, OF f [unfolded k]]
    show "\<exists>e. create_user sess api_root username password h = (Inl e, h @ replicate k (Call ?req))"
      by (simp add: k create_user_def) }
next
  let ?req = "POST (api_root @ ''/sigmarules/'') (sigmarule_form_data rule_yaml)"
  assume a: "1 \<le> k \<and> k \<le> DEFAULT_RETRY_COUNT
      \<and> (\<forall>m. 1 \<le> m \<and> m \<le> k \<longrightarrow> falsy_objects (sess (h @ replicate (m - 1) (Call ?req)) ?req))"
  then have f: "\<forall>m. 1 \<le> m \<and> m \<le> k \<longrightarrow> falsy_objects (sess (h @ replicate (m - 1) (Call ?req)) ?req)"
    by simp
  { assume "k < DEFAULT_RETRY_COUNT"
    from post_until_objects_continues [where sess = sess and h = h, OF f this]
    show "\<exists>t. snd (create_sigmarule from_rule_uuid sess api_root rule_yaml h) =
            h @ replicate (Suc k) (Call ?req) @ t"
      by (auto simp: create_sigmarule_def get_sigmarule_def
          split: prod.splits sum.splits option.splits) }
  { assume k: "k = DEFAULT_RETRY_COUNT"
    from post_until_objects_exhausts [where sess = sess and h = h, OF f [unfolded k]]
    show "\<exists>e. create_sigmarule from_rule_uuid sess api_root rule_yaml h =
            (Inl e, h @ replicate k (Call ?req))"
      by (simp add: k create_sigmarule_def) }
next
  let ?req = "GET (api_root @ ''/'' @ uri) params"
  assume a: "1 \<le> k \<and> k \<le> DEFAULT_RETRY_COUNT
      \<and> (\<forall>m. 1 \<le> m \<and> m < k \<longrightarrow> transient_fetch (sess (h @ before_call ?req m) ?req))
      \<and> falsy_payload (sess (h @ before_call ?req k) ?req)"
  then have "transient_fetch (sess (h @ before_call ?req k) ?req)"
    by (simp add: transient_fetch_def)
  with a have f: "\<forall>m. 1 \<le> m \<and> m \<le> k \<longrightarrow> transient_fetch (sess (h @ before_call ?req m) ?req)"
    by (intro attempts_upto) simp_all
  { assume "k < DEFAULT_RETRY_COUNT"
    from fetch_continues [where sess = sess and h = h, OF f this]
    show "\<exists>t. snd (fetch_resource_data sess api_root uri params h) = h @ schedule ?req (Suc k) @ t" . }
  { assume k: "k = DEFAULT_RETRY_COUNT"
    from fetch_exhausts [where sess = sess and h = h, OF f [unfolded k]]
    show "\<exists>e. fetch_resource_data sess api_root uri params h = (Inl e, h @ schedule ?req k)"
      by (simp add: k) }
qed

theorem falsy_payload_retried_witness:
  "(1::nat) < DEFAULT_RETRY_COUNT
   \<and> (5::nat) = DEFAULT_RETRY_COUNT
   \<and> ''n'' \<noteq> []
   \<and> falsy_objects
              (server_replies empty_objects (before_call (POST ''http://ts/api/v1/sketches/'' (sketch_form_data ''n'' None)) 1)
                 (POST ''http://ts/api/v1/sketches/'' (sketch_form_data ''n'' None)))
   \<and> (\<exists>t. snd (create_sketch (server_replies empty_objects) ''http://ts/api/v1'' ''n'' None []) =
              schedule (POST ''http://ts/api/v1/sketches/'' (sketch_form_data ''n'' None)) (Suc 1) @ t)
   \<and> list_all (\<lambda>m. transient_sketch
              (server_replies empty_objects (before_call (POST ''http://ts/api/v1/sketches/'' (sketch_form_data ''n'' None)) m)
                 (POST ''http://ts/api/v1/sketches/'' (sketch_form_data ''n'' None)))) [1..<5]
   \<and> falsy_objects
              (server_replies empty_objects (before_call (POST ''http://ts/api/v1/sketches/'' (sketch_form_data ''n'' None)) 5)
                 (POST ''http://ts/api/v1/sketches/'' (sketch_form_data ''n'' None)))
   \<and> (\<exists>e. create_sketch (server_replies empty_objects) ''http://ts/api/v1'' ''n'' None [] =
              (Inl e, schedule (POST ''http://ts/api/v1/sketches/'' (sketch_form_data ''n'' None)) 5))
   \<and> falsy_objects
              (server_replies empty_objects (before_call (POST ''http://ts/api/v1/searchindices/'' (searchindex_form_data ''s'' ''o'')) 1)
                 (POST ''http://ts/api/v1/searchindices/'' (searchindex_form_data ''s'' ''o'')))
   \<and> (\<exists>t. snd (create_searchindex (server_replies empty_objects) ''http://ts/api/v1'' ''s'' ''o'' []) =
              schedule (POST ''http://ts/api/v1/searchindices/'' (searchindex_form_data ''s'' ''o'')) (Suc 1) @ t)
   \<and> list_all (\<lambda>m. transient_create
              (server_replies empty_objects (before_call (POST ''http://ts/api/v1/searchindices/'' (searchindex_form_data ''s'' ''o'')) m)
                 (POST ''http://ts/api/v1/searchindices/'' (searchindex_form_data ''s'' ''o'')))) [1..<5]
   \<and> falsy_objects
              (server_replies empty_objects (before_call (POST ''http://ts/api/v1/searchindices/'' (searchindex_form_data ''s'' ''o'')) 5)
                 (POST ''http://ts/api/v1/searchindices/'' (searchindex_form_data ''s'' ''o'')))
   \<and> (\<exists>e. create_searchindex (server_replies empty_objects) ''http://ts/api/v1'' ''s'' ''o'' [] =
              (Inl e, schedule (POST ''http://ts/api/v1/searchindices/'' (searchindex_form_data ''s'' ''o'')) 5))
   \<and> list_all (\<lambda>m. falsy_objects
              (server_replies empty_objects (replicate (m - 1) (Call (POST ''http://ts/api/v1/users/'' (user_form_data ''u'' ''p''))))
                 (POST ''http://ts/api/v1/users/'' (user_form_data ''u'' ''p'')))) [1..<2]
   \<and> (\<exists>t. snd (create_user (server_replies empty_objects) ''http://ts/api/v1'' ''u'' ''p'' []) =
              replicate (Suc 1) (Call (POST ''http://ts/api/v1/users/'' (user_form_data ''u'' ''p''))) @ t)
   \<and> list_all (\<lambda>m. falsy_objects
              (server_replies empty_objects (replicate (m - 1) (Call (POST ''http://ts/api/v1/users/'' (user_form_data ''u'' ''p''))))
                 (POST ''http://ts/api/v1/users/'' (user_form_data ''u'' ''p'')))) [1..<6]
   \<and> (\<exists>e. create_user (server_replies empty_objects) ''http://ts/api/v1'' ''u'' ''p'' [] =
              (Inl e, replicate 5 (Call (POST ''http://ts/api/v1/users/'' (user_form_data ''u'' ''p'')))))
   \<and> list_all (\<lambda>m. falsy_objects
              (server_replies empty_objects (replicate (m - 1) (Call (POST ''http://ts/api/v1/sigmarules/'' (sigmarule_form_data ''y''))))
                 (POST ''http://ts/api/v1/sigmarules/'' (sigmarule_form_data ''y'')))) [1..<2]
   \<and> (\<exists>t. snd (create_sigmarule loads (server_replies empty_objects) ''http://ts/api/v1'' ''y'' []) =
              replicate (Suc 1) (Call (POST ''http://ts/api/v1/sigmarules/'' (sigmarule_form_data ''y''))) @ t)
   \<and> list_all (\<lambda>m. falsy_objects
              (server_replies empty_objects (replicate (m - 1) (Call (POST ''http://ts/api/v1/sigmarules/'' (sigmarule_form_data ''y''))))
                 (POST ''http://ts/api/v1/sigmarules/'' (sigmarule_form_data ''y'')))) [1..<6]
   \<and> (\<exists>e. create_sigmarule loads (server_replies empty_objects) ''http://ts/api/v1'' ''y'' [] =
              (Inl e, replicate 5 (Call (POST ''http://ts/api/v1/sigmarules/'' (sigmarule_form_data ''y'')))))
   \<and> falsy_payload
              (server_replies (JDict []) (before_call (GET ''http://ts/api/v1/version/'' None) 1)
                 (GET ''http://ts/api/v1/version/'' None))
   \<and> (\<exists>t. snd (fetch_resource_data (server_replies (JDict [])) ''http://ts/api/v1'' ''version/'' None []) =
              schedule (GET ''http://ts/api/v1/version/'' None) (Suc 1) @ t)
   \<and> list_all (\<lambda>m. transient_fetch
              (server_replies (JDict []) (before_call (GET ''http://ts/api/v1/version/'' None) m)
                 (GET ''http://ts/api/v1/version/'' None))) [1..<5]
   \<and> falsy_payload
              (server_replies (JDict []) (before_call (GET ''http://ts/api/v1/version/'' None) 5)
                 (GET ''http://ts/api/v1/version/'' None))
   \<and> (\<exists>e. fetch_resource_data (server_replies (JDict [])) ''http://ts/api/v1'' ''version/'' None [] =
              (Inl e, schedule (GET ''http://ts/api/v1/version/'' None) 5))"
proof -
  let ?sk = "POST ''http://ts/api/v1/sketches/'' (sketch_form_data ''n'' None)"
  let ?ix = "POST ''http://ts/api/v1/searchindices/'' (searchindex_form_data ''s'' ''o'')"
  let ?us = "POST ''http://ts/api/v1/users/'' (user_form_data ''u'' ''p'')"
  let ?sg = "POST ''http://ts/api/v1/sigmarules/'' (sigmarule_form_data ''y'')"
  let ?ft = "GET ''http://ts/api/v1/version/'' None"
  have k: "(1::nat) < DEFAULT_RETRY_COUNT" "(5::nat) = DEFAULT_RETRY_COUNT" "''n'' \<noteq> []"
    by (simp_all add: DEFAULT_RETRY_COUNT_def)
  have empty: "\<And>h req. falsy_objects (server_replies empty_objects h req)"
    by (simp add: falsy_objects_def payload_def server_replies_def HTTP_STATUS_CODE_20X_def
        objects_of_def empty_objects_def)
  have rejected: "\<And>h req. transient_sketch (server_replies empty_objects h req)"
    "\<And>h req. transient_create (server_replies empty_objects h req)"
    using empty by (simp_all add: transient_sketch_def transient_create_def falsy_objects_rejected)
  have falsy: "\<And>h req. falsy_payload (server_replies (JDict []) h req)"
    "\<And>h req. transient_fetch (server_replies (JDict []) h req)"
    by (simp_all add: transient_fetch_def falsy_payload_def payload_def server_replies_def
        HTTP_STATUS_CODE_20X_def)
  have h_sk1_0: "\<forall>m. 1 \<le> m \<and> m < 1 \<longrightarrow>
      transient_sketch (server_replies empty_objects (before_call ?sk m) ?sk)"
    by (simp add: empty rejected falsy)
  have h_sk1_1: "falsy_objects
        (server_replies empty_objects (before_call ?sk 1)
           ?sk)"
    by (simp add: empty rejected falsy)
  have c_sk1: "(\<exists>t. snd (create_sketch (server_replies empty_objects) ''http://ts/api/v1'' ''n'' None []) =
        schedule ?sk (Suc 1) @ t)"
    using falsy_payload_retried [where k = 1 and h = "[]" and api_root = "''http://ts/api/v1''"
        and sess = "server_replies empty_objects" and name = "''n''" and description = None]
      h_sk1_0 h_sk1_1
    by (simp add: DEFAULT_RETRY_COUNT_def del: replicate.simps)
  have h_sk5_0: "\<forall>m. 1 \<le> m \<and> m < 5 \<longrightarrow>
      transient_sketch (server_replies empty_objects (before_call ?sk m) ?sk)"
    by (simp add: empty rejected falsy)
  have h_sk5_1: "falsy_objects
        (server_replies empty_objects (before_call ?sk 5)
           ?sk)"
    by (simp add: empty rejected falsy)
  have l_sk5: "list_all (\<lambda>m. transient_sketch
        (server_replies empty_objects (before_call ?sk m)
           ?sk)) [1..<5]"
    by (simp add: list_all_iff empty rejected falsy)
  have c_sk5: "(\<exists>e. create_sketch (server_replies empty_objects) ''http://ts/api/v1'' ''n'' None [] =
        (Inl e, schedule ?sk 5))"
    using falsy_payload_retried [where k = 5 and h = "[]" and api_root = "''http://ts/api/v1''"
        and sess = "server_replies empty_objects" and name = "''n''" and description = None]
      h_sk5_0 h_sk5_1
    by (simp add: DEFAULT_RETRY_COUNT_def del: replicate.simps)
  have h_ix1_0: "\<forall>m. 1 \<le> m \<and> m < 1 \<longrightarrow>
      transient_create (server_replies empty_objects (before_call ?ix m) ?ix)"
    by (simp add: empty rejected falsy)
  have h_ix1_1: "falsy_objects
        (server_replies empty_objects (before_call ?ix 1)
           ?ix)"
    by (simp add: empty rejected falsy)
  have c_ix1: "(\<exists>t. snd (create_searchindex (server_replies empty_objects) ''http://ts/api/v1'' ''s'' ''o'' []) =
        schedule ?ix (Suc 1) @ t)"
    using falsy_payload_retried [where k = 1 and h = "[]" and api_root = "''http://ts/api/v1''"
        and sess = "server_replies empty_objects" and sname = "''s''" and oname = "''o''"]
      h_ix1_0 h_ix1_1
    by (simp add: DEFAULT_RETRY_COUNT_def del: replicate.simps)
  have h_ix5_0: "\<forall>m. 1 \<le> m \<and> m < 5 \<longrightarrow>
      transient_create (server_replies empty_objects (before_call ?ix m) ?ix)"
    by (simp add: empty rejected falsy)
  have h_ix5_1: "falsy_objects
        (server_replies empty_objects (before_call ?ix 5)
           ?ix)"
    by (simp add: empty rejected falsy)
  have l_ix5: "list_all (\<lambda>m. transient_create
        (server_replies empty_objects (before_call ?ix m)
           ?ix)) [1..<5]"
    by (simp add: list_all_iff empty rejected falsy)
  have c_ix5: "(\<exists>e. create_searchindex (server_replies empty_objects) ''http://ts/api/v1'' ''s'' ''o'' [] =
        (Inl e, schedule ?ix 5))"
    using falsy_payload_retried [where k = 5 and h = "[]" and api_root = "''http://ts/api/v1''"
        and sess = "server_replies empty_objects" and sname = "''s''" and oname = "''o''"]
      h_ix5_0 h_ix5_1
    by (simp add: DEFAULT_RETRY_COUNT_def del: replicate.simps)
  have h_us1_0: "\<forall>m. 1 \<le> m \<and> m \<le> 1 \<longrightarrow>
      falsy_objects (server_replies empty_objects (replicate (m - 1) (Call ?us)) ?us)"
    by (simp add: empty rejected falsy)
  have l_us1: "list_all (\<lambda>m. falsy_objects
        (server_replies empty_objects (replicate (m - 1) (Call ?us))
           ?us)) [1..<2]"
    by (simp add: list_all_iff empty rejected falsy)
  have c_us1: "(\<exists>t. snd (create_user (server_replies empty_objects) ''http://ts/api/v1'' ''u'' ''p'' []) =
        replicate (Suc 1) (Call ?us) @ t)"
    using falsy_payload_retried [where k = 1 and h = "[]" and api_root = "''http://ts/api/v1''"
        and sess = "server_replies empty_objects" and username = "''u''" and password = "''p''"]
      h_us1_0
    by (simp add: DEFAULT_RETRY_COUNT_def del: replicate.simps)
  have h_us5_0: "\<forall>m. 1 \<le> m \<and> m \<le> 5 \<longrightarrow>
      falsy_objects (server_replies empty_objects (replicate (m - 1) (Call ?us)) ?us)"
    by (simp add: empty rejected falsy)
  have l_us5: "list_all (\<lambda>m. falsy_objects
        (server_replies empty_objects (replicate (m - 1) (Call ?us))
           ?us)) [1..<6]"
    by (simp add: list_all_iff empty rejected falsy)
  have c_us5: "(\<exists>e. create_user (server_replies empty_objects) ''http://ts/api/v1'' ''u'' ''p'' [] =
        (Inl e, replicate 5 (Call ?us)))"
    using falsy_payload_retried [where k = 5 and h = "[]" and api_root = "''http://ts/api/v1''"
        and sess = "server_replies empty_objects" and username = "''u''" and password = "''p''"]
      h_us5_0
    by (simp add: DEFAULT_RETRY_COUNT_def del: replicate.simps)
  have h_sg1_0: "\<forall>m. 1 \<le> m \<and> m \<le> 1 \<longrightarrow>
      falsy_objects (server_replies empty_objects (replicate (m - 1) (Call ?sg)) ?sg)"
    by (simp add: empty rejected falsy)
  have l_sg1: "list_all (\<lambda>m. falsy_objects
        (server_replies empty_objects (replicate (m - 1) (Call ?sg))
           ?sg)) [1..<2]"
    by (simp add: list_all_iff empty rejected falsy)
  have c_sg1: "(\<exists>t. snd (create_sigmarule loads (server_replies empty_objects) ''http://ts/api/v1'' ''y'' []) =
        replicate (Suc 1) (Call ?sg) @ t)"
    using falsy_payload_retried [where k = 1 and h = "[]" and api_root = "''http://ts/api/v1''"
        and sess = "server_replies empty_objects" and rule_yaml = "''y''" and from_rule_uuid = loads]
      h_sg1_0
    by (simp add: DEFAULT_RETRY_COUNT_def del: replicate.simps)
  have h_sg5_0: "\<forall>m. 1 \<le> m \<and> m \<le> 5 \<longrightarrow>
      falsy_objects (server_replies empty_objects (replicate (m - 1) (Call ?sg)) ?sg)"
    by (simp add: empty rejected falsy)
  have l_sg5: "list_all (\<lambda>m. falsy_objects
        (server_replies empty_objects (replicate (m - 1) (Call ?sg))
           ?sg)) [1..<6]"
    by (simp add: list_all_iff empty rejected falsy)
  have c_sg5: "(\<exists>e. create_sigmarule loads (server_replies empty_objects) ''http://ts/api/v1'' ''y'' [] =
        (Inl e, replicate 5 (Call ?sg)))"
    using falsy_payload_retried [where k = 5 and h = "[]" and api_root = "''http://ts/api/v1''"
        and sess = "server_replies empty_objects" and rule_yaml = "''y''" and from_rule_uuid = loads]
      h_sg5_0
    by (simp add: DEFAULT_RETRY_COUNT_def del: replicate.simps)
  have h_ft1_0: "\<forall>m. 1 \<le> m \<and> m < 1 \<longrightarrow>
      transient_fetch (server_replies (JDict []) (before_call ?ft m) ?ft)"
    by (simp add: empty rejected falsy)
  have h_ft1_1: "falsy_payload
        (server_replies (JDict []) (before_call ?ft 1)
           ?ft)"
    by (simp add: empty rejected falsy)
  have c_ft1: "(\<exists>t. snd (fetch_resource_data (server_replies (JDict [])) ''http://ts/api/v1'' ''version/'' None []) =
        schedule ?ft (Suc 1) @ t)"
    using falsy_payload_retried [where k = 1 and h = "[]" and api_root = "''http://ts/api/v1''"
        and sess = "server_replies (JDict [])" and uri = "''version/''" and params = None]
      h_ft1_0 h_ft1_1
    by (simp add: DEFAULT_RETRY_COUNT_def del: replicate.simps)
  have h_ft5_0: "\<forall>m. 1 \<le> m \<and> m < 5 \<longrightarrow>
      transient_fetch (server_replies (JDict []) (before_call ?ft m) ?ft)"
    by (simp add: empty rejected falsy)
  have h_ft5_1: "falsy_payload
        (server_replies (JDict []) (before_call ?ft 5)
           ?ft)"
    by (simp add: empty rejected falsy)
  have l_ft5: "list_all (\<lambda>m. transient_fetch
        (server_replies (JDict []) (before_call ?ft m)
           ?ft)) [1..<5]"
    by (simp add: list_all_iff empty rejected falsy)
  have c_ft5: "(\<exists>e. fetch_resource_data (server_replies (JDict [])) ''http://ts/api/v1'' ''version/'' None [] =
        (Inl e, schedule ?ft 5))"
    using falsy_payload_retried [where k = 5 and h = "[]" and api_root = "''http://ts/api/v1''"
        and sess = "server_replies (JDict [])" and uri = "''version/''" and params = None]
      h_ft5_0 h_ft5_1
    by (simp add: DEFAULT_RETRY_COUNT_def del: replicate.simps)
  from k h_sk1_1 c_sk1 l_sk5 h_sk5_1 c_sk5 h_ix1_1 c_ix1
    l_ix5 h_ix5_1 c_ix5 l_us1 c_us1 l_us5 c_us5 l_sg1
    c_sg1 l_sg5 c_sg5 h_ft1_1 c_ft1 l_ft5 h_ft5_1 c_ft5
  show ?thesis
    by (intro conjI)
qed

subsection \<open>What a successful create returns\<close>

lemma first_attempt: "before_call req (Suc 0) = []" "schedule req (Suc 0) = [Call req]"
  by (simp_all add: before_call_def schedule_def attempt_events_def sleeps_before_def)

lemma fetch_first_attempt:
  assumes "payload (sess h (GET (api_root @ ''/'' @ uri) params)) = Some j" and "truthy j"
  shows "fetch_resource_data sess api_root uri params h =
           (Inr j, h @ [Call (GET (api_root @ ''/'' @ uri) params)])"
  using fetch_accepts [where sess = sess and h = h and k = 0 and api_root = api_root and uri = uri
      and params = params and j = j] assms
  by (simp add: first_attempt DEFAULT_RETRY_COUNT_def)

lemma create_sketch_first_attempt:
  assumes "payload (sess h (POST (api_root @ ''/sketches/'') (sketch_form_data name description)))
           = Some (JDict d)"
    and "first_object_id (objects_of d) = Some i" and "name \<noteq> []"
  shows "create_sketch sess api_root name description h =
           (Inr (get_sketch i),
            h @ [Call (POST (api_root @ ''/sketches/'') (sketch_form_data name description))])"
  using create_sketch_accepts [where sess = sess and h = h and k = 0 and api_root = api_root
      and name = name and description = description and d = d and i = i] assms
  by (simp add: first_attempt DEFAULT_RETRY_COUNT_def)

lemma create_searchindex_first_attempt:
  assumes "payload (sess h (POST (api_root @ ''/searchindices/'') (searchindex_form_data sname oname)))
           = Some (JDict d)"
    and "first_object_id (objects_of d) = Some i"
  shows "create_searchindex sess api_root sname oname h =
           (Inr (SearchIndex i None),
            h @ [Call (POST (api_root @ ''/searchindices/'') (searchindex_form_data sname oname))])"
  using create_searchindex_accepts [where sess = sess and h = h and k = 0 and api_root = api_root
      and sname = sname and oname = oname and d = d and i = i] assms
  by (simp add: first_attempt DEFAULT_RETRY_COUNT_def)

text \<open>
  C4, as the code has it. When the first POST succeeds with a payload whose
  \<open>objects[0]\<close> is a dict, \<open>create_sketch\<close>, \<open>create_searchindex\<close> and \<open>create_user\<close>
  read \<open>objects[0]["id"]\<close> and return, after that one request, the object that
  \<open>get_sketch\<close>, \<open>get_searchindex\<close> and \<open>get_user\<close> construct for that id; client.py
  issues no request of its own after the POST. \<open>create_sigmarule\<close> does not use the id:
  it reads \<open>objects[0]["rule_uuid"]\<close>, raises KeyError when that key is missing, and
  otherwise returns what \<open>get_sigmarule\<close> gives for the uuid.
\<close>

theorem create_returns_object:
  "(name \<noteq> []
      \<and> payload (sess h (POST (api_root @ ''/sketches/'') (sketch_form_data name description)))
          = Some (JDict d)
      \<and> objects_of d = JList (JDict ob # rest) \<and> map_of ob ''id'' = Some i
     \<longrightarrow> create_sketch sess api_root name description h =
           (Inr (get_sketch i),
            h @ [Call (POST (api_root @ ''/sketches/'') (sketch_form_data name description))]))
   \<and> (payload (sess h (POST (api_root @ ''/searchindices/'') (searchindex_form_data sname oname)))
          = Some (JDict d)
      \<and> objects_of d = JList (JDict ob # rest) \<and> map_of ob ''id'' = Some i
     \<longrightarrow> create_searchindex sess api_root sname oname h =
           (Inr (get_searchindex i),
            h @ [Call (POST (api_root @ ''/searchindices/'') (searchindex_form_data sname oname))]))
   \<and> (payload (sess h (POST (api_root @ ''/users/'') (user_form_data username password)))
          = Some (JDict d)
      \<and> objects_of d = JList (JDict ob # rest) \<and> map_of ob ''id'' = Some i
     \<longrightarrow> create_user sess api_root username password h =
           (Inr (get_user i),
            h @ [Call (POST (api_root @ ''/users/'') (user_form_data username password))]))
   \<and> (payload (sess h (POST (api_root @ ''/sigmarules/'') (sigmarule_form_data rule_yaml)))
          = Some (JDict d)
      \<and> objects_of d = JList (JDict ob # rest)
     \<longrightarrow> create_sigmarule from_rule_uuid sess api_root rule_yaml h =
           (case map_of ob ''rule_uuid'' of
              None \<Rightarrow>
                (Inl KeyError,
                 h @ [Call (POST (api_root @ ''/sigmarules/'') (sigmarule_form_data rule_yaml))])
            | Some u \<Rightarrow>
                get_sigmarule from_rule_uuid u
                  (h @ [Call (POST (api_root @ ''/sigmarules/'') (sigmarule_form_data rule_yaml))])))"
proof (intro conjI impI)
  assume a: "name \<noteq> []
      \<and> payload (sess h (POST (api_root @ ''/sketches/'') (sketch_form_data name description)))
          = Some (JDict d)
      \<and> objects_of d = JList (JDict ob # rest) \<and> map_of ob ''id'' = Some i"
  then have p: "payload (sess h (POST (api_root @ ''/sketches/'') (sketch_form_data name description)))
          = Some (JDict d)"
    and i: "first_object_id (objects_of d) = Some i" and n: "name \<noteq> []" by simp_all
  from create_sketch_first_attempt [where sess = sess and h = h, OF p i n]
  show "create_sketch sess api_root name description h =
           (Inr (get_sketch i),
            h @ [Call (POST (api_root @ ''/sketches/'') (sketch_form_data name description))])" .
next
  assume a: "payload (sess h (POST (api_root @ ''/searchindices/'') (searchindex_form_data sname oname)))
          = Some (JDict d)
      \<and> objects_of d = JList (JDict ob # rest) \<and> map_of ob ''id'' = Some i"
  then have p: "payload (sess h (POST (api_root @ ''/searchindices/'') (searchindex_form_data sname oname)))
          = Some (JDict d)"
    and i: "first_object_id (objects_of d) = Some i" by simp_all
  from create_searchindex_first_attempt [where sess = sess and h = h, OF p i]
  show "create_searchindex sess api_root sname oname h =
           (Inr (get_searchindex i),
            h @ [Call (POST (api_root @ ''/searchindices/'') (searchindex_form_data sname oname))])"
    by (simp add: get_searchindex_def)
next
  let ?req = "POST (api_root @ ''/users/'') (user_form_data username password)"
  assume a: "payload (sess h ?req) = Some (JDict d)
      \<and> objects_of d = JList (JDict ob # rest) \<and> map_of ob ''id'' = Some i"
  then have "payload (sess h ?req) = Some (JDict d)" "truthy (objects_of d)" by simp_all
  from post_until_objects_accept [where sess = sess and h = h and a = 0, OF this] a
  show "create_user sess api_root username password h = (Inr (get_user i), h @ [Call ?req])"
    by (simp add: create_user_def first_object_field_def get_user_def)
next
  let ?req = "POST (api_root @ ''/sigmarules/'') (sigmarule_form_data rule_yaml)"
  assume a: "payload (sess h ?req) = Some (JDict d) \<and> objects_of d = JList (JDict ob # rest)"
  then have "payload (sess h ?req) = Some (JDict d)" "truthy (objects_of d)" by simp_all
  from post_until_objects_accept [where sess = sess and h = h and a = 0, OF this] a
  show "create_sigmarule from_rule_uuid sess api_root rule_yaml h =
           (case map_of ob ''rule_uuid'' of
              None \<Rightarrow> (Inl KeyError, h @ [Call ?req])
            | Some u \<Rightarrow> get_sigmarule from_rule_uuid u (h @ [Call ?req]))"
    by (simp add: create_sigmarule_def first_object_field_def split: option.splits)
qed

theorem create_returns_object_witness:
  "''n'' \<noteq> []
   \<and> payload (server_replies created_42 [] (POST ''http://ts/api/v1/sketches/'' (sketch_form_data ''n'' None)))
       = Some (JDict [(''objects'', JList [JDict [(''id'', JInt 42)]])])
   \<and> objects_of [(''objects'', JList [JDict [(''id'', JInt 42)]])] = JList (JDict [(''id'', JInt 42)] # [])
   \<and> map_of [(''id'', JInt 42)] ''id'' = Some (JInt 42)
   \<and> create_sketch (server_replies created_42) ''http://ts/api/v1'' ''n'' None [] =
       (Inr (Sketch (JInt 42) None),
        [Call (POST ''http://ts/api/v1/sketches/'' (sketch_form_data ''n'' None))])
   \<and> create_searchindex (server_replies created_42) ''http://ts/api/v1'' ''s'' ''o'' [] =
       (Inr (SearchIndex (JInt 42) None),
        [Call (POST ''http://ts/api/v1/searchindices/'' (searchindex_form_data ''s'' ''o''))])
   \<and> create_user (server_replies created_42) ''http://ts/api/v1'' ''u'' ''p'' [] =
       (Inr (User (JInt 42)), [Call (POST ''http://ts/api/v1/users/'' (user_form_data ''u'' ''p''))])
   \<and> payload (server_replies created_rule [] (POST ''http://ts/api/v1/sigmarules/'' (sigmarule_form_data ''y'')))
       = Some (JDict [(''objects'', JList [JDict [(''rule_uuid'', JStr ''5266a592'')]])])
   \<and> create_sigmarule loads (server_replies created_rule) ''http://ts/api/v1'' ''y'' [] =
       (Inr (SigmaRule (JStr ''5266a592'')),
        [Call (POST ''http://ts/api/v1/sigmarules/'' (sigmarule_form_data ''y''))])"
proof -
  have good: "\<And>j h req. payload (server_replies j h req) = Some j"
    by (simp add: payload_def server_replies_def HTTP_STATUS_CODE_20X_def)
  show ?thesis
    using create_returns_object [where sess = "server_replies created_42" and h = "[]"
        and api_root = "''http://ts/api/v1''" and name = "''n''" and description = None
        and sname = "''s''" and oname = "''o''" and username = "''u''" and password = "''p''"
        and d = "[(''objects'', JList [JDict [(''id'', JInt 42)]])]"
        and ob = "[(''id'', JInt 42)]" and rest = "[]" and i = "JInt 42"]
      create_returns_object [where sess = "server_replies created_rule" and h = "[]"
        and api_root = "''http://ts/api/v1''" and rule_yaml = "''y''" and from_rule_uuid = loads
        and d = "[(''objects'', JList [JDict [(''rule_uuid'', JStr ''5266a592'')]])]"
        and ob = "[(''rule_uuid'', JStr ''5266a592'')]" and rest = "[]"]
    by (simp add: good created_42_def created_rule_def objects_of_def get_sketch_def
        get_searchindex_def get_user_def get_sigmarule_def loads_def)
qed

text \<open>
  C4 as stated fails: given the payload \<open>{"objects": [{"id": 42}]}\<close>, \<open>create_sigmarule\<close>
  raises KeyError after its POST instead of fetching anything by the id 42.
\<close>

theorem create_returns_object_counterexample:
  "payload (server_replies created_42 [] (POST ''http://ts/api/v1/sigmarules/'' (sigmarule_form_data ''y'')))
     = Some created_42
   \<and> first_object_field (objects_of [(''objects'', JList [JDict [(''id'', JInt 42)]])]) ''id''
       = Inr (JInt 42)
   \<and> create_sigmarule loads (server_replies created_42) ''http://ts/api/v1'' ''y'' [] =
       (Inl KeyError, [Call (POST ''http://ts/api/v1/sigmarules/'' (sigmarule_form_data ''y''))])"
proof -
  let ?req = "POST ''http://ts/api/v1/sigmarules/'' (sigmarule_form_data ''y'')"
  let ?d = "[(''objects'', JList [JDict [(''id'', JInt 42)]])]"
  have p: "payload (server_replies created_42 [] ?req) = Some (JDict ?d)"
    by (simp add: payload_def server_replies_def HTTP_STATUS_CODE_20X_def created_42_def)
  have t: "truthy (objects_of ?d)" by (simp add: objects_of_def)
  from post_until_objects_accept [where sess = "server_replies created_42" and h = "[]" and a = 0,
      OF p t] p
  show ?thesis
    by (simp add: create_sigmarule_def first_object_field_def objects_of_def created_42_def)
qed

subsection \<open>Empty input\<close>

text \<open>
  C6, as the code has it. \<open>create_sketch\<close> with an empty name and
  \<open>parse_sigmarule_by_text\<close> with an empty rule text raise ValueError and leave the
  history as it was: no request is made and no loop is entered. \<open>create_sigmarule\<close> has
  no such check: with an empty \<open>rule_yaml\<close> its first step is the POST of that empty text.
\<close>

theorem empty_input_raises:
  "create_sketch sess api_root [] description h = (Inl ValueError, h)
   \<and> parse_sigmarule_by_text from_text [] h = (Inl ValueError, h)
   \<and> (\<exists>t. snd (create_sigmarule from_rule_uuid sess api_root [] h) =
          h @ Call (POST (api_root @ ''/sigmarules/'') (sigmarule_form_data [])) # t)"
proof (intro conjI)
  show "create_sketch sess api_root [] description h = (Inl ValueError, h)"
    by (simp add: create_sketch_def)
  show "parse_sigmarule_by_text from_text [] h = (Inl ValueError, h)"
    by (simp add: parse_sigmarule_by_text_def)
  have "0 < DEFAULT_RETRY_COUNT" by (simp add: DEFAULT_RETRY_COUNT_def)
  from post_until_objects_history [OF this, of sess "api_root @ ''/sigmarules/''"
      "sigmarule_form_data []" h]
  obtain k where "0 < k" and "snd (post_until_objects sess (api_root @ ''/sigmarules/'')
        (sigmarule_form_data []) 0 h) =
      h @ replicate k (Call (POST (api_root @ ''/sigmarules/'') (sigmarule_form_data [])))"
    by auto
  then obtain t where "snd (post_until_objects sess (api_root @ ''/sigmarules/'')
        (sigmarule_form_data []) 0 h) =
      h @ Call (POST (api_root @ ''/sigmarules/'') (sigmarule_form_data [])) # t"
    by (cases k) auto
  then show "\<exists>t. snd (create_sigmarule from_rule_uuid sess api_root [] h) =
          h @ Call (POST (api_root @ ''/sigmarules/'') (sigmarule_form_data [])) # t"
    by (auto simp: create_sigmarule_def get_sigmarule_def
        split: prod.splits sum.splits option.splits)
qed

text \<open>
  C6 as stated fails for the rule text of \<open>create_sigmarule\<close>: called with an empty
  \<open>rule_yaml\<close> it sends the request, and the error it ends with is the server's answer.
\<close>

theorem empty_input_counterexample:
  "create_sigmarule loads server_error ''http://ts/api/v1'' [] [] =
     (Inl RuntimeError, [Call (POST ''http://ts/api/v1/sigmarules/'' (sigmarule_form_data []))])
   \<and> calls (snd (create_sigmarule loads server_error ''http://ts/api/v1'' [] [])) = 1"
proof -
  have "decoded (server_error [] (POST ''http://ts/api/v1/sigmarules/'' (sigmarule_form_data [])))
        = Inl RuntimeError"
    by (simp add: decoded_def server_error_def get_response_json_def HTTP_STATUS_CODE_20X_def)
  from post_until_objects_raise [where sess = server_error and h = "[]" and a = 0, OF this]
  show ?thesis
    by (simp add: create_sigmarule_def)
qed

subsection \<open>The listings of users and of search indices\<close>

lemma yield_users_Cons:
  "user_of_entry u = Some x \<Longrightarrow>
   yield_users (u # us) = (x # fst (yield_users us), snd (yield_users us))"
  by (cases "getitem u ''id''") (simp_all add: user_of_entry_def split: prod.splits)

lemma yield_users_stop: "user_of_entry u = None \<Longrightarrow> fst (yield_users (u # us)) = []"
  by (cases "getitem u ''id''") (simp_all add: user_of_entry_def)

lemma yield_users_items:
  "fst (yield_users us) =
     List.map_filter user_of_entry (takeWhile (\<lambda>u. user_of_entry u \<noteq> None) us)"
proof (induction us)
  case Nil
  show ?case by simp
next
  case (Cons u us)
  show ?case
  proof (cases "user_of_entry u")
    case None
    then show ?thesis by (simp add: yield_users_stop del: yield_users.simps)
  next
    case (Some x)
    then show ?thesis using Cons.IH by (simp add: yield_users_Cons del: yield_users.simps)
  qed
qed

lemma yield_users_all:
  "list_all (\<lambda>u. user_of_entry u \<noteq> None) us \<Longrightarrow>
   yield_users us = (List.map_filter user_of_entry us, None)"
proof (induction us)
  case Nil
  show ?case by simp
next
  case (Cons u us)
  then obtain x where "user_of_entry u = Some x" by auto
  with Cons show ?case by (simp add: yield_users_Cons del: yield_users.simps)
qed

lemma yield_users_strings: "fst (yield_users (map (\<lambda>x. JStr (f x)) xs)) = []"
  by (cases xs) (simp_all add: yield_users_stop user_of_entry_def del: yield_users.simps(2))

lemma py_iter_users:
  assumes "py_iter x = Inr us" and "fst (yield_users us) \<noteq> []"
  shows "x = JList us"
proof (cases x)
  case (JList xs)
  with assms show ?thesis by simp
next
  case (JDict kvs)
  with assms(1) have "us = map (\<lambda>kv. JStr (fst kv)) kvs" by simp
  with assms(2) show ?thesis by (simp add: yield_users_strings del: yield_users.simps)
next
  case (JStr cs)
  with assms(1) have "us = map (\<lambda>c. JStr [c]) cs" by simp
  with assms(2) show ?thesis by (simp add: yield_users_strings del: yield_users.simps)
qed (use assms in simp_all)

lemma index0_list:
  assumes "index0 objects = Inr (JList us)"
  shows "\<exists>rest. objects = JList (JList us # rest)"
  using assms by (cases objects rule: index0.cases) simp_all

text \<open>
  C9. Let \<open>fetch_resource_data("users/")\<close> return a JSON object. If its \<open>objects\<close> is
  missing (so that the default \<open>[]\<close> is taken) or is the empty list, consuming
  \<open>list_users\<close> raises IndexError before anything is yielded. If \<open>objects[0]\<close> is a list
  of dicts that each hold an \<open>id\<close>, the generator yields the User of each, in order, and
  ends. And whenever it yields anything at all, \<open>objects\<close> is a list whose first element
  is itself a list, and what is yielded are the Users of the leading entries of that
  list that hold an \<open>id\<close>.
\<close>

theorem list_users_first_object:
  "fetch_resource_data sess api_root ''users/'' None h = (Inr (JDict d), h') \<longrightarrow>
     (map_of d ''objects'' = None \<or> map_of d ''objects'' = Some (JList [])
        \<longrightarrow> list_users sess api_root h = (([], Some IndexError), h'))
     \<and> (map_of d ''objects'' = Some (JList (JList us # rest))
          \<and> list_all (\<lambda>u. user_of_entry u \<noteq> None) us
        \<longrightarrow> list_users sess api_root h = ((List.map_filter user_of_entry us, None), h'))
     \<and> (fst (fst (list_users sess api_root h)) \<noteq> []
        \<longrightarrow> (\<exists>us' rest'. map_of d ''objects'' = Some (JList (JList us' # rest'))
              \<and> fst (fst (list_users sess api_root h)) =
                  List.map_filter user_of_entry (takeWhile (\<lambda>u. user_of_entry u \<noteq> None) us')))"
proof (intro impI conjI)
  assume f: "fetch_resource_data sess api_root ''users/'' None h = (Inr (JDict d), h')"
  { assume "map_of d ''objects'' = None \<or> map_of d ''objects'' = Some (JList [])"
    then show "list_users sess api_root h = (([], Some IndexError), h')"
      using f by (auto simp: list_users_def) }
  { assume "map_of d ''objects'' = Some (JList (JList us # rest))
          \<and> list_all (\<lambda>u. user_of_entry u \<noteq> None) us"
    then show "list_users sess api_root h = ((List.map_filter user_of_entry us, None), h')"
      using f by (simp add: list_users_def yield_users_all) }
  { let ?objects = "case map_of d ''objects'' of None \<Rightarrow> JList [] | Some v \<Rightarrow> v"
    assume y: "fst (fst (list_users sess api_root h)) \<noteq> []"
    then obtain users where u: "index0 ?objects = Inr users"
      using f by (cases "index0 ?objects") (simp_all add: list_users_def)
    with y obtain us' where i: "py_iter users = Inr us'"
      using f by (cases "py_iter users") (simp_all add: list_users_def)
    with u f have l: "list_users sess api_root h = (yield_users us', h')"
      by (simp add: list_users_def)
    with y i have "users = JList us'" by (intro py_iter_users) simp_all
    with u obtain rest' where r: "?objects = JList (JList us' # rest')"
      using index0_list by blast
    then have "map_of d ''objects'' = Some (JList (JList us' # rest'))"
      by (cases "map_of d ''objects''") simp_all
    with l show "\<exists>us' rest'. map_of d ''objects'' = Some (JList (JList us' # rest'))
        \<and> fst (fst (list_users sess api_root h)) =
            List.map_filter user_of_entry (takeWhile (\<lambda>u. user_of_entry u \<noteq> None) us')"
      by (auto simp: yield_users_items) }
qed

theorem list_users_first_object_witness:
  "fetch_resource_data (server_replies no_objects) ''http://ts/api/v1'' ''users/'' None [] =
     (Inr (JDict [(''meta'', JDict [])]), [Call (GET ''http://ts/api/v1/users/'' None)])
   \<and> map_of [(''meta'', JDict [])] ''objects'' = None
   \<and> list_users (server_replies no_objects) ''http://ts/api/v1'' [] =
       (([], Some IndexError), [Call (GET ''http://ts/api/v1/users/'' None)])
   \<and> fetch_resource_data (server_replies two_users) ''http://ts/api/v1'' ''users/'' None [] =
       (Inr (JDict [(''objects'', JList [JList [JDict [(''id'', JInt 1)], JDict [(''id'', JInt 2)]]])]),
        [Call (GET ''http://ts/api/v1/users/'' None)])
   \<and> list_all (\<lambda>u. user_of_entry u \<noteq> None) [JDict [(''id'', JInt 1)], JDict [(''id'', JInt 2)]]
   \<and> list_users (server_replies two_users) ''http://ts/api/v1'' [] =
       (([User (JInt 1), User (JInt 2)], None), [Call (GET ''http://ts/api/v1/users/'' None)])
   \<and> fst (fst (list_users (server_replies two_users) ''http://ts/api/v1'' [])) \<noteq> []"
proof -
  let ?us = "[JDict [(''id'', JInt 1)], JDict [(''id'', JInt 2)]]"
  let ?d2 = "[(''objects'', JList [JList ?us])]"
  let ?h' = "[Call (GET ''http://ts/api/v1/users/'' None)]"
  have good: "\<And>j h req. payload (server_replies j h req) = Some j"
    by (simp add: payload_def server_replies_def HTTP_STATUS_CODE_20X_def)
  have "truthy no_objects" "truthy two_users" by (simp_all add: no_objects_def two_users_def)
  from this [THEN fetch_first_attempt [OF good]]
  have f1: "fetch_resource_data (server_replies no_objects) ''http://ts/api/v1'' ''users/'' None [] =
     (Inr (JDict [(''meta'', JDict [])]), ?h')"
    and f2: "fetch_resource_data (server_replies two_users) ''http://ts/api/v1'' ''users/'' None [] =
     (Inr (JDict ?d2), ?h')"
    by (simp_all add: no_objects_def two_users_def)
  have m1: "map_of [(''meta'', JDict [])] ''objects'' = None" by simp
  have o2: "map_of ?d2 ''objects'' = Some (JList (JList ?us # []))" by simp
  have a2: "list_all (\<lambda>u. user_of_entry u \<noteq> None) ?us"
    by (simp add: user_of_entry_def)
  note T1 = list_users_first_object [where sess = "server_replies no_objects" and h = "[]"
        and api_root = "''http://ts/api/v1''" and d = "[(''meta'', JDict [])]" and h' = ?h',
        THEN mp, OF f1]
  note T2 = list_users_first_object [where sess = "server_replies two_users" and h = "[]"
        and api_root = "''http://ts/api/v1''" and d = ?d2 and us = ?us and rest = "[]"
        and h' = ?h', THEN mp, OF f2]
  have c1: "list_users (server_replies no_objects) ''http://ts/api/v1'' [] =
       (([], Some IndexError), ?h')"
    by (rule T1 [THEN conjunct1, THEN mp, OF disjI1 [OF m1]])
  have "list_users (server_replies two_users) ''http://ts/api/v1'' [] =
       ((List.map_filter user_of_entry ?us, None), ?h')"
    by (rule T2 [THEN conjunct2, THEN conjunct1, THEN mp, OF conjI [OF o2 a2]])
  then have c2: "list_users (server_replies two_users) ''http://ts/api/v1'' [] =
       (([User (JInt 1), User (JInt 2)], None), ?h')"
    by (simp add: user_of_entry_def)
  then have y2: "fst (fst (list_users (server_replies two_users) ''http://ts/api/v1'' [])) \<noteq> []"
    by simp
  from f1 m1 c1 f2 a2 c2 y2 show ?thesis by (intro conjI)
qed

text \<open>
  C10. Let \<open>fetch_resource_data("searchindices/")\<close> return a JSON object whose
  \<open>objects\<close> is missing or falsy. Then the generator \<open>list_searchindices\<close> yields exactly
  one item, the value \<open>None\<close>, and ends.
\<close>

theorem list_searchindices_yields_none:
  "fetch_resource_data sess api_root ''searchindices/'' None h = (Inr (JDict d), h')
     \<and> \<not> truthy (objects_of d)
   \<longrightarrow> list_searchindices sess api_root h = (([None], None), h')"
  by (simp add: list_searchindices_def objects_of_def)

theorem list_searchindices_yields_none_witness:
  "fetch_resource_data (server_replies no_objects) ''http://ts/api/v1'' ''searchindices/'' None [] =
     (Inr (JDict [(''meta'', JDict [])]), [Call (GET ''http://ts/api/v1/searchindices/'' None)])
   \<and> \<not> truthy (objects_of [(''meta'', JDict [])])
   \<and> list_searchindices (server_replies no_objects) ''http://ts/api/v1'' [] =
       (([None], None), [Call (GET ''http://ts/api/v1/searchindices/'' None)])"
proof -
  have good: "\<And>j h req. payload (server_replies j h req) = Some j"
    by (simp add: payload_def server_replies_def HTTP_STATUS_CODE_20X_def)
  have f: "fetch_resource_data (server_replies no_objects) ''http://ts/api/v1'' ''searchindices/'' None [] =
     (Inr (JDict [(''meta'', JDict [])]), [Call (GET ''http://ts/api/v1/searchindices/'' None)])"
    using fetch_first_attempt [where sess = "server_replies no_objects" and h = "[]"
        and api_root = "''http://ts/api/v1''" and uri = "''searchindices/''" and params = None
        and j = no_objects]
    by (simp add: good no_objects_def)
  have t: "\<not> truthy (objects_of [(''meta'', JDict [])])" by (simp add: objects_of_def)
  from list_searchindices_yields_none [where sess = "server_replies no_objects" and h = "[]"
      and api_root = "''http://ts/api/v1''" and d = "[(''meta'', JDict [])]"
      and h' = "[Call (GET ''http://ts/api/v1/searchindices/'' None)]"] f t
  have "list_searchindices (server_replies no_objects) ''http://ts/api/v1'' [] =
       (([None], None), [Call (GET ''http://ts/api/v1/searchindices/'' None)])"
    by simp
  with f t show ?thesis by (intro conjI)
qed

subsection \<open>The paginated listing of sketches\<close>

lemma setitem_fresh: "key \<notin> fst ` set d \<Longrightarrow> setitem d key v = d @ [(key, v)]"
  by (induction d) auto

lemma setitem_last: "key \<notin> fst ` set d \<Longrightarrow> setitem (d @ [(key, w)]) key v = d @ [(key, v)]"
  by (induction d) auto

lemma yield_sketches_Cons:
  "sketch_of_entry e = Some x \<Longrightarrow>
   yield_sketches (e # es) = (x # fst (yield_sketches es), snd (yield_sketches es))"
  by (cases "getitem e ''id''"; cases "getitem e ''name''")
     (simp_all add: sketch_of_entry_def split: prod.splits)

lemma yield_sketches_all:
  "list_all (\<lambda>e. sketch_of_entry e \<noteq> None) es \<Longrightarrow>
   yield_sketches es = (List.map_filter sketch_of_entry es, None)"
proof (induction es)
  case Nil
  show ?case by simp
next
  case (Cons e es)
  then obtain x where "sketch_of_entry e = Some x" by auto
  with Cons show ?case by (simp add: yield_sketches_Cons del: yield_sketches.simps)
qed

lemma next_page_ofD:
  assumes "next_page_of r = Some np"
  obtains meta where "py_get r ''meta'' (JDict []) = Inr meta"
    and "py_get meta ''next_page'' JNull = Inr np"
  using assms by (auto simp: next_page_of_def split: sum.splits)

lemma entries_ofD:
  assumes "entries_of r = Some xs"
  shows "py_get r ''objects'' (JList []) = Inr (JList xs)"
  using assms by (auto simp: entries_of_def split: sum.splits json.splits)

lemma list_sketches_loop_step:
  assumes f: "fetch_resource_data sess api_root ''sketches/''
                (Some (setitem url_params ''page'' page)) h = (Inr r, h1)"
    and wf: "well_formed_page r" and np: "next_page_of r = Some np"
  shows "list_sketches_loop sess api_root url_params page h =
     (if truthy np then
        Option.bind (list_sketches_loop sess api_root (setitem url_params ''page'' page) np h1)
          (\<lambda>res. Some ((page_sketches r @ fst (fst res), snd (fst res)), snd res))
      else Some ((page_sketches r, None), h1))"
proof -
  from np obtain meta where m: "py_get r ''meta'' (JDict []) = Inr meta"
    "py_get meta ''next_page'' JNull = Inr np"
    by (rule next_page_ofD)
  from wf obtain xs where xs: "entries_of r = Some xs"
    "list_all (\<lambda>e. sketch_of_entry e \<noteq> None) xs"
    by (auto simp: well_formed_page_def split: option.splits)
  note o = entries_ofD [OF xs(1)]
  note y = yield_sketches_all [OF xs(2)]
  show ?thesis
    by (subst list_sketches_loop.simps) (simp add: f m o y xs page_sketches_def)
qed

lemma list_sketches_loop_pages:
  assumes fresh: "''page'' \<notin> fst ` set base"
    and served: "\<forall>h p. p \<in> set (p0 # ps) \<longrightarrow>
        payload (sess h (GET (api_root @ ''/'' @ ''sketches/'') (Some (base @ [(''page'', p)]))))
        = Some (data p)"
    and wf: "list_all (\<lambda>p. well_formed_page (data p)) (p0 # ps)"
    and chain: "page_chain data (p0 # ps)"
    and up: "url_params = base \<or> (\<exists>q. url_params = base @ [(''page'', q)])"
  shows "list_sketches_loop sess api_root url_params p0 h =
     Some ((concat (map (\<lambda>p. page_sketches (data p)) (p0 # ps)), None),
           h @ map (\<lambda>p. Call (GET (api_root @ ''/'' @ ''sketches/'') (Some (base @ [(''page'', p)]))))
                 (p0 # ps))"
  using served wf chain up
proof (induction ps arbitrary: p0 url_params h)
  case Nil
  let ?req = "GET (api_root @ ''/'' @ ''sketches/'') (Some (base @ [(''page'', p0)]))"
  from Nil.prems(4) fresh have sp: "setitem url_params ''page'' p0 = base @ [(''page'', p0)]"
    by (auto simp: setitem_fresh setitem_last)
  from Nil.prems(1) have p: "payload (sess h ?req) = Some (data p0)" by simp
  from Nil.prems(2) have w: "well_formed_page (data p0)" by simp
  then have t: "truthy (data p0)" by (simp add: well_formed_page_def)
  from Nil.prems(3) obtain np where np: "next_page_of (data p0) = Some np" "\<not> truthy np"
    by (auto split: option.splits)
  from fetch_first_attempt [where sess = sess and h = h and api_root = api_root
      and uri = "''sketches/''", OF p t]
  have "fetch_resource_data sess api_root ''sketches/'' (Some (setitem url_params ''page'' p0)) h
        = (Inr (data p0), h @ [Call ?req])"
    by (simp add: sp)
  from list_sketches_loop_step [OF this w np(1)] np(2) show ?case by simp
next
  case (Cons q ps)
  let ?req = "GET (api_root @ ''/'' @ ''sketches/'') (Some (base @ [(''page'', p0)]))"
  from Cons.prems(4) fresh have sp: "setitem url_params ''page'' p0 = base @ [(''page'', p0)]"
    by (auto simp: setitem_fresh setitem_last)
  from Cons.prems(1) have p: "payload (sess h ?req) = Some (data p0)" by simp
  from Cons.prems(2) have w: "well_formed_page (data p0)" by simp
  then have t: "truthy (data p0)" by (simp add: well_formed_page_def)
  from Cons.prems(3) have np: "next_page_of (data p0) = Some q" "truthy q"
    and chain': "page_chain data (q # ps)"
    by simp_all
  from fetch_first_attempt [where sess = sess and h = h and api_root = api_root
      and uri = "''sketches/''", OF p t]
  have "fetch_resource_data sess api_root ''sketches/'' (Some (setitem url_params ''page'' p0)) h
        = (Inr (data p0), h @ [Call ?req])"
    by (simp add: sp)
  note step = list_sketches_loop_step [OF this w np(1)]
  have served': "\<forall>h p. p \<in> set (q # ps) \<longrightarrow>
        payload (sess h (GET (api_root @ ''/'' @ ''sketches/'') (Some (base @ [(''page'', p)]))))
        = Some (data p)"
    using Cons.prems(1) by simp
  have wf': "list_all (\<lambda>p. well_formed_page (data p)) (q # ps)"
    using Cons.prems(2) by simp
  have up': "base @ [(''page'', p0)] = base \<or> (\<exists>q. base @ [(''page'', p0)] = base @ [(''page'', q)])"
    by simp
  note IH = Cons.IH [OF served' wf' chain' up', of "h @ [Call ?req]"]
  show ?case
    using step np(2) IH by (simp add: sp)
qed

lemma page_sketches_entries:
  assumes "well_formed_page r"
  shows "\<exists>es. entries_of r = Some es \<and> map Some (page_sketches r) = map sketch_of_entry es"
proof -
  from assms obtain es where es: "entries_of r = Some es"
    "list_all (\<lambda>e. sketch_of_entry e \<noteq> None) es"
    by (auto simp: well_formed_page_def split: option.splits)
  from es(2) have "map Some (List.map_filter sketch_of_entry es) = map sketch_of_entry es"
    by (induction es) auto
  with es(1) show ?thesis by (simp add: page_sketches_def)
qed

text \<open>
  C8. Let \<open>ps\<close> be the pages of a dataset in the order the server links them, the first
  of them page 1, each response well formed, and let the server answer the request for
  a page with that page's response whatever happened before (the dataset does not
  change). Then a fully consumed \<open>list_sketches\<close> ends normally; it has issued one GET
  per page of \<open>ps\<close>, in order and beginning with page 1, and none after the page whose
  \<open>meta.next_page\<close> is absent or falsy; and it has yielded, page after page, one Sketch
  for each entry of the page's \<open>objects\<close>. A second call, started from any other
  history, yields the same Sketch objects, hence the same ids, in the same order.
\<close>

theorem list_sketches_paginates:
  "hd ps = JInt 1 \<and> page_chain data ps \<and> list_all (\<lambda>p. well_formed_page (data p)) ps
     \<and> (\<forall>h p. p \<in> set ps \<longrightarrow>
           payload (sess h (sketches_request api_root per_page scope include_archived p))
           = Some (data p))
   \<longrightarrow> list_sketches sess api_root per_page scope include_archived h =
         Some ((concat (map (\<lambda>p. page_sketches (data p)) ps), None),
               h @ map (\<lambda>p. Call (sketches_request api_root per_page scope include_archived p)) ps)
       \<and> list_sketches sess api_root per_page scope include_archived h' =
         Some ((concat (map (\<lambda>p. page_sketches (data p)) ps), None),
               h' @ map (\<lambda>p. Call (sketches_request api_root per_page scope include_archived p)) ps)
       \<and> (\<forall>p \<in> set ps. \<exists>es. entries_of (data p) = Some es
              \<and> map Some (page_sketches (data p)) = map sketch_of_entry es)
       \<and> map resource_id (fst (fst (the (list_sketches sess api_root per_page scope include_archived h))))
           = map resource_id (fst (fst (the (list_sketches sess api_root per_page scope include_archived h'))))"
proof (intro impI)
  let ?base = "[(''per_page'', JInt per_page), (''scope'', JStr scope),
                (''include_archived'', JBool include_archived)]"
  assume a: "hd ps = JInt 1 \<and> page_chain data ps \<and> list_all (\<lambda>p. well_formed_page (data p)) ps
     \<and> (\<forall>h p. p \<in> set ps \<longrightarrow>
           payload (sess h (sketches_request api_root per_page scope include_archived p))
           = Some (data p))"
  then obtain qs where ps: "ps = JInt 1 # qs"
    by (cases ps) auto
  have fresh: "''page'' \<notin> fst ` set ?base" by simp
  from a have served: "\<forall>h p. p \<in> set (JInt 1 # qs) \<longrightarrow>
        payload (sess h (GET (api_root @ ''/'' @ ''sketches/'') (Some (?base @ [(''page'', p)]))))
        = Some (data p)"
    by (simp add: ps sketches_request_def)
  from a have wf: "list_all (\<lambda>p. well_formed_page (data p)) (JInt 1 # qs)"
    and chain: "page_chain data (JInt 1 # qs)"
    by (simp_all add: ps)
  have up: "?base = ?base \<or> (\<exists>q. ?base = ?base @ [(''page'', q)])" by simp
  have run: "\<And>h. list_sketches sess api_root per_page scope include_archived h =
         Some ((concat (map (\<lambda>p. page_sketches (data p)) ps), None),
               h @ map (\<lambda>p. Call (sketches_request api_root per_page scope include_archived p)) ps)"
  proof -
    fix h
    from list_sketches_loop_pages [OF fresh served wf chain up, of h]
    show "list_sketches sess api_root per_page scope include_archived h =
         Some ((concat (map (\<lambda>p. page_sketches (data p)) ps), None),
               h @ map (\<lambda>p. Call (sketches_request api_root per_page scope include_archived p)) ps)"
      by (simp add: list_sketches_def ps sketches_request_def)
  qed
  have entries: "\<forall>p \<in> set ps. \<exists>es. entries_of (data p) = Some es
              \<and> map Some (page_sketches (data p)) = map sketch_of_entry es"
    using a by (auto simp: list_all_iff intro: page_sketches_entries)
  show "list_sketches sess api_root per_page scope include_archived h =
         Some ((concat (map (\<lambda>p. page_sketches (data p)) ps), None),
               h @ map (\<lambda>p. Call (sketches_request api_root per_page scope include_archived p)) ps)
       \<and> list_sketches sess api_root per_page scope include_archived h' =
         Some ((concat (map (\<lambda>p. page_sketches (data p)) ps), None),
               h' @ map (\<lambda>p. Call (sketches_request api_root per_page scope include_archived p)) ps)
       \<and> (\<forall>p \<in> set ps. \<exists>es. entries_of (data p) = Some es
              \<and> map Some (page_sketches (data p)) = map sketch_of_entry es)
       \<and> map resource_id (fst (fst (the (list_sketches sess api_root per_page scope include_archived h))))
           = map resource_id (fst (fst (the (list_sketches sess api_root per_page scope include_archived h'))))"
    using entries by (simp only: run [of h] run [of h'] option.sel fst_conv simp_thms)
qed

theorem list_sketches_paginates_witness:
  "hd [JInt 1, JInt 2] = JInt 1
   \<and> page_chain two_pages [JInt 1, JInt 2]
   \<and> list_all (\<lambda>p. well_formed_page (two_pages p)) [JInt 1, JInt 2]
   \<and> payload (paged_server two_pages []
         (sketches_request ''http://ts/api/v1'' 50 ''user'' True (JInt 1))) = Some (two_pages (JInt 1))
   \<and> payload (paged_server two_pages
         [Call (sketches_request ''http://ts/api/v1'' 50 ''user'' True (JInt 1))]
         (sketches_request ''http://ts/api/v1'' 50 ''user'' True (JInt 2))) = Some (two_pages (JInt 2))
   \<and> list_sketches (paged_server two_pages) ''http://ts/api/v1'' 50 ''user'' True [] =
       Some (([Sketch (JInt 7) (Some (JStr ''a'')), Sketch (JInt 8) (Some (JStr ''b'')),
               Sketch (JInt 9) (Some (JStr ''c''))], None),
             [Call (sketches_request ''http://ts/api/v1'' 50 ''user'' True (JInt 1)),
              Call (sketches_request ''http://ts/api/v1'' 50 ''user'' True (JInt 2))])"
proof -
  have h1: "hd [JInt 1, JInt 2] = JInt 1" by simp
  have n1: "next_page_of (two_pages (JInt 1)) = Some (JInt 2)"
    and n2: "next_page_of (two_pages (JInt 2)) = Some JNull"
    by (simp_all add: two_pages_def next_page_of_def)
  have e1: "entries_of (two_pages (JInt 1)) =
      Some [JDict [(''id'', JInt 7), (''name'', JStr ''a'')], JDict [(''id'', JInt 8), (''name'', JStr ''b'')]]"
    and e2: "entries_of (two_pages (JInt 2)) = Some [JDict [(''id'', JInt 9), (''name'', JStr ''c'')]]"
    by (simp_all add: two_pages_def entries_of_def)
  have t: "truthy (two_pages (JInt 1))" "truthy (two_pages (JInt 2))"
    by (simp_all add: two_pages_def)
  have chain: "page_chain two_pages [JInt 1, JInt 2]" by (simp add: n1 n2)
  have wf: "list_all (\<lambda>p. well_formed_page (two_pages p)) [JInt 1, JInt 2]"
    by (simp add: well_formed_page_def n1 n2 e1 e2 t sketch_of_entry_def)
  have served: "\<forall>h p. p \<in> set [JInt 1, JInt 2] \<longrightarrow>
         payload (paged_server two_pages h (sketches_request ''http://ts/api/v1'' 50 ''user'' True p))
         = Some (two_pages p)"
    by (simp add: paged_server_def sketches_request_def payload_def HTTP_STATUS_CODE_20X_def)
  note T = list_sketches_paginates [where ps = "[JInt 1, JInt 2]" and data = two_pages
      and sess = "paged_server two_pages" and api_root = "''http://ts/api/v1''"
      and per_page = 50 and scope = "''user''" and include_archived = True and h = "[]" and h' = "[]",
      THEN mp, OF conjI [OF h1 conjI [OF chain conjI [OF wf served]]], THEN conjunct1]
  have "list_sketches (paged_server two_pages) ''http://ts/api/v1'' 50 ''user'' True [] =
       Some (([Sketch (JInt 7) (Some (JStr ''a'')), Sketch (JInt 8) (Some (JStr ''b'')),
               Sketch (JInt 9) (Some (JStr ''c''))], None),
             [Call (sketches_request ''http://ts/api/v1'' 50 ''user'' True (JInt 1)),
              Call (sketches_request ''http://ts/api/v1'' 50 ''user'' True (JInt 2))])"
    by (simp add: T page_sketches_def e1 e2 sketch_of_entry_def)
  moreover have "payload (paged_server two_pages []
         (sketches_request ''http://ts/api/v1'' 50 ''user'' True (JInt 1))) = Some (two_pages (JInt 1))"
    and "payload (paged_server two_pages
         [Call (sketches_request ''http://ts/api/v1'' 50 ''user'' True (JInt 1))]
         (sketches_request ''http://ts/api/v1'' 50 ''user'' True (JInt 2))) = Some (two_pages (JInt 2))"
    using served by simp_all
  ultimately show ?thesis using h1 chain wf by (intro conjI)
qed

subsection \<open>The backoff schedule\<close>

lemma sleeps_schedule_5: "sleeps (schedule req DEFAULT_RETRY_COUNT) = [0.5, 1, 2, 4]"
proof -
  have "[2..<Suc 5] = [2, 3, 4, 5]" by (simp add: upt_rec)
  then show ?thesis
    by (simp add: sleeps_schedule DEFAULT_RETRY_COUNT_def unified_delay_def del: upt_Suc)
qed

lemma schedule_next:
  assumes "1 < m"
  shows "schedule req m = schedule req (m - 1) @ [Sleep (0.5 * 2 ^ (m - 2)), Call req]"
proof -
  from assms have "2 \<le> m" by simp
  then obtain j where m: "m = Suc (Suc j)" by (metis add_2_eq_Suc le_Suc_ex)
  show ?thesis
    by (simp add: m schedule_Suc attempt_events_def sleeps_before_def unified_delay_def)
qed

text \<open>
  C3, as the code has it. In \<open>fetch_resource_data\<close>, \<open>create_sketch\<close> and
  \<open>create_searchindex\<close>, whenever the attempts before attempt \<open>m\<close>, \<open>1 < m \<le> 5\<close>, have
  failed in a way the method tries again, the history continues, right after the events
  of attempts \<open>1..m-1\<close>, with a sleep of \<open>0.5 * 2^(m-2)\<close> seconds and then the call of
  attempt \<open>m\<close>; when all five attempts fail, the sleeps of the call are 0.5, 1, 2 and 4
  seconds, in this order, and nothing else. This delay is \<open>unified_delay (m - 1)\<close>, whether
  it is slept on entry to attempt \<open>m\<close> (\<open>fetch_resource_data\<close>) or at the end of the
  failed attempt \<open>m - 1\<close> (the two create methods). Every call of the three methods,
  whatever the server does, records the attempts \<open>1..k\<close> of this one schedule for some
  \<open>k\<close> from 1 to 5. \<open>create_user\<close> and \<open>create_sigmarule\<close> do not sleep: the loop they
  share adds no sleep to the history.
\<close>

theorem backoff_delays:
  "(1 < m \<and> m \<le> DEFAULT_RETRY_COUNT
      \<and> (\<forall>j. 1 \<le> j \<and> j < m \<longrightarrow>
            transient_fetch (sess (h @ before_call (GET (api_root @ ''/'' @ uri) params) j)
                               (GET (api_root @ ''/'' @ uri) params)))
     \<longrightarrow> (\<exists>t. snd (fetch_resource_data sess api_root uri params h) =
             h @ schedule (GET (api_root @ ''/'' @ uri) params) (m - 1)
               @ [Sleep (0.5 * 2 ^ (m - 2)), Call (GET (api_root @ ''/'' @ uri) params)] @ t))
   \<and> (1 < m \<and> m \<le> DEFAULT_RETRY_COUNT \<and> name \<noteq> []
      \<and> (\<forall>j. 1 \<le> j \<and> j < m \<longrightarrow>
            transient_sketch
              (sess (h @ before_call (POST (api_root @ ''/sketches/'') (sketch_form_data name description)) j)
                 (POST (api_root @ ''/sketches/'') (sketch_form_data name description))))
     \<longrightarrow> (\<exists>t. snd (create_sketch sess api_root name description h) =
             h @ schedule (POST (api_root @ ''/sketches/'') (sketch_form_data name description)) (m - 1)
               @ [Sleep (0.5 * 2 ^ (m - 2)),
                  Call (POST (api_root @ ''/sketches/'') (sketch_form_data name description))] @ t))
   \<and> (1 < m \<and> m \<le> DEFAULT_RETRY_COUNT
      \<and> (\<forall>j. 1 \<le> j \<and> j < m \<longrightarrow>
            transient_create
              (sess (h @ before_call (POST (api_root @ ''/searchindices/'') (searchindex_form_data sname oname)) j)
                 (POST (api_root @ ''/searchindices/'') (searchindex_form_data sname oname))))
     \<longrightarrow> (\<exists>t. snd (create_searchindex sess api_root sname oname h) =
             h @ schedule (POST (api_root @ ''/searchindices/'') (searchindex_form_data sname oname)) (m - 1)
               @ [Sleep (0.5 * 2 ^ (m - 2)),
                  Call (POST (api_root @ ''/searchindices/'') (searchindex_form_data sname oname))] @ t))
   \<and> ((\<forall>j. 1 \<le> j \<and> j \<le> DEFAULT_RETRY_COUNT \<longrightarrow>
            transient_fetch (sess (h @ before_call (GET (api_root @ ''/'' @ uri) params) j)
                               (GET (api_root @ ''/'' @ uri) params)))
     \<longrightarrow> sleeps (snd (fetch_resource_data sess api_root uri params h)) = sleeps h @ [0.5, 1, 2, 4])
   \<and> (name \<noteq> []
      \<and> (\<forall>j. 1 \<le> j \<and> j \<le> DEFAULT_RETRY_COUNT \<longrightarrow>
            transient_sketch
              (sess (h @ before_call (POST (api_root @ ''/sketches/'') (sketch_form_data name description)) j)
                 (POST (api_root @ ''/sketches/'') (sketch_form_data name description))))
     \<longrightarrow> sleeps (snd (create_sketch sess api_root name description h)) = sleeps h @ [0.5, 1, 2, 4])
   \<and> ((\<forall>j. 1 \<le> j \<and> j \<le> DEFAULT_RETRY_COUNT \<longrightarrow>
            transient_create
              (sess (h @ before_call (POST (api_root @ ''/searchindices/'') (searchindex_form_data sname oname)) j)
                 (POST (api_root @ ''/searchindices/'') (searchindex_form_data sname oname))))
     \<longrightarrow> sleeps (snd (create_searchindex sess api_root sname oname h)) = sleeps h @ [0.5, 1, 2, 4])
   \<and> (\<exists>k. 1 \<le> k \<and> k \<le> DEFAULT_RETRY_COUNT \<and>
        snd (fetch_resource_data sess api_root uri params h) =
        h @ schedule (GET (api_root @ ''/'' @ uri) params) k)
   \<and> (name \<noteq> [] \<longrightarrow>
        (\<exists>k. 1 \<le> k \<and> k \<le> DEFAULT_RETRY_COUNT \<and>
           snd (create_sketch sess api_root name description h) =
           h @ schedule (POST (api_root @ ''/sketches/'') (sketch_form_data name description)) k))
   \<and> (\<exists>k. 1 \<le> k \<and> k \<le> DEFAULT_RETRY_COUNT \<and>
        snd (create_searchindex sess api_root sname oname h) =
        h @ schedule (POST (api_root @ ''/searchindices/'') (searchindex_form_data sname oname)) k)
   \<and> (1 < m \<longrightarrow> unified_delay (m - 1) = 0.5 * 2 ^ (m - 2)
          \<and> sleeps_before m = [Sleep (0.5 * 2 ^ (m - 2))])
   \<and> sleeps (snd (post_until_objects sess url form_data 0 h)) = sleeps h
   \<and> sleeps (snd (create_user sess api_root username password h)) = sleeps h"
proof (intro conjI impI)
  let ?req = "GET (api_root @ ''/'' @ uri) params"
  assume a: "1 < m \<and> m \<le> DEFAULT_RETRY_COUNT
      \<and> (\<forall>j. 1 \<le> j \<and> j < m \<longrightarrow> transient_fetch (sess (h @ before_call ?req j) ?req))"
  then have m: "1 < m" and k: "m - 1 < DEFAULT_RETRY_COUNT" and s: "Suc (m - 1) = m" by auto
  have f: "\<forall>j. 1 \<le> j \<and> j \<le> m - 1 \<longrightarrow> transient_fetch (sess (h @ before_call ?req j) ?req)"
  proof (intro allI impI)
    fix j :: nat
    assume "1 \<le> j \<and> j \<le> m - 1"
    with m have "1 \<le> j \<and> j < m" by arith
    with a show "transient_fetch (sess (h @ before_call ?req j) ?req)" by blast
  qed
  from fetch_continues [where sess = sess and h = h, OF f k]
  show "\<exists>t. snd (fetch_resource_data sess api_root uri params h) =
          h @ schedule ?req (m - 1) @ [Sleep (0.5 * 2 ^ (m - 2)), Call ?req] @ t"
    unfolding s by (simp add: schedule_next [OF m])
next
  let ?req = "POST (api_root @ ''/sketches/'') (sketch_form_data name description)"
  assume a: "1 < m \<and> m \<le> DEFAULT_RETRY_COUNT \<and> name \<noteq> []
      \<and> (\<forall>j. 1 \<le> j \<and> j < m \<longrightarrow> transient_sketch (sess (h @ before_call ?req j) ?req))"
  then have m: "1 < m" and k: "m - 1 < DEFAULT_RETRY_COUNT" and s: "Suc (m - 1) = m"
    and n: "name \<noteq> []" by auto
  have f: "\<forall>j. 1 \<le> j \<and> j \<le> m - 1 \<longrightarrow> transient_sketch (sess (h @ before_call ?req j) ?req)"
  proof (intro allI impI)
    fix j :: nat
    assume "1 \<le> j \<and> j \<le> m - 1"
    with m have "1 \<le> j \<and> j < m" by arith
    with a show "transient_sketch (sess (h @ before_call ?req j) ?req)" by blast
  qed
  from create_sketch_continues [where sess = sess and h = h, OF f k n]
  show "\<exists>t. snd (create_sketch sess api_root name description h) =
          h @ schedule ?req (m - 1) @ [Sleep (0.5 * 2 ^ (m - 2)), Call ?req] @ t"
    unfolding s by (simp add: schedule_next [OF m])
next
  let ?req = "POST (api_root @ ''/searchindices/'') (searchindex_form_data sname oname)"
  assume a: "1 < m \<and> m \<le> DEFAULT_RETRY_COUNT
      \<and> (\<forall>j. 1 \<le> j \<and> j < m \<longrightarrow> transient_create (sess (h @ before_call ?req j) ?req))"
  then have m: "1 < m" and k: "m - 1 < DEFAULT_RETRY_COUNT" and s: "Suc (m - 1) = m" by auto
  have f: "\<forall>j. 1 \<le> j \<and> j \<le> m - 1 \<longrightarrow> transient_create (sess (h @ before_call ?req j) ?req)"
  proof (intro allI impI)
    fix j :: nat
    assume "1 \<le> j \<and> j \<le> m - 1"
    with m have "1 \<le> j \<and> j < m" by arith
    with a show "transient_create (sess (h @ before_call ?req j) ?req)" by blast
  qed
  from create_searchindex_continues [where sess = sess and h = h, OF f k]
  show "\<exists>t. snd (create_searchindex sess api_root sname oname h) =
          h @ schedule ?req (m - 1) @ [Sleep (0.5 * 2 ^ (m - 2)), Call ?req] @ t"
    unfolding s by (simp add: schedule_next [OF m])
next
  let ?req = "GET (api_root @ ''/'' @ uri) params"
  assume "\<forall>j. 1 \<le> j \<and> j \<le> DEFAULT_RETRY_COUNT \<longrightarrow>
            transient_fetch (sess (h @ before_call ?req j) ?req)"
  from fetch_exhausts [where sess = sess and h = h, OF this]
  obtain e where "fetch_resource_data sess api_root uri params h =
      (Inl e, h @ schedule ?req DEFAULT_RETRY_COUNT)" by blast
  then show "sleeps (snd (fetch_resource_data sess api_root uri params h)) = sleeps h @ [0.5, 1, 2, 4]"
    by (simp add: sleeps_append sleeps_schedule_5)
next
  let ?req = "POST (api_root @ ''/sketches/'') (sketch_form_data name description)"
  assume a: "name \<noteq> []
      \<and> (\<forall>j. 1 \<le> j \<and> j \<le> DEFAULT_RETRY_COUNT \<longrightarrow>
            transient_sketch (sess (h @ before_call ?req j) ?req))"
  from create_sketch_exhausts [where sess = sess and h = h, OF conjunct2 [OF a] conjunct1 [OF a]]
  show "sleeps (snd (create_sketch sess api_root name description h)) = sleeps h @ [0.5, 1, 2, 4]"
    by (simp add: sleeps_append sleeps_schedule_5)
next
  let ?req = "POST (api_root @ ''/searchindices/'') (searchindex_form_data sname oname)"
  assume "\<forall>j. 1 \<le> j \<and> j \<le> DEFAULT_RETRY_COUNT \<longrightarrow>
            transient_create (sess (h @ before_call ?req j) ?req)"
  from create_searchindex_exhausts [where sess = sess and h = h, OF this]
  show "sleeps (snd (create_searchindex sess api_root sname oname h)) = sleeps h @ [0.5, 1, 2, 4]"
    by (simp add: sleeps_append sleeps_schedule_5)
next
  show "\<exists>k. 1 \<le> k \<and> k \<le> DEFAULT_RETRY_COUNT \<and>
        snd (fetch_resource_data sess api_root uri params h) =
        h @ schedule (GET (api_root @ ''/'' @ uri) params) k"
    by (rule fetch_history)
  show "\<exists>k. 1 \<le> k \<and> k \<le> DEFAULT_RETRY_COUNT \<and>
        snd (create_searchindex sess api_root sname oname h) =
        h @ schedule (POST (api_root @ ''/searchindices/'') (searchindex_form_data sname oname)) k"
    by (rule create_searchindex_history)
  have pos: "0 < DEFAULT_RETRY_COUNT" by (simp add: DEFAULT_RETRY_COUNT_def)
  have loop: "sleeps (snd (post_until_objects sess url' fd 0 h)) = sleeps h" for url' fd
  proof -
    from post_until_objects_history [OF pos, of sess url' fd h]
    obtain k where "snd (post_until_objects sess url' fd 0 h) =
        h @ replicate (k - 0) (Call (POST url' fd))"
      by blast
    then show ?thesis by (simp add: sleeps_append sleeps_replicate)
  qed
  show "sleeps (snd (post_until_objects sess url form_data 0 h)) = sleeps h"
    by (rule loop)
  show "sleeps (snd (create_user sess api_root username password h)) = sleeps h"
  proof -
    obtain res h1 where r: "post_until_objects sess (api_root @ ''/users/'')
        (user_form_data username password) 0 h = (res, h1)"
      by (cases "post_until_objects sess (api_root @ ''/users/'')
        (user_form_data username password) 0 h")
    with loop [of "api_root @ ''/users/''" "user_form_data username password"]
    have "sleeps h1 = sleeps h" by simp
    then show ?thesis
      by (simp add: create_user_def r split: sum.splits)
  qed
next
  assume "name \<noteq> []"
  then show "\<exists>k. 1 \<le> k \<and> k \<le> DEFAULT_RETRY_COUNT \<and>
           snd (create_sketch sess api_root name description h) =
           h @ schedule (POST (api_root @ ''/sketches/'') (sketch_form_data name description)) k"
    by (rule create_sketch_history)
next
  assume "1 < m"
  then have "2 \<le> m" by simp
  then obtain j where "m = Suc (Suc j)" by (metis add_2_eq_Suc le_Suc_ex)
  then show "unified_delay (m - 1) = 0.5 * 2 ^ (m - 2)"
    and "sleeps_before m = [Sleep (0.5 * 2 ^ (m - 2))]"
    by (simp_all add: sleeps_before_def unified_delay_def)
qed

theorem backoff_delays_witness:
  "(1::nat) < 3 \<and> 3 \<le> DEFAULT_RETRY_COUNT
   \<and> list_all (\<lambda>j.
        transient_fetch (server_down (before_call (GET ''http://ts/api/v1/sketches/'' None) j)
                           (GET ''http://ts/api/v1/sketches/'' None))) [1..<3]
   \<and> (\<exists>t. snd (fetch_resource_data server_down ''http://ts/api/v1'' ''sketches/'' None []) =
           [Call (GET ''http://ts/api/v1/sketches/'' None), Sleep 0.5,
            Call (GET ''http://ts/api/v1/sketches/'' None), Sleep 1,
            Call (GET ''http://ts/api/v1/sketches/'' None)] @ t)
   \<and> ''n'' \<noteq> []
   \<and> list_all (\<lambda>j.
        transient_sketch
          (server_error (before_call (POST ''http://ts/api/v1/sketches/'' (sketch_form_data ''n'' None)) j)
             (POST ''http://ts/api/v1/sketches/'' (sketch_form_data ''n'' None)))) [1..<3]
   \<and> (\<exists>t. snd (create_sketch server_error ''http://ts/api/v1'' ''n'' None []) =
           [Call (POST ''http://ts/api/v1/sketches/'' (sketch_form_data ''n'' None)), Sleep 0.5,
            Call (POST ''http://ts/api/v1/sketches/'' (sketch_form_data ''n'' None)), Sleep 1,
            Call (POST ''http://ts/api/v1/sketches/'' (sketch_form_data ''n'' None))] @ t)
   \<and> list_all (\<lambda>j.
        transient_create
          (server_down (before_call (POST ''http://ts/api/v1/searchindices/'' (searchindex_form_data ''s'' ''o'')) j)
             (POST ''http://ts/api/v1/searchindices/'' (searchindex_form_data ''s'' ''o'')))) [1..<3]
   \<and> (\<exists>t. snd (create_searchindex server_down ''http://ts/api/v1'' ''s'' ''o'' []) =
           [Call (POST ''http://ts/api/v1/searchindices/'' (searchindex_form_data ''s'' ''o'')), Sleep 0.5,
            Call (POST ''http://ts/api/v1/searchindices/'' (searchindex_form_data ''s'' ''o'')), Sleep 1,
            Call (POST ''http://ts/api/v1/searchindices/'' (searchindex_form_data ''s'' ''o''))] @ t)
   \<and> list_all (\<lambda>j.
        transient_fetch (server_down (before_call (GET ''http://ts/api/v1/sketches/'' None) j)
                           (GET ''http://ts/api/v1/sketches/'' None))) [1..<6]
   \<and> sleeps (snd (fetch_resource_data server_down ''http://ts/api/v1'' ''sketches/'' None [])) =
       [0.5, 1, 2, 4]
   \<and> list_all (\<lambda>j.
        transient_sketch
          (server_error (before_call (POST ''http://ts/api/v1/sketches/'' (sketch_form_data ''n'' None)) j)
             (POST ''http://ts/api/v1/sketches/'' (sketch_form_data ''n'' None)))) [1..<6]
   \<and> sleeps (snd (create_sketch server_error ''http://ts/api/v1'' ''n'' None [])) = [0.5, 1, 2, 4]
   \<and> list_all (\<lambda>j.
        transient_create
          (server_down (before_call (POST ''http://ts/api/v1/searchindices/'' (searchindex_form_data ''s'' ''o'')) j)
             (POST ''http://ts/api/v1/searchindices/'' (searchindex_form_data ''s'' ''o'')))) [1..<6]
   \<and> sleeps (snd (create_searchindex server_down ''http://ts/api/v1'' ''s'' ''o'' [])) = [0.5, 1, 2, 4]
   \<and> unified_delay 2 = 1 \<and> sleeps_before 3 = [Sleep 1]
   \<and> sleeps (snd (create_user (server_replies empty_objects) ''http://ts/api/v1'' ''u'' ''p'' [])) = []
   \<and> snd (fetch_resource_data server_down ''http://ts/api/v1'' ''sketches/'' None []) =
       [Call (GET ''http://ts/api/v1/sketches/'' None), Sleep 0.5,
        Call (GET ''http://ts/api/v1/sketches/'' None), Sleep 1,
        Call (GET ''http://ts/api/v1/sketches/'' None), Sleep 2,
        Call (GET ''http://ts/api/v1/sketches/'' None), Sleep 4,
        Call (GET ''http://ts/api/v1/sketches/'' None)]
   \<and> snd (create_sketch server_error ''http://ts/api/v1'' ''n'' None []) =
       [Call (POST ''http://ts/api/v1/sketches/'' (sketch_form_data ''n'' None)), Sleep 0.5,
        Call (POST ''http://ts/api/v1/sketches/'' (sketch_form_data ''n'' None)), Sleep 1,
        Call (POST ''http://ts/api/v1/sketches/'' (sketch_form_data ''n'' None)), Sleep 2,
        Call (POST ''http://ts/api/v1/sketches/'' (sketch_form_data ''n'' None)), Sleep 4,
        Call (POST ''http://ts/api/v1/sketches/'' (sketch_form_data ''n'' None))]
   \<and> snd (create_searchindex server_down ''http://ts/api/v1'' ''s'' ''o'' []) =
       [Call (POST ''http://ts/api/v1/searchindices/'' (searchindex_form_data ''s'' ''o'')), Sleep 0.5,
        Call (POST ''http://ts/api/v1/searchindices/'' (searchindex_form_data ''s'' ''o'')), Sleep 1,
        Call (POST ''http://ts/api/v1/searchindices/'' (searchindex_form_data ''s'' ''o'')), Sleep 2,
        Call (POST ''http://ts/api/v1/searchindices/'' (searchindex_form_data ''s'' ''o'')), Sleep 4,
        Call (POST ''http://ts/api/v1/searchindices/'' (searchindex_form_data ''s'' ''o''))]"
proof -
  have down: "\<And>h req. transient_fetch (server_down h req)" "\<And>h req. transient_create (server_down h req)"
    by (simp_all add: transient_fetch_def transient_create_def connection_error_def server_down_def)
  have err: "\<And>h req. transient_sketch (server_error h req)"
    by (simp add: transient_sketch_def non_20x_status_def server_error_def HTTP_STATUS_CODE_20X_def)
  have s2: "\<And>req. schedule req 2 = [Call req, Sleep 0.5, Call req]"
    by (simp add: schedule_def attempt_events_def sleeps_before_def unified_delay_def upt_rec)
  have s5: "\<And>req. schedule req DEFAULT_RETRY_COUNT =
      [Call req, Sleep 0.5, Call req, Sleep 1, Call req, Sleep 2, Call req, Sleep 4, Call req]"
    by (simp add: schedule_def attempt_events_def sleeps_before_def unified_delay_def upt_rec
        DEFAULT_RETRY_COUNT_def)
  have n: "(3::nat) - 1 = 2" "(3::nat) - 2 = 1" by simp_all
  have f: "snd (fetch_resource_data server_down ''http://ts/api/v1'' ''sketches/'' None []) =
      schedule (GET ''http://ts/api/v1/sketches/'' None) DEFAULT_RETRY_COUNT"
    using fetch_exhausts [where sess = server_down and h = "[]"
        and api_root = "''http://ts/api/v1''" and uri = "''sketches/''" and params = None]
    by (auto simp: down)
  have c: "snd (create_sketch server_error ''http://ts/api/v1'' ''n'' None []) =
      schedule (POST ''http://ts/api/v1/sketches/'' (sketch_form_data ''n'' None)) DEFAULT_RETRY_COUNT"
    using create_sketch_exhausts [where sess = server_error and h = "[]"
        and api_root = "''http://ts/api/v1''" and name = "''n''" and description = None]
    by (auto simp: err)
  have i: "snd (create_searchindex server_down ''http://ts/api/v1'' ''s'' ''o'' []) =
      schedule (POST ''http://ts/api/v1/searchindices/'' (searchindex_form_data ''s'' ''o''))
        DEFAULT_RETRY_COUNT"
    using create_searchindex_exhausts [where sess = server_down and h = "[]"
        and api_root = "''http://ts/api/v1''" and sname = "''s''" and oname = "''o''"]
    by (auto simp: down)
  note full = f [unfolded s5] c [unfolded s5] i [unfolded s5]
  show ?thesis
    using backoff_delays [where m = 3 and sess = server_down and h = "[]"
        and api_root = "''http://ts/api/v1''" and uri = "''sketches/''" and params = None
        and name = "''n''" and description = None and sname = "''s''" and oname = "''o''"
        and url = "''http://ts/api/v1/users/''" and form_data = "user_form_data ''u'' ''p''"
        and username = "''u''" and password = "''p''"]
      backoff_delays [where m = 3 and sess = server_error and h = "[]"
        and api_root = "''http://ts/api/v1''" and uri = "''sketches/''" and params = None
        and name = "''n''" and description = None and sname = "''s''" and oname = "''o''"
        and url = "''http://ts/api/v1/users/''" and form_data = "user_form_data ''u'' ''p''"
        and username = "''u''" and password = "''p''"]
      backoff_delays [where m = 3 and sess = "server_replies empty_objects" and h = "[]"
        and api_root = "''http://ts/api/v1''" and uri = "''sketches/''" and params = None
        and name = "''n''" and description = None and sname = "''s''" and oname = "''o''"
        and url = "''http://ts/api/v1/users/''" and form_data = "user_form_data ''u'' ''p''"
        and username = "''u''" and password = "''p''"]
    unfolding n s2
    by (simp add: down err list_all_iff DEFAULT_RETRY_COUNT_def full)
qed

text \<open>
  C3 as stated fails for \<open>create_user\<close> and \<open>create_sigmarule\<close>: against a server that
  answers every POST with \<open>{"objects": []}\<close> each of them makes its five attempts one
  after the other and raises, and its history holds five calls and no sleep, where the
  stated schedule has sleeps of 0.5, 1, 2 and 4 seconds between them.
\<close>

theorem backoff_delays_counterexample:
  "falsy_objects (server_replies empty_objects []
       (POST ''http://ts/api/v1/users/'' (user_form_data ''u'' ''p'')))
   \<and> create_user (server_replies empty_objects) ''http://ts/api/v1'' ''u'' ''p'' [] =
       (Inl RuntimeError,
        replicate 5 (Call (POST ''http://ts/api/v1/users/'' (user_form_data ''u'' ''p''))))
   \<and> calls (snd (create_user (server_replies empty_objects) ''http://ts/api/v1'' ''u'' ''p'' [])) = 5
   \<and> sleeps (snd (create_user (server_replies empty_objects) ''http://ts/api/v1'' ''u'' ''p'' [])) = []
   \<and> sleeps (snd (create_user (server_replies empty_objects) ''http://ts/api/v1'' ''u'' ''p'' []))
       \<noteq> sleeps (schedule (POST ''http://ts/api/v1/users/'' (user_form_data ''u'' ''p''))
                    DEFAULT_RETRY_COUNT)
   \<and> create_sigmarule loads (server_replies empty_objects) ''http://ts/api/v1'' ''y'' [] =
       (Inl RuntimeError,
        replicate 5 (Call (POST ''http://ts/api/v1/sigmarules/'' (sigmarule_form_data ''y''))))
   \<and> calls (snd (create_sigmarule loads (server_replies empty_objects) ''http://ts/api/v1'' ''y'' [])) = 5
   \<and> sleeps (snd (create_sigmarule loads (server_replies empty_objects) ''http://ts/api/v1'' ''y'' [])) = []"
proof -
  have empty: "\<And>h req. falsy_objects (server_replies empty_objects h req)"
    by (simp add: falsy_objects_def payload_def server_replies_def HTTP_STATUS_CODE_20X_def
        objects_of_def empty_objects_def)
  have u: "post_until_objects (server_replies empty_objects) ''http://ts/api/v1/users/''
             (user_form_data ''u'' ''p'') 0 [] =
           (Inl RuntimeError,
            replicate 5 (Call (POST ''http://ts/api/v1/users/'' (user_form_data ''u'' ''p''))))"
    using post_until_objects_exhausts [where sess = "server_replies empty_objects" and h = "[]"
        and url = "''http://ts/api/v1/users/''" and fd = "user_form_data ''u'' ''p''"]
    by (simp add: empty DEFAULT_RETRY_COUNT_def)
  have s: "post_until_objects (server_replies empty_objects) ''http://ts/api/v1/sigmarules/''
             (sigmarule_form_data ''y'') 0 [] =
           (Inl RuntimeError,
            replicate 5 (Call (POST ''http://ts/api/v1/sigmarules/'' (sigmarule_form_data ''y''))))"
    using post_until_objects_exhausts [where sess = "server_replies empty_objects" and h = "[]"
        and url = "''http://ts/api/v1/sigmarules/''" and fd = "sigmarule_form_data ''y''"]
    by (simp add: empty DEFAULT_RETRY_COUNT_def)
  have cu: "create_user (server_replies empty_objects) ''http://ts/api/v1'' ''u'' ''p'' [] =
       (Inl RuntimeError,
        replicate 5 (Call (POST ''http://ts/api/v1/users/'' (user_form_data ''u'' ''p''))))"
    by (simp add: create_user_def u)
  have cs: "create_sigmarule loads (server_replies empty_objects) ''http://ts/api/v1'' ''y'' [] =
       (Inl RuntimeError,
        replicate 5 (Call (POST ''http://ts/api/v1/sigmarules/'' (sigmarule_form_data ''y''))))"
    by (simp add: create_sigmarule_def s)
  show ?thesis
    unfolding cu cs
    by (simp add: empty sleeps_replicate calls_replicate sleeps_schedule_5)
qed

end
